(* ===== verification/Prelude.thy ===== *)
theory Prelude
  imports Main "HOL-Library.Sublist"
begin

text \<open>
  Shared vocabulary of the development: results that may be exceptions, and the methods of
  Python's \<^verbatim>\<open>str\<close> that the sources call (\<^verbatim>\<open>startswith\<close>, \<^verbatim>\<open>find\<close>,
  \<^verbatim>\<open>replace\<close>, \<^verbatim>\<open>count\<close>, \<^verbatim>\<open>split\<close>, \<^verbatim>\<open>strip\<close>, \<^verbatim>\<open>join\<close>, \<^verbatim>\<open>str(int)\<close>),
  written as total executable functions, with the lemmas every component uses.

  A text is a \<^typ>\<open>string\<close>: its characters are the code points 0 to 255. The
  literals of HOL cannot hold a backslash, so a literal that needs one is written with a
  backquote in its place and passed through \<open>raw\<close>, which puts the backslash back.
\<close>

section \<open>Collections of rules\<close>

named_theorems py_simps \<open>unfolding rules for the Python string methods\<close>
named_theorems lint_defs \<open>definitions of the linter's straight-line operations\<close>
named_theorems rpc_defs \<open>definitions of the client's operations over remote calls\<close>

section \<open>Literals\<close>

definition raw :: "string \<Rightarrow> string" where
  "raw s = map (\<lambda>c. if c = CHR 0x60 then CHR 0x5C else c) s"

abbreviation squote :: char where "squote \<equiv> CHR 0x27"
abbreviation dquote :: char where "dquote \<equiv> CHR 0x22"
abbreviation backslash :: char where "backslash \<equiv> CHR 0x5C"
abbreviation newline :: char where "newline \<equiv> CHR 0x0A"
abbreviation creturn :: char where "creturn \<equiv> CHR 0x0D"

lemma length_raw [simp]: "length (raw s) = length s"
  by (simp add: raw_def)

lemma raw_Nil [simp]: "raw [] = []"
  by (simp add: raw_def)

lemma raw_Cons [simp]:
  "raw (c # s) = (if c = CHR 0x60 then CHR 0x5C else c) # raw s"
  by (simp add: raw_def)

section \<open>Prefixes, suffixes and searching\<close>

fun startswith :: "'a list \<Rightarrow> 'a list \<Rightarrow> bool" where
  "startswith s [] = True"
| "startswith [] (p # ps) = False"
| "startswith (c # s) (p # ps) = (c = p \<and> startswith s ps)"

definition endswith :: "'a list \<Rightarrow> 'a list \<Rightarrow> bool" where
  "endswith s t = startswith (rev s) (rev t)"

text \<open>\<open>s.find(sub)\<close>: the least index where \<open>sub\<close> occurs; \<open>None\<close> is Python's \<open>-1\<close>.\<close>

fun py_find :: "'a list \<Rightarrow> 'a list \<Rightarrow> nat option" where
  "py_find [] sub = (if sub = [] then Some 0 else None)"
| "py_find (c # s) sub =
     (if startswith (c # s) sub then Some 0 else map_option Suc (py_find s sub))"

lemma startswith_prefix: "startswith s p \<longleftrightarrow> prefix p s"
  by (induction s p rule: startswith.induct) auto

lemma startswith_append [simp]: "startswith (p @ s) p"
  by (simp add: startswith_prefix)

lemma startswith_refl [simp]: "startswith s s"
  by (simp add: startswith_prefix)

lemma startswith_iff_append: "startswith s p \<longleftrightarrow> (\<exists>t. s = p @ t)"
  by (auto simp: startswith_prefix prefix_def)

lemma startswith_take: "startswith s p \<longleftrightarrow> take (length p) s = p"
  by (induction s p rule: startswith.induct) auto

lemma startswith_drop:
  "startswith s p \<Longrightarrow> p @ drop (length p) s = s"
  by (auto simp: startswith_iff_append)

lemma startswith_length: "startswith s p \<Longrightarrow> length p \<le> length s"
  by (auto simp: startswith_iff_append)

lemma endswith_suffix: "endswith s t \<longleftrightarrow> suffix t s"
  by (simp add: endswith_def startswith_prefix suffix_to_prefix)

lemma py_find_empty [simp]: "py_find s [] = Some 0"
  by (cases s) auto

lemma py_find_Some:
  "py_find s sub = Some i \<Longrightarrow>
     i + length sub \<le> length s \<and> s = take i s @ sub @ drop (i + length sub) s"
proof (induction s arbitrary: i)
  case Nil
  then show ?case by (simp split: if_splits)
next
  case (Cons c s)
  show ?case
  proof (cases "startswith (c # s) sub")
    case True
    with Cons.prems have "i = 0" by simp
    with True show ?thesis
      using startswith_length [OF True] startswith_drop [OF True] by simp
  next
    case False
    with Cons.prems obtain j where "py_find s sub = Some j" and i: "i = Suc j"
      by auto
    then show ?thesis using Cons.IH by simp
  qed
qed

lemma py_find_least:
  "py_find s sub = Some i \<Longrightarrow> j < i \<Longrightarrow> \<not> startswith (drop j s) sub"
proof (induction s arbitrary: i j)
  case Nil
  then show ?case by (simp split: if_splits)
next
  case (Cons c s)
  then show ?case
    by (cases j) (auto split: if_splits)
qed

lemma py_find_None: "py_find s sub = None \<longleftrightarrow> (\<forall>i \<le> length s. \<not> startswith (drop i s) sub)"
proof (induction s)
  case Nil
  show ?case by (cases sub) auto
next
  case (Cons c s)
  have "(\<forall>i \<le> length (c # s). \<not> startswith (drop i (c # s)) sub) \<longleftrightarrow>
      \<not> startswith (c # s) sub \<and> (\<forall>i \<le> length s. \<not> startswith (drop i s) sub)"
    by (auto simp: all_conj_distrib split: nat.splits) (metis Suc_le_mono drop_Suc_Cons not0_implies_Suc drop0)+
  then show ?case using Cons by auto
qed

lemma py_find_None_sublist: "py_find s sub = None \<longleftrightarrow> \<not> sublist sub s"
proof -
  have "sublist sub s \<longleftrightarrow> (\<exists>i \<le> length s. startswith (drop i s) sub)"
  proof
    assume "sublist sub s"
    then obtain a b where "s = a @ sub @ b" by (auto simp: sublist_def)
    then show "\<exists>i \<le> length s. startswith (drop i s) sub"
      by (intro exI [of _ "length a"]) simp
  next
    assume "\<exists>i \<le> length s. startswith (drop i s) sub"
    then obtain i t where "drop i s = sub @ t" by (auto simp: startswith_iff_append)
    then have "s = take i s @ sub @ t" by (metis append_take_drop_id)
    then show "sublist sub s" by (auto simp: sublist_def)
  qed
  then show ?thesis by (auto simp: py_find_None)
qed

lemma py_find_char_None [simp]: "py_find s [c] = None \<longleftrightarrow> c \<notin> set s"
  by (induction s) auto

section \<open>Replacing and counting\<close>

text \<open>\<open>s.replace(old, new)\<close> for a non-empty \<open>old\<close>: occurrences are taken from the left
  and do not overlap. The sources never pass an empty \<open>old\<close>.\<close>

function py_replace :: "'a list \<Rightarrow> 'a list \<Rightarrow> 'a list \<Rightarrow> 'a list" where
  "py_replace old new [] = []"
| "py_replace old new (c # s) =
     (if old \<noteq> [] \<and> startswith (c # s) old
      then new @ py_replace old new (drop (length old) (c # s))
      else c # py_replace old new s)"
  by pat_completeness auto
termination
proof (relation "measure (\<lambda>(old, new, s). length s)", goal_cases)
  case (2 old new c s)
  then show ?case by (cases old) auto
qed auto

text \<open>\<open>s.replace(old, new, 1)\<close>: the first occurrence only.\<close>

definition py_replace1 :: "'a list \<Rightarrow> 'a list \<Rightarrow> 'a list \<Rightarrow> 'a list" where
  "py_replace1 old new s =
     (case py_find s old of
        None \<Rightarrow> s
      | Some i \<Rightarrow> take i s @ new @ drop (i + length old) s)"

text \<open>\<open>s.count(sub)\<close> for a non-empty \<open>sub\<close>: occurrences that do not overlap.\<close>

function py_count :: "'a list \<Rightarrow> 'a list \<Rightarrow> nat" where
  "py_count [] sub = 0"
| "py_count (c # s) sub =
     (if sub \<noteq> [] \<and> startswith (c # s) sub
      then Suc (py_count (drop (length sub) (c # s)) sub)
      else py_count s sub)"
  by pat_completeness auto
termination
proof (relation "measure (\<lambda>(s, sub). length s)", goal_cases)
  case (2 c s sub)
  then show ?case by (cases sub) auto
qed auto

text \<open>Replacing a single character acts character by character.\<close>

lemma py_replace_char:
  "py_replace [c] new s = concat (map (\<lambda>d. if d = c then new else [d]) s)"
  by (induction s) auto

lemma py_count_char: "py_count s [c] = length (filter (\<lambda>d. d = c) s)"
  by (induction s) auto

lemma py_replace_absent:
  "\<not> sublist old s \<Longrightarrow> py_replace old new s = s"
proof (induction old new s rule: py_replace.induct)
  case (2 old new c s)
  from "2.prems" have "\<not> startswith (c # s) old"
    by (auto simp: startswith_prefix)
  moreover from "2.prems" have "\<not> sublist old s"
    by (auto simp: sublist_Cons_right)
  ultimately show ?case using "2.IH"(2) by simp
qed simp

section \<open>Splitting and joining\<close>

text \<open>\<open>s.split(sep)\<close> for a separator of one character.\<close>

fun py_split :: "'a \<Rightarrow> 'a list \<Rightarrow> 'a list list" where
  "py_split sep [] = [[]]"
| "py_split sep (c # s) =
     (if c = sep then [] # py_split sep s
      else (case py_split sep s of
              [] \<Rightarrow> [[c]]
            | w # ws \<Rightarrow> (c # w) # ws))"

text \<open>\<open>sep.join(ws)\<close>.\<close>

fun py_join :: "'a list \<Rightarrow> 'a list list \<Rightarrow> 'a list" where
  "py_join sep [] = []"
| "py_join sep [w] = w"
| "py_join sep (w # v # ws) = w @ sep @ py_join sep (v # ws)"

lemma py_split_not_Nil [simp]: "py_split sep s \<noteq> []"
  by (induction s) (auto split: list.splits)

lemma py_join_Cons: "ws \<noteq> [] \<Longrightarrow> py_join sep (w # ws) = w @ sep @ py_join sep ws"
  by (cases ws) auto

lemma py_join_split: "py_join [sep] (py_split sep s) = s"
proof (induction s)
  case (Cons c s)
  show ?case
  proof (cases "c = sep")
    case True
    with Cons show ?thesis by (simp add: py_join_Cons)
  next
    case False
    obtain w ws where w: "py_split sep s = w # ws"
      by (cases "py_split sep s") auto
    with False Cons show ?thesis by (cases ws) auto
  qed
qed simp

lemma py_split_absent: "sep \<notin> set s \<Longrightarrow> py_split sep s = [s]"
  by (induction s) auto

lemma py_split_append_sep: "py_split sep (u @ sep # v) = py_split sep u @ py_split sep v"
proof (induction u)
  case (Cons a u)
  then show ?case by (cases "py_split sep u") auto
qed simp

lemma py_split_join:
  "ws \<noteq> [] \<Longrightarrow> list_all (\<lambda>w. sep \<notin> set w) ws \<Longrightarrow> py_split sep (py_join [sep] ws) = ws"
  by (induction ws rule: induct_list012) (simp_all add: py_split_absent py_split_append_sep)

lemma length_py_split: "length (py_split sep s) = Suc (length (filter (\<lambda>c. c = sep) s))"
  by (induction s) (auto split: list.splits)

section \<open>White space\<close>

text \<open>White space for \<open>str.strip\<close> and \<open>str.split\<close> on a Unicode text, below code point 256.\<close>

definition py_isspace :: "char \<Rightarrow> bool" where
  "py_isspace c = (c \<in> set [CHR 0x09, CHR 0x0A, CHR 0x0B, CHR 0x0C, CHR 0x0D,
     CHR 0x1C, CHR 0x1D, CHR 0x1E, CHR 0x1F, CHR 0x20, CHR 0x85, CHR 0xA0])"

definition py_lstrip :: "string \<Rightarrow> string" where
  "py_lstrip s = dropWhile py_isspace s"

definition py_rstrip :: "string \<Rightarrow> string" where
  "py_rstrip s = rev (dropWhile py_isspace (rev s))"

definition py_strip :: "string \<Rightarrow> string" where
  "py_strip s = py_rstrip (py_lstrip s)"

text \<open>\<open>s.split()\<close>: the maximal runs of characters that are not white space.\<close>

function py_split_ws :: "string \<Rightarrow> string list" where
  "py_split_ws s =
     (let t = dropWhile py_isspace s in
      if t = [] then []
      else takeWhile (\<lambda>c. \<not> py_isspace c) t #
           py_split_ws (dropWhile (\<lambda>c. \<not> py_isspace c) t))"
  by pat_completeness auto
termination
proof (relation "measure length", goal_cases)
  case (2 s t)
  then obtain c u where t: "t = c # u" by (meson neq_Nil_conv)
  with 2 have "\<not> py_isspace c" by (metis hd_dropWhile list.sel(1))
  then have "length (dropWhile (\<lambda>c. \<not> py_isspace c) t) < length t"
    using t by (simp add: length_dropWhile_le less_Suc_eq_le)
  also have "length t \<le> length s" using 2 by (simp add: length_dropWhile_le)
  finally show ?case by simp
qed auto

declare py_split_ws.simps [simp del]

lemma length_py_rstrip: "length (py_rstrip s) \<le> length s"
  by (simp add: py_rstrip_def) (metis length_dropWhile_le length_rev)

section \<open>Numbers\<close>

definition digit_char :: "nat \<Rightarrow> char" where
  "digit_char d = char_of (48 + d)"

fun str_of_nat :: "nat \<Rightarrow> string" where
  "str_of_nat n = (if n < 10 then [digit_char n] else str_of_nat (n div 10) @ [digit_char (n mod 10)])"

declare str_of_nat.simps [simp del]

definition str_of_int :: "int \<Rightarrow> string" where
  "str_of_int i = (if i < 0 then CHR ''-'' # str_of_nat (nat (- i)) else str_of_nat (nat i))"

lemma str_of_nat_not_Nil [simp]: "str_of_nat n \<noteq> []"
  by (subst str_of_nat.simps) simp

text \<open>Reading the digits back.\<close>

definition digit_val :: "char \<Rightarrow> nat" where
  "digit_val c = of_char c - 48"

fun nat_of_digits :: "nat \<Rightarrow> string \<Rightarrow> nat" where
  "nat_of_digits a [] = a"
| "nat_of_digits a (c # s) = nat_of_digits (10 * a + digit_val c) s"

definition is_digit :: "char \<Rightarrow> bool" where
  "is_digit c = (48 \<le> (of_char c :: nat) \<and> (of_char c :: nat) \<le> 57)"

lemma of_digit_char: "d < 10 \<Longrightarrow> (of_char (digit_char d) :: nat) = 48 + d"
  by (simp add: digit_char_def)

lemma is_digit_digit_char: "d < 10 \<Longrightarrow> is_digit (digit_char d)"
  by (simp add: is_digit_def of_digit_char)

lemma str_of_nat_digits: "c \<in> set (str_of_nat n) \<Longrightarrow> is_digit c"
proof (induction n rule: str_of_nat.induct)
  case (1 n)
  then show ?case
    by (subst (asm) str_of_nat.simps) (auto simp: is_digit_digit_char split: if_splits)
qed

lemma nat_of_digits_append:
  "nat_of_digits a (s @ t) = nat_of_digits (nat_of_digits a s) t"
  by (induction s arbitrary: a) auto

lemma nat_of_str_of_nat: "nat_of_digits 0 (str_of_nat n) = n"
proof (induction n rule: str_of_nat.induct)
  case (1 n)
  show ?case
  proof (cases "n < 10")
    case True
    then show ?thesis
      by (subst str_of_nat.simps) (simp add: digit_val_def of_digit_char)
  next
    case False
    with 1 have "nat_of_digits 0 (str_of_nat (n div 10)) = n div 10" by simp
    with False show ?thesis
      by (subst str_of_nat.simps)
        (simp add: nat_of_digits_append digit_val_def of_digit_char)
  qed
qed

lemma str_of_nat_inject [simp]: "str_of_nat m = str_of_nat n \<longleftrightarrow> m = n"
  by (metis nat_of_str_of_nat)

section \<open>Order\<close>

text \<open>The order of texts, by code points.\<close>

fun str_less :: "string \<Rightarrow> string \<Rightarrow> bool" where
  "str_less s [] = False"
| "str_less [] (d # t) = True"
| "str_less (c # s) (d # t) =
     ((of_char c :: nat) < of_char d \<or> (c = d \<and> str_less s t))"

section \<open>Indexing\<close>

text \<open>Python's \<open>xs[i]\<close> for an index the program keeps in range: a negative index counts
  from the end.\<close>

definition py_nth :: "'a list \<Rightarrow> int \<Rightarrow> 'a" where
  "py_nth xs i = (if i < 0 then xs ! nat (int (length xs) + i) else xs ! nat i)"

lemma py_nth_nat [simp]: "py_nth xs (int n) = xs ! n"
  by (simp add: py_nth_def)

end
