(* ===== verification/Py_Regex.thy ===== *)
theory Py_Regex
  imports Prelude
begin

text \<open>
  Python's regular expressions, as far as the sources use them: the syntax of patterns
  (\<open>re_compile\<close> reads the pattern text), backtracking matching (\<open>re_run\<close> lists the
  ways to match in the order in which the engine tries them), and \<^verbatim>\<open>match\<close>,
  \<^verbatim>\<open>search\<close>, \<^verbatim>\<open>sub\<close> and \<^verbatim>\<open>escape\<close>. Patterns are read without flags, so the
  classes of \<^verbatim>\<open>\s\<close>, \<^verbatim>\<open>\w\<close> and \<^verbatim>\<open>\d\<close> are the ASCII ones. Patterns in the sources are
  raw strings; here they are written with \<open>raw\<close>.
\<close>

section \<open>Expressions\<close>

datatype citem = CChar char | CRange char char | CSpace bool | CWord bool | CDigit bool

datatype re =
    REmpty
  | RChar char
  | RAny
  | RSet bool "citem list"      \<comment> \<open>the flag: a negated set\<close>
  | RBol
  | REol
  | RWordB bool                 \<comment> \<open>\<open>\b\<close>, and with \<open>False\<close> its negation\<close>
  | RCat re re
  | RAlt re re
  | RRep nat "nat option" bool re  \<comment> \<open>bounds, greedy\<close>
  | RGroup nat re
  | RLook bool re               \<comment> \<open>lookahead, and with \<open>False\<close> its negation\<close>

definition re_space :: "char \<Rightarrow> bool" where
  "re_space c = (c \<in> set [CHR 0x09, CHR 0x0A, CHR 0x0B, CHR 0x0C, CHR 0x0D, CHR 0x20])"

definition re_digit :: "char \<Rightarrow> bool" where
  "re_digit c = is_digit c"

definition is_upper :: "char \<Rightarrow> bool" where
  "is_upper c = (65 \<le> (of_char c :: nat) \<and> (of_char c :: nat) \<le> 90)"

definition is_lower :: "char \<Rightarrow> bool" where
  "is_lower c = (97 \<le> (of_char c :: nat) \<and> (of_char c :: nat) \<le> 122)"

definition re_word :: "char \<Rightarrow> bool" where
  "re_word c = (is_digit c \<or> is_upper c \<or> is_lower c \<or> c = CHR ''_'')"

fun in_citem :: "char \<Rightarrow> citem \<Rightarrow> bool" where
  "in_citem c (CChar d) = (c = d)"
| "in_citem c (CRange a b) = ((of_char a :: nat) \<le> of_char c \<and> (of_char c :: nat) \<le> of_char b)"
| "in_citem c (CSpace p) = (re_space c = p)"
| "in_citem c (CWord p) = (re_word c = p)"
| "in_citem c (CDigit p) = (re_digit c = p)"

definition in_set :: "bool \<Rightarrow> citem list \<Rightarrow> char \<Rightarrow> bool" where
  "in_set neg items c = (list_ex (in_citem c) items \<noteq> neg)"

section \<open>Matching\<close>

text \<open>
  A state of a match: the text already passed (reversed), the text ahead, and the groups
  captured so far as (number, start, text), the latest first.
\<close>

type_synonym caps = "(nat \<times> nat \<times> string) list"
type_synonym mstate = "string \<times> string \<times> caps"

fun m_ahead :: "mstate \<Rightarrow> string" where
  "m_ahead (p, s, g) = s"

definition at_word_boundary :: "string \<Rightarrow> string \<Rightarrow> bool" where
  "at_word_boundary p s =
     ((case p of [] \<Rightarrow> False | c # _ \<Rightarrow> re_word c) \<noteq> (case s of [] \<Rightarrow> False | c # _ \<Rightarrow> re_word c))"

fun eat :: "(char \<Rightarrow> bool) \<Rightarrow> mstate \<Rightarrow> mstate list" where
  "eat P (p, [], g) = []"
| "eat P (p, c # s, g) = (if P c then [(c # p, s, g)] else [])"

text \<open>The iterations a repetition must make, and those it may make: an iteration that
  consumed nothing is the last one.\<close>

fun rep_min :: "(mstate \<Rightarrow> mstate list) \<Rightarrow> nat \<Rightarrow> mstate \<Rightarrow> mstate list" where
  "rep_min f 0 st = [st]"
| "rep_min f (Suc n) st = concat (map (rep_min f n) (f st))"

fun rep_opt :: "(mstate \<Rightarrow> mstate list) \<Rightarrow> bool \<Rightarrow> nat \<Rightarrow> mstate \<Rightarrow> mstate list" where
  "rep_opt f greedy 0 st = [st]"
| "rep_opt f greedy (Suc n) st =
     (let more = concat (map (\<lambda>t. if length (m_ahead t) < length (m_ahead st)
                                  then rep_opt f greedy n t else [t]) (f st))
      in if greedy then more @ [st] else st # more)"

definition re_rep :: "(mstate \<Rightarrow> mstate list) \<Rightarrow> nat \<Rightarrow> nat option \<Rightarrow> bool \<Rightarrow> mstate \<Rightarrow> mstate list" where
  "re_rep f lo hi greedy st =
     concat (map (\<lambda>t. rep_opt f greedy
                        (case hi of None \<Rightarrow> length (m_ahead t) | Some h \<Rightarrow> h - lo) t)
                 (rep_min f lo st))"

primrec re_run :: "re \<Rightarrow> mstate \<Rightarrow> mstate list" where
  "re_run REmpty st = [st]"
| "re_run (RChar c) st = eat (\<lambda>d. d = c) st"
| "re_run RAny st = eat (\<lambda>d. d \<noteq> newline) st"
| "re_run (RSet neg items) st = eat (in_set neg items) st"
| "re_run RBol st = (case st of (p, s, g) \<Rightarrow> if p = [] then [st] else [])"
| "re_run REol st = (case st of (p, s, g) \<Rightarrow> if s = [] \<or> s = [newline] then [st] else [])"
| "re_run (RWordB b) st = (case st of (p, s, g) \<Rightarrow> if at_word_boundary p s = b then [st] else [])"
| "re_run (RCat r1 r2) st = concat (map (re_run r2) (re_run r1 st))"
| "re_run (RAlt r1 r2) st = re_run r1 st @ re_run r2 st"
| "re_run (RRep lo hi greedy r) st = re_rep (re_run r) lo hi greedy st"
| "re_run (RGroup n r) st =
     (case st of (p, s, g) \<Rightarrow>
        map (\<lambda>(p', s', g'). (p', s', (n, length p, take (length s - length s') s) # g'))
            (re_run r st))"
| "re_run (RLook b r) st =
     (case st of (p, s, g) \<Rightarrow>
        (case re_run r st of
           [] \<Rightarrow> if b then [] else [st]
         | (p', s', g') # _ \<Rightarrow> if b then [(p, s, g')] else []))"

text \<open>A match object.\<close>

record mat =
  m_start :: nat
  m_text :: string
  m_rest :: string
  m_caps :: caps

definition mat_of :: "string \<Rightarrow> string \<Rightarrow> mstate \<Rightarrow> mat" where
  "mat_of p s st =
     (case st of (p', s', g) \<Rightarrow>
        \<lparr>m_start = length p, m_text = take (length s - length s') s, m_rest = s', m_caps = g\<rparr>)"

text \<open>\<open>pattern.match\<close> at a given point of the text, and \<open>pattern.search\<close> from there on.\<close>

definition match_at :: "re \<Rightarrow> string \<Rightarrow> string \<Rightarrow> mat option" where
  "match_at r p s =
     (case re_run r (p, s, []) of [] \<Rightarrow> None | st # _ \<Rightarrow> Some (mat_of p s st))"

fun search_at :: "re \<Rightarrow> string \<Rightarrow> string \<Rightarrow> mat option" where
  "search_at r p [] = match_at r p []"
| "search_at r p (c # s) =
     (case match_at r p (c # s) of None \<Rightarrow> search_at r (c # p) s | Some m \<Rightarrow> Some m)"

text \<open>\<open>m.group(n)\<close>: the last text the group captured, \<open>None\<close> if it took no part.\<close>

definition m_group :: "mat \<Rightarrow> nat \<Rightarrow> string option" where
  "m_group m n =
     (if n = 0 then Some (m_text m)
      else map_option snd (map_of (m_caps m) n))"

text \<open>\<open>pattern.sub\<close> with a replacement computed from the match, for a pattern that does
  not match the empty text: matches are taken from the left and do not overlap.\<close>

function sub_at :: "re \<Rightarrow> (mat \<Rightarrow> string) \<Rightarrow> string \<Rightarrow> string \<Rightarrow> string" where
  "sub_at r f p [] = []"
| "sub_at r f p (c # s) =
     (case match_at r p (c # s) of
        Some m \<Rightarrow>
          (if m_text m = [] then c # sub_at r f (c # p) s
           else f m @ sub_at r f (rev (m_text m) @ p) (drop (length (m_text m)) (c # s)))
      | None \<Rightarrow> c # sub_at r f (c # p) s)"
  by pat_completeness auto
termination
proof (relation "measure (\<lambda>(r, f, p, s). length s)", goal_cases)
  case (3 r f p c s m)
  then show ?case by (cases "m_text m") auto
qed auto

section \<open>Reading patterns\<close>

fun p_digits :: "string \<Rightarrow> string \<times> string" where
  "p_digits [] = ([], [])"
| "p_digits (c # s) = (if is_digit c then (case p_digits s of (d, t) \<Rightarrow> (c # d, t)) else ([], c # s))"

text \<open>The bounds \<open>{m}\<close> and \<open>{m,n}\<close> after an opening brace; \<open>None\<close> if the brace is literal.\<close>

definition p_braces :: "string \<Rightarrow> ((nat \<times> nat option) \<times> string) option" where
  "p_braces s =
     (case p_digits s of (d, t) \<Rightarrow>
        (case t of
           [] \<Rightarrow> None
         | c # u \<Rightarrow>
             if c = CHR ''}'' then
               (if d = [] then None
                else Some ((nat_of_digits 0 d, Some (nat_of_digits 0 d)), u))
             else if c = CHR '','' then
               (case p_digits u of (e, v) \<Rightarrow>
                  (case v of
                     [] \<Rightarrow> None
                   | x # w \<Rightarrow>
                       if x = CHR ''}''
                       then Some ((nat_of_digits 0 d,
                                   if e = [] then None else Some (nat_of_digits 0 e)), w)
                       else None))
             else None))"

text \<open>The quantifier after an item: its bounds, whether it is greedy, and the rest.\<close>

definition p_lazy :: "nat \<Rightarrow> nat option \<Rightarrow> string \<Rightarrow> (nat \<times> nat option \<times> bool) option \<times> string" where
  "p_lazy lo hi s =
     (case s of
        c # t \<Rightarrow> if c = CHR ''?'' then (Some (lo, hi, False), t) else (Some (lo, hi, True), s)
      | [] \<Rightarrow> (Some (lo, hi, True), s))"

definition p_quant :: "string \<Rightarrow> (nat \<times> nat option \<times> bool) option \<times> string" where
  "p_quant s =
     (case s of
        [] \<Rightarrow> (None, s)
      | c # t \<Rightarrow>
          if c = CHR ''*'' then p_lazy 0 None t
          else if c = CHR ''+'' then p_lazy 1 None t
          else if c = CHR ''?'' then p_lazy 0 (Some 1) t
          else if c = CHR ''{'' then
            (case p_braces t of None \<Rightarrow> (None, s) | Some ((lo, hi), u) \<Rightarrow> p_lazy lo hi u)
          else (None, s))"

definition quantified :: "(nat \<times> nat option \<times> bool) option \<Rightarrow> re \<Rightarrow> re" where
  "quantified q r = (case q of None \<Rightarrow> r | Some (lo, hi, g) \<Rightarrow> RRep lo hi g r)"

text \<open>Escapes that stand for one character, in and outside a set.\<close>

definition esc_char :: "char \<Rightarrow> char option" where
  "esc_char c =
     (if c = CHR ''n'' then Some (CHR 0x0A)
      else if c = CHR ''t'' then Some (CHR 0x09)
      else if c = CHR ''r'' then Some (CHR 0x0D)
      else if c = CHR ''f'' then Some (CHR 0x0C)
      else if c = CHR ''v'' then Some (CHR 0x0B)
      else if is_digit c \<or> is_upper c \<or> is_lower c then None
      else Some c)"

definition esc_class :: "char \<Rightarrow> citem option" where
  "esc_class c =
     (if c = CHR ''s'' then Some (CSpace True)
      else if c = CHR ''S'' then Some (CSpace False)
      else if c = CHR ''w'' then Some (CWord True)
      else if c = CHR ''W'' then Some (CWord False)
      else if c = CHR ''d'' then Some (CDigit True)
      else if c = CHR ''D'' then Some (CDigit False)
      else None)"

definition p_escape :: "char \<Rightarrow> re option" where
  "p_escape c =
     (case esc_class c of
        Some i \<Rightarrow> Some (RSet False [i])
      | None \<Rightarrow>
          if c = CHR ''b'' then Some (RWordB True)
          else if c = CHR ''B'' then Some (RWordB False)
          else map_option RChar (esc_char c))"

text \<open>One member of a set: a class, or a character (\<open>\b\<close> is a backspace there).\<close>

definition p_member :: "string \<Rightarrow> (citem \<times> string) option" where
  "p_member s =
     (case s of
        [] \<Rightarrow> None
      | c # t \<Rightarrow>
          if c \<noteq> backslash then Some (CChar c, t)
          else (case t of
                  [] \<Rightarrow> None
                | e # u \<Rightarrow>
                    (case esc_class e of
                       Some i \<Rightarrow> Some (i, u)
                     | None \<Rightarrow>
                         if e = CHR ''b'' then Some (CChar (CHR 0x08), u)
                         else map_option (\<lambda>d. (CChar d, u)) (esc_char e))))"

text \<open>What follows the hyphen of a range.\<close>

definition p_range :: "string \<Rightarrow> string option" where
  "p_range s =
     (case s of
        x # y # v \<Rightarrow> (if x = CHR ''-'' \<and> y \<noteq> CHR '']'' then Some (y # v) else None)
      | _ \<Rightarrow> None)"

text \<open>The members of a set up to its closing bracket. The flag is set at the first
  member, where a closing bracket is literal.\<close>

fun p_set :: "nat \<Rightarrow> bool \<Rightarrow> string \<Rightarrow> (citem list \<times> string) option" where
  "p_set 0 start s = None"
| "p_set (Suc n) start s =
     (if s = [] then None
      else if hd s = CHR '']'' \<and> \<not> start then Some ([], tl s)
      else
        (case p_member s of
           None \<Rightarrow> None
         | Some (i, u) \<Rightarrow>
             (case (case i of CChar a \<Rightarrow> p_range u | _ \<Rightarrow> None) of
                None \<Rightarrow> map_option (\<lambda>(is, z). (i # is, z)) (p_set n False u)
              | Some v \<Rightarrow>
                  (case (i, p_member v) of
                     (CChar a, Some (CChar b, w)) \<Rightarrow> map_option (\<lambda>(is, z). (CRange a b # is, z)) (p_set n False w)
                   | _ \<Rightarrow> None))))"

definition p_bracket :: "string \<Rightarrow> (re \<times> string) option" where
  "p_bracket s =
     (let neg = startswith s ''^''; t = (if neg then tl s else s)
      in map_option (\<lambda>(is, u). (RSet neg is, u)) (p_set (Suc (length t)) True t))"

text \<open>Alternatives, sequences and items, by recursive descent. The number is that of the
  next group; the first argument bounds the depth of the calls.\<close>

fun p_alt :: "nat \<Rightarrow> nat \<Rightarrow> string \<Rightarrow> (re \<times> nat \<times> string) option"
  and p_seq :: "nat \<Rightarrow> nat \<Rightarrow> string \<Rightarrow> (re \<times> nat \<times> string) option"
  and p_item :: "nat \<Rightarrow> nat \<Rightarrow> string \<Rightarrow> (re \<times> nat \<times> string) option"
where
  "p_alt 0 g s = None"
| "p_alt (Suc n) g s =
     (case p_seq n g s of
        None \<Rightarrow> None
      | Some (r, g', t) \<Rightarrow>
          (if startswith t ''|'' then
             (case p_alt n g' (tl t) of
                None \<Rightarrow> None
              | Some (r', g'', u) \<Rightarrow> Some (RAlt r r', g'', u))
           else Some (r, g', t)))"
| "p_seq 0 g s = None"
| "p_seq (Suc n) g s =
     (if s = [] \<or> hd s \<in> {CHR ''|'', CHR '')''} then Some (REmpty, g, s)
      else (case p_item n g s of
              None \<Rightarrow> None
            | Some (r, g', t) \<Rightarrow>
                (case p_quant t of (q, u) \<Rightarrow>
                   (case p_seq n g' u of
                      None \<Rightarrow> None
                    | Some (r', g'', v) \<Rightarrow>
                        Some (if r' = REmpty then quantified q r else RCat (quantified q r) r',
                              g'', v)))))"
| "p_item 0 g s = None"
| "p_item (Suc n) g s =
     (case s of
        [] \<Rightarrow> None
      | c # t \<Rightarrow>
          if c = CHR ''('' then
            (let (wrap, g', u) =
               (if startswith t ''?:'' then (id, g, drop 2 t)
                else if startswith t ''?='' then (RLook True, g, drop 2 t)
                else if startswith t ''?!'' then (RLook False, g, drop 2 t)
                else (RGroup g, Suc g, t))
             in (case p_alt n g' u of
                   None \<Rightarrow> None
                 | Some (r, g'', v) \<Rightarrow>
                     if startswith v '')'' then Some (wrap r, g'', tl v) else None))
          else if c = CHR ''['' then map_option (\<lambda>(r, u). (r, g, u)) (p_bracket t)
          else if c = backslash then
            (case t of [] \<Rightarrow> None | e # u \<Rightarrow> map_option (\<lambda>r. (r, g, u)) (p_escape e))
          else if c = CHR ''.'' then Some (RAny, g, t)
          else if c = CHR ''^'' then Some (RBol, g, t)
          else if c = CHR ''$'' then Some (REol, g, t)
          else if c \<in> {CHR ''*'', CHR ''+'', CHR ''?''} then None
          else if c = CHR ''{'' \<and> p_braces t \<noteq> None then None
          else Some (RChar c, g, t))"

text \<open>\<open>re.compile\<close>; \<open>None\<close> is \<open>re.error\<close>. Each character of the pattern takes at most
  three nested calls.\<close>

definition re_compile :: "string \<Rightarrow> re option" where
  "re_compile s =
     (case p_alt (3 * length s + 3) 1 s of
        Some (r, g, []) \<Rightarrow> Some r
      | _ \<Rightarrow> None)"

section \<open>Operations on patterns given as text\<close>

definition re_match :: "string \<Rightarrow> string \<Rightarrow> mat option" where
  "re_match pat s = (case re_compile pat of None \<Rightarrow> None | Some r \<Rightarrow> match_at r [] s)"

definition re_search :: "string \<Rightarrow> string \<Rightarrow> mat option" where
  "re_search pat s = (case re_compile pat of None \<Rightarrow> None | Some r \<Rightarrow> search_at r [] s)"

definition re_sub :: "string \<Rightarrow> (mat \<Rightarrow> string) \<Rightarrow> string \<Rightarrow> string" where
  "re_sub pat f s = (case re_compile pat of None \<Rightarrow> s | Some r \<Rightarrow> sub_at r f [] s)"

text \<open>\<open>re.escape\<close> puts a backslash before every character that is not alphanumeric.\<close>

definition re_escape :: "string \<Rightarrow> string" where
  "re_escape s =
     concat (map (\<lambda>c. if is_digit c \<or> is_upper c \<or> is_lower c then [c] else [backslash, c]) s)"

section \<open>Laws of matching\<close>

lemma re_run_eat [simp]:
  "re_run (RChar c) = eat (\<lambda>d. d = c)"
  "re_run RAny = eat (\<lambda>d. d \<noteq> newline)"
  "re_run (RSet neg items) = eat (in_set neg items)"
  by (simp_all add: fun_eq_iff)

text \<open>Whatever way an expression matches, it consumes a prefix of the text ahead.\<close>

definition consumes :: "(mstate \<Rightarrow> mstate list) \<Rightarrow> bool" where
  "consumes f = (\<forall>p s g p' s' g'. (p', s', g') \<in> set (f (p, s, g)) \<longrightarrow>
     (\<exists>w. s = w @ s' \<and> p' = rev w @ p))"

lemma consumesD:
  "consumes f \<Longrightarrow> (p', s', g') \<in> set (f (p, s, g)) \<Longrightarrow> \<exists>w. s = w @ s' \<and> p' = rev w @ p"
  unfolding consumes_def by blast

lemma consumes_eat: "consumes (eat P)"
  unfolding consumes_def
proof (intro allI impI)
  fix p s g p' s' g'
  assume "(p', s', g') \<in> set (eat P (p, s, g))"
  then show "\<exists>w. s = w @ s' \<and> p' = rev w @ p"
    by (cases s) (auto intro: exI [of _ "[c]" for c] split: if_splits)
qed

lemma consumes_single: "(\<And>st t. t \<in> set (f st) \<Longrightarrow> t = st) \<Longrightarrow> consumes f"
  unfolding consumes_def by fastforce

lemma consumes_bind:
  assumes "consumes f" and "\<And>t. consumes (h t)"
  shows "consumes (\<lambda>st. concat (map (\<lambda>t. h t t) (f st)))"
  unfolding consumes_def
proof (intro allI impI)
  fix p s g p' s' g'
  assume "(p', s', g') \<in> set (concat (map (\<lambda>t. h t t) (f (p, s, g))))"
  then obtain p1 s1 g1 where t: "(p1, s1, g1) \<in> set (f (p, s, g))"
    and u: "(p', s', g') \<in> set (h (p1, s1, g1) (p1, s1, g1))"
    by auto
  from consumesD [OF assms(1) t] consumesD [OF assms(2) u]
  show "\<exists>w. s = w @ s' \<and> p' = rev w @ p"
    by (metis append.assoc rev_append)
qed

lemma consumes_rep_min: "consumes f \<Longrightarrow> consumes (rep_min f n)"
proof (induction n)
  case 0
  show ?case by (rule consumes_single) simp
next
  case (Suc n)
  have "consumes (\<lambda>st. concat (map (\<lambda>t. rep_min f n t) (f st)))"
    by (rule consumes_bind [where h = "\<lambda>_. rep_min f n"]) (use Suc in auto)
  then show ?case by (simp add: consumes_def)
qed

lemma consumes_rep_opt: "consumes f \<Longrightarrow> consumes (rep_opt f greedy n)"
proof (induction n)
  case 0
  show ?case by (rule consumes_single) simp
next
  case (Suc n)
  show ?case
    unfolding consumes_def
  proof (intro allI impI)
    fix p s g p' s' g'
    assume a: "(p', s', g') \<in> set (rep_opt f greedy (Suc n) (p, s, g))"
    show "\<exists>w. s = w @ s' \<and> p' = rev w @ p"
    proof (cases "(p', s', g') = (p, s, g)")
      case True
      then show ?thesis by simp
    next
      case False
      with a obtain p1 s1 g1 where t: "(p1, s1, g1) \<in> set (f (p, s, g))"
        and u: "(p', s', g') \<in> set (rep_opt f greedy n (p1, s1, g1)) \<or> (p', s', g') = (p1, s1, g1)"
        by (auto simp: Let_def split: if_splits)
      from consumesD [OF Suc.prems t] obtain w where w: "s = w @ s1" "p1 = rev w @ p" by blast
      from u show ?thesis
      proof
        assume "(p', s', g') \<in> set (rep_opt f greedy n (p1, s1, g1))"
        from consumesD [OF Suc.IH [OF Suc.prems] this] w show ?thesis
          by (metis append.assoc rev_append)
      next
        assume "(p', s', g') = (p1, s1, g1)"
        with w show ?thesis by auto
      qed
    qed
  qed
qed

lemma consumes_re_rep: "consumes f \<Longrightarrow> consumes (re_rep f lo hi greedy)"
proof -
  assume f: "consumes f"
  have "consumes (\<lambda>st. concat (map (\<lambda>t. rep_opt f greedy
      (case hi of None \<Rightarrow> length (m_ahead t) | Some h \<Rightarrow> h - lo) t) (rep_min f lo st)))"
    by (rule consumes_bind [where h = "\<lambda>t. rep_opt f greedy
          (case hi of None \<Rightarrow> length (m_ahead t) | Some h \<Rightarrow> h - lo)"])
      (use f consumes_rep_min consumes_rep_opt in auto)
  then show ?thesis by (simp add: consumes_def re_rep_def)
qed

theorem consumes_re_run: "consumes (re_run r)"
proof (induction r)
  case (RCat r1 r2)
  have "consumes (\<lambda>st. concat (map (\<lambda>t. re_run r2 t) (re_run r1 st)))"
    by (rule consumes_bind [where h = "\<lambda>_. re_run r2"]) (use RCat in auto)
  then show ?case by (simp add: consumes_def)
next
  case (RAlt r1 r2)
  then show ?case unfolding consumes_def by simp blast
next
  case (RRep lo hi greedy r)
  then have "consumes (re_rep (re_run r) lo hi greedy)" by (rule consumes_re_rep)
  then show ?case by (simp add: consumes_def)
next
  case (RGroup n r)
  then show ?case unfolding consumes_def by fastforce
next
  case (RLook b r)
  then show ?case unfolding consumes_def by (auto split: list.splits if_splits)
qed (use consumes_eat in \<open>auto simp: consumes_def split: if_splits\<close>)

lemma re_run_split:
  "(p', s', g') \<in> set (re_run r (p, s, g)) \<Longrightarrow> \<exists>w. s = w @ s' \<and> p' = rev w @ p"
  using consumes_re_run by (rule consumesD)

lemma match_at_split: "match_at r p s = Some m \<Longrightarrow> s = m_text m @ m_rest m"
proof -
  assume "match_at r p s = Some m"
  then obtain p' s' g' where st: "(p', s', g') \<in> set (re_run r (p, s, []))"
    and m: "m = mat_of p s (p', s', g')"
    by (auto simp: match_at_def split: list.splits)
  from re_run_split [OF st] obtain w where "s = w @ s'" by blast
  with m show ?thesis by (simp add: mat_of_def)
qed

text \<open>A greedy repetition of a set of characters tries the longest run first.\<close>

lemma rep_opt_eat:
  "length s \<le> n \<Longrightarrow>
   \<exists>xs. rep_opt (eat P) True n (p, s, g) = (rev (takeWhile P s) @ p, dropWhile P s, g) # xs"
proof (induction n arbitrary: p s)
  case (Suc n)
  show ?case
  proof (cases s)
    case (Cons c t)
    with Suc.prems have "length t \<le> n" by simp
    from Suc.IH [OF this, of "c # p"] Cons show ?thesis by (auto simp: Let_def)
  qed (simp add: Let_def)
qed simp

lemma re_rep_eat:
  "\<exists>xs. re_rep (eat P) 0 None True (p, s, g) =
     (rev (takeWhile P s) @ p, dropWhile P s, g) # xs"
  using rep_opt_eat [of s "length s" P p g] by (simp add: re_rep_def)

section \<open>Groups\<close>

text \<open>A group that always takes part in a match of its pattern.\<close>

definition grp :: "mat \<Rightarrow> nat \<Rightarrow> string" where
  "grp m n = (case m_group m n of None \<Rightarrow> [] | Some w \<Rightarrow> w)"

primrec no_group :: "re \<Rightarrow> bool" where
  "no_group REmpty = True"
| "no_group (RChar c) = True"
| "no_group RAny = True"
| "no_group (RSet neg items) = True"
| "no_group RBol = True"
| "no_group REol = True"
| "no_group (RWordB b) = True"
| "no_group (RCat r1 r2) = (no_group r1 \<and> no_group r2)"
| "no_group (RAlt r1 r2) = (no_group r1 \<and> no_group r2)"
| "no_group (RRep lo hi greedy r) = no_group r"
| "no_group (RGroup n r) = False"
| "no_group (RLook b r) = no_group r"

definition keeps_caps :: "(mstate \<Rightarrow> mstate list) \<Rightarrow> bool" where
  "keeps_caps f = (\<forall>p s g p' s' g'. (p', s', g') \<in> set (f (p, s, g)) \<longrightarrow> g' = g)"

lemma keeps_capsD: "keeps_caps f \<Longrightarrow> (p', s', g') \<in> set (f (p, s, g)) \<Longrightarrow> g' = g"
  unfolding keeps_caps_def by blast

lemma keeps_caps_eat: "keeps_caps (eat P)"
  unfolding keeps_caps_def
proof (intro allI impI)
  fix p s g p' s' g'
  assume "(p', s', g') \<in> set (eat P (p, s, g))"
  then show "g' = g" by (cases s) (auto split: if_splits)
qed

lemma keeps_caps_rep_min: "keeps_caps f \<Longrightarrow> keeps_caps (rep_min f n)"
  by (induction n) (fastforce simp: keeps_caps_def)+

lemma keeps_caps_rep_opt: "keeps_caps f \<Longrightarrow> keeps_caps (rep_opt f greedy n)"
proof (induction n)
  case (Suc n)
  show ?case
    unfolding keeps_caps_def
  proof (intro allI impI)
    fix p s g p' s' g'
    assume a: "(p', s', g') \<in> set (rep_opt f greedy (Suc n) (p, s, g))"
    then consider "g' = g" | p1 s1 g1 where "(p1, s1, g1) \<in> set (f (p, s, g))"
        "(p', s', g') \<in> set (rep_opt f greedy n (p1, s1, g1)) \<or> g' = g1"
      by (auto simp: Let_def split: if_splits)
    then show "g' = g"
      using Suc by cases (auto dest: keeps_capsD)
  qed
qed (simp add: keeps_caps_def)

lemma re_run_caps: "no_group r \<Longrightarrow> keeps_caps (re_run r)"
proof (induction r)
  case (RCat r1 r2)
  then show ?case by (fastforce simp: keeps_caps_def)
next
  case (RRep lo hi greedy r)
  then have "keeps_caps (rep_min (re_run r) lo)" and "\<And>n. keeps_caps (rep_opt (re_run r) greedy n)"
    by (simp_all add: keeps_caps_rep_min keeps_caps_rep_opt)
  then show ?case by (fastforce simp: keeps_caps_def re_rep_def)
next
  case (RLook b r)
  then have "\<And>p s g p' s' g' xs. re_run r (p, s, g) = (p', s', g') # xs \<Longrightarrow> g' = g"
    unfolding keeps_caps_def by (metis list.set_intros(1) no_group.simps(12))
  then show ?case by (auto simp: keeps_caps_def split: list.splits if_splits)
qed (use keeps_caps_eat in \<open>auto simp: keeps_caps_def split: if_splits\<close>)

lemma re_run_catD:
  assumes "(p', s', g') \<in> set (re_run (RCat r1 r2) (p, s, g))"
  obtains p1 s1 g1 w1 w2 where "(p1, s1, g1) \<in> set (re_run r1 (p, s, g))"
    "(p', s', g') \<in> set (re_run r2 (p1, s1, g1))" "s = w1 @ s1" "s1 = w2 @ s'" "p1 = rev w1 @ p"
proof -
  from assms obtain p1 s1 g1 where "(p1, s1, g1) \<in> set (re_run r1 (p, s, g))"
    and "(p', s', g') \<in> set (re_run r2 (p1, s1, g1))"
    by auto
  with re_run_split that show thesis by metis
qed

lemma re_run_groupD:
  assumes "(p', s', g') \<in> set (re_run (RGroup n r) (p, s, g))"
  obtains w g1 where "(p', s', g1) \<in> set (re_run r (p, s, g))" "s = w @ s'"
    "g' = (n, length p, w) # g1"
proof -
  from assms obtain g1 where g1: "(p', s', g1) \<in> set (re_run r (p, s, g))"
    and g': "g' = (n, length p, take (length s - length s') s) # g1"
    by auto
  from re_run_split [OF g1] obtain w where "s = w @ s'" by blast
  with g1 g' that show thesis by simp
qed

lemma match_at_run:
  assumes "match_at r p s = Some m"
  obtains p' g' where "(p', m_rest m, g') \<in> set (re_run r (p, s, []))" "m_caps m = g'"
proof -
  from assms obtain p' s' g' where "(p', s', g') \<in> set (re_run r (p, s, []))"
    and "m = mat_of p s (p', s', g')"
    by (auto simp: match_at_def split: list.splits)
  with that show thesis by (simp add: mat_of_def)
qed

lemma re_run_plainD:
  "no_group r \<Longrightarrow> (p', s', g') \<in> set (re_run r (p, s, g)) \<Longrightarrow> g' = g"
  using re_run_caps keeps_capsD by blast

lemma re_run_charD:
  "(p', s', g') \<in> set (re_run (RChar c) (p, s, g)) \<Longrightarrow> s = c # s' \<and> p' = c # p \<and> g' = g"
  by (cases s) (auto split: if_splits)

lemma eatD: "(p', s', g') \<in> set (eat P (p, s, g)) \<Longrightarrow> \<exists>c. s = c # s' \<and> p' = c # p \<and> g' = g \<and> P c"
  by (cases s) (auto split: if_splits)

section \<open>The language of an expression\<close>

text \<open>\<open>shape r w g g'\<close>: the text \<open>w\<close> is split by the expression the way its operators say, and
  the groups record their pieces. It leaves out the assertions on the text around \<open>w\<close>.\<close>

primrec shape :: "re \<Rightarrow> string \<Rightarrow> caps \<Rightarrow> caps \<Rightarrow> bool" where
  "shape REmpty w g g' = (w = [] \<and> g' = g)"
| "shape (RChar c) w g g' = (w = [c] \<and> g' = g)"
| "shape RAny w g g' = ((\<exists>c. w = [c] \<and> c \<noteq> newline) \<and> g' = g)"
| "shape (RSet neg items) w g g' = ((\<exists>c. w = [c] \<and> in_set neg items c) \<and> g' = g)"
| "shape RBol w g g' = (w = [] \<and> g' = g)"
| "shape REol w g g' = (w = [] \<and> g' = g)"
| "shape (RWordB b) w g g' = (w = [] \<and> g' = g)"
| "shape (RCat r1 r2) w g g' = (\<exists>w1 w2 g1. w = w1 @ w2 \<and> shape r1 w1 g g1 \<and> shape r2 w2 g1 g')"
| "shape (RAlt r1 r2) w g g' = (shape r1 w g g' \<or> shape r2 w g g')"
| "shape (RRep lo hi greedy r) w g g' =
     ((no_group r \<longrightarrow> g' = g) \<and>
      (\<exists>ws. w = concat ws \<and> lo \<le> length ws \<and> (\<forall>x \<in> set ws. \<exists>g1 g2. shape r x g1 g2)))"
| "shape (RGroup n r) w g g' = (\<exists>k g1. shape r w g g1 \<and> g' = (n, k, w) # g1)"
| "shape (RLook b r) w g g' = (w = [] \<and> (no_group r \<longrightarrow> g' = g))"

definition runs_in :: "(mstate \<Rightarrow> mstate list) \<Rightarrow> (string \<Rightarrow> bool) \<Rightarrow> bool" where
  "runs_in f L = (\<forall>p s g p' s' g'. (p', s', g') \<in> set (f (p, s, g)) \<longrightarrow> (\<exists>w. s = w @ s' \<and> L w))"

definition pieces :: "(string \<Rightarrow> bool) \<Rightarrow> nat \<Rightarrow> string \<Rightarrow> bool" where
  "pieces L n w = (\<exists>ws. w = concat ws \<and> n \<le> length ws \<and> (\<forall>x \<in> set ws. L x))"

lemma pieces_0: "pieces L 0 []"
  unfolding pieces_def by (rule exI [of _ "[]"]) simp

lemma pieces_Cons: "L x \<Longrightarrow> pieces L n w \<Longrightarrow> pieces L (Suc n) (x @ w)"
  unfolding pieces_def by (metis concat.simps(2) length_Cons not_less_eq_eq set_ConsD)

lemma pieces_append: "pieces L m v \<Longrightarrow> pieces L n w \<Longrightarrow> pieces L m (v @ w)"
  unfolding pieces_def by (metis concat_append Un_iff length_append set_append trans_le_add1)

lemma pieces_weaken: "pieces L n w \<Longrightarrow> m \<le> n \<Longrightarrow> pieces L m w"
  unfolding pieces_def using le_trans by blast

lemma runs_in_rep_min: "runs_in f L \<Longrightarrow> runs_in (rep_min f n) (pieces L n)"
proof (induction n)
  case 0
  show ?case by (simp add: runs_in_def pieces_0)
next
  case (Suc n)
  show ?case
    unfolding runs_in_def
  proof (intro allI impI)
    fix p s g p' s' g'
    assume "(p', s', g') \<in> set (rep_min f (Suc n) (p, s, g))"
    then obtain p1 s1 g1 where "(p1, s1, g1) \<in> set (f (p, s, g))"
      and "(p', s', g') \<in> set (rep_min f n (p1, s1, g1))"
      by auto
    with Suc obtain x w where "s = x @ s1" "L x" "s1 = w @ s'" "pieces L n w"
      unfolding runs_in_def by metis
    then show "\<exists>w. s = w @ s' \<and> pieces L (Suc n) w"
      by (metis append.assoc pieces_Cons)
  qed
qed

lemma runs_in_rep_opt: "runs_in f L \<Longrightarrow> runs_in (rep_opt f greedy n) (pieces L 0)"
proof (induction n)
  case 0
  show ?case by (simp add: runs_in_def pieces_0)
next
  case (Suc n)
  show ?case
    unfolding runs_in_def
  proof (intro allI impI)
    fix p s g p' s' g'
    assume a: "(p', s', g') \<in> set (rep_opt f greedy (Suc n) (p, s, g))"
    then consider "s' = s" | p1 s1 g1 where "(p1, s1, g1) \<in> set (f (p, s, g))"
        "(p', s', g') \<in> set (rep_opt f greedy n (p1, s1, g1)) \<or> s' = s1"
      by (auto simp: Let_def split: if_splits)
    then show "\<exists>w. s = w @ s' \<and> pieces L 0 w"
    proof cases
      case 1
      then show ?thesis by (simp add: pieces_0)
    next
      case 2
      with Suc obtain x w where "s = x @ s1" "L x" "s1 = w @ s'" "pieces L 0 w"
        unfolding runs_in_def by (metis append_Nil pieces_0)
      then show ?thesis by (metis append.assoc pieces_Cons pieces_weaken zero_le)
    qed
  qed
qed

lemma runs_in_re_rep: "runs_in f L \<Longrightarrow> runs_in (re_rep f lo hi greedy) (pieces L lo)"
  unfolding runs_in_def [of "re_rep f lo hi greedy"]
proof (intro allI impI)
  fix p s g p' s' g'
  assume f: "runs_in f L" and "(p', s', g') \<in> set (re_rep f lo hi greedy (p, s, g))"
  then obtain p1 s1 g1 n where "(p1, s1, g1) \<in> set (rep_min f lo (p, s, g))"
    and "(p', s', g') \<in> set (rep_opt f greedy n (p1, s1, g1))"
    by (auto simp: re_rep_def)
  with runs_in_rep_min [OF f] runs_in_rep_opt [OF f] obtain v w
    where "s = v @ s1" "pieces L lo v" "s1 = w @ s'" "pieces L 0 w"
    unfolding runs_in_def by meson
  then show "\<exists>w. s = w @ s' \<and> pieces L lo w"
    by (metis append.assoc pieces_append)
qed

text \<open>Soundness of the matcher: whatever it consumed is in the language of the expression,
  and the groups hold the pieces.\<close>

theorem re_run_shape:
  "(p', s', g') \<in> set (re_run r (p, s, g)) \<Longrightarrow> \<exists>w. s = w @ s' \<and> shape r w g g'"
proof (induction r arbitrary: p s g p' s' g')
  case (RCat r1 r2)
  from RCat.prems obtain p1 s1 g1 where "(p1, s1, g1) \<in> set (re_run r1 (p, s, g))"
    and "(p', s', g') \<in> set (re_run r2 (p1, s1, g1))"
    by auto
  with RCat.IH obtain w1 w2 where "s = w1 @ s1" "shape r1 w1 g g1" "s1 = w2 @ s'" "shape r2 w2 g1 g'"
    by metis
  then show ?case by (intro exI [of _ "w1 @ w2"]) auto
next
  case (RAlt r1 r2)
  then show ?case by (metis Un_iff re_run.simps(9) set_append shape.simps(9))
next
  case (RRep lo hi greedy r)
  have "runs_in (re_run r) (\<lambda>x. \<exists>g1 g2. shape r x g1 g2)"
    unfolding runs_in_def using RRep.IH by blast
  from runs_in_re_rep [OF this, of lo hi greedy] RRep.prems
  obtain w where w: "s = w @ s'" "pieces (\<lambda>x. \<exists>g1 g2. shape r x g1 g2) lo w"
    unfolding runs_in_def by (metis re_run.simps(10))
  moreover have "no_group r \<longrightarrow> g' = g"
    using RRep.prems re_run_plainD [of "RRep lo hi greedy r"] by (metis no_group.simps(10))
  ultimately show ?case by (auto simp: pieces_def)
next
  case (RGroup n r)
  from RGroup.prems obtain w g1 where "(p', s', g1) \<in> set (re_run r (p, s, g))" and w: "s = w @ s'"
    and g': "g' = (n, length p, w) # g1"
    by (rule re_run_groupD)
  with RGroup.IH have "shape r w g g1" by fastforce
  with w g' show ?case by auto
next
  case (RLook b r)
  then have "s' = s" by (auto split: list.splits if_splits)
  moreover have "no_group r \<longrightarrow> g' = g"
    using RLook.prems re_run_plainD [of "RLook b r"] by (metis no_group.simps(12))
  ultimately show ?case by simp
qed (auto dest: eatD split: if_splits)

lemma match_at_shape:
  assumes "match_at r p s = Some m"
  shows "s = m_text m @ m_rest m \<and> shape r (m_text m) [] (m_caps m)"
proof -
  from assms obtain p' g' where "(p', m_rest m, g') \<in> set (re_run r (p, s, []))" "m_caps m = g'"
    by (rule match_at_run)
  with re_run_shape match_at_split [OF assms] show ?thesis
    by (metis append_same_eq)
qed

lemma shape_rep_set:
  "shape (RRep lo hi greedy (RSet neg items)) w g g' \<longleftrightarrow>
     g' = g \<and> lo \<le> length w \<and> (\<forall>c \<in> set w. in_set neg items c)"
proof -
  have "(\<exists>ws. w = concat ws \<and> lo \<le> length ws \<and> (\<forall>x \<in> set ws. \<exists>c. x = [c] \<and> in_set neg items c)) \<longleftrightarrow>
      lo \<le> length w \<and> (\<forall>c \<in> set w. in_set neg items c)" (is "?L \<longleftrightarrow> ?R")
  proof
    assume ?L
    then obtain ws where w: "w = concat ws" "lo \<le> length ws" and x: "\<forall>x \<in> set ws. \<exists>c. x = [c] \<and> in_set neg items c"
      by blast
    from x have "length (concat ws) = length ws" by (induction ws) auto
    with w x show ?R by auto
  next
    assume ?R
    then show ?L by (intro exI [of _ "map (\<lambda>c. [c]) w"]) (simp add: concat_map_singleton)
  qed
  then show ?thesis by auto
qed

lemma shape_rep_any:
  "shape (RRep lo hi greedy RAny) w g g' \<longleftrightarrow> g' = g \<and> lo \<le> length w \<and> newline \<notin> set w"
proof -
  have "shape (RRep lo hi greedy RAny) w g g' = shape (RRep lo hi greedy (RSet True [CChar newline])) w g g'"
    by (simp add: in_set_def)
  then show ?thesis unfolding shape_rep_set by (auto simp: in_set_def)
qed

text \<open>Reading off the groups of a match: the equations of \<open>shape\<close>, with repetitions of single
  characters in closed form.\<close>

declare shape.simps(10) [simp del] shape_rep_set [simp] shape_rep_any [simp]

lemmas group_simps = grp_def m_group_def in_set_def

lemma search_at_shape:
  "search_at r p s = Some m \<Longrightarrow> \<exists>pre. s = pre @ m_text m @ m_rest m \<and> shape r (m_text m) [] (m_caps m)"
proof (induction r p s rule: search_at.induct)
  case (1 r p)
  then show ?case using match_at_shape [of r p "[]" m] by auto
next
  case (2 r p c s)
  show ?case
  proof (cases "match_at r p (c # s)")
    case None
    with 2 obtain pre where "s = pre @ m_text m @ m_rest m" "shape r (m_text m) [] (m_caps m)" by auto
    then show ?thesis by (intro exI [of _ "c # pre"]) simp
  next
    case (Some m')
    with 2 have "m' = m" by simp
    with Some match_at_shape [of r p "c # s" m] show ?thesis by (intro exI [of _ "[]"]) simp
  qed
qed

lemma re_match_shape:
  "re_match pat s = Some m \<Longrightarrow> re_compile pat = Some r \<Longrightarrow>
     s = m_text m @ m_rest m \<and> shape r (m_text m) [] (m_caps m)"
  by (rule match_at_shape [of r "[]"]) (simp add: re_match_def)

lemma re_search_shape:
  "re_search pat s = Some m \<Longrightarrow> re_compile pat = Some r \<Longrightarrow>
     \<exists>pre. s = pre @ m_text m @ m_rest m \<and> shape r (m_text m) [] (m_caps m)"
  by (rule search_at_shape [of r "[]"]) (simp add: re_search_def)

section \<open>Bounds on groups, read off the pattern\<close>

text \<open>The least number of characters an expression consumes.\<close>

primrec min_len :: "re \<Rightarrow> nat" where
  "min_len REmpty = 0"
| "min_len (RChar c) = 1"
| "min_len RAny = 1"
| "min_len (RSet neg items) = 1"
| "min_len RBol = 0"
| "min_len REol = 0"
| "min_len (RWordB b) = 0"
| "min_len (RCat r1 r2) = min_len r1 + min_len r2"
| "min_len (RAlt r1 r2) = min (min_len r1) (min_len r2)"
| "min_len (RRep lo hi greedy r) = lo * min_len r"
| "min_len (RGroup n r) = min_len r"
| "min_len (RLook b r) = 0"

lemma shape_min_len: "shape r w g g' \<Longrightarrow> min_len r \<le> length w"
proof (induction r arbitrary: w g g')
  case (RCat r1 r2)
  then show ?case by (fastforce intro: add_mono)
next
  case (RAlt r1 r2)
  then show ?case by (auto simp: min_le_iff_disj)
next
  case (RRep lo hi greedy r)
  then obtain ws where w: "w = concat ws" "lo \<le> length ws" and "\<forall>x \<in> set ws. \<exists>g1 g2. shape r x g1 g2"
    unfolding shape.simps by blast
  with RRep.IH have "\<forall>x \<in> set ws. min_len r \<le> length x" by blast
  then have "length ws * min_len r \<le> length (concat ws)" by (induction ws) auto
  with w show ?case by (metis min_len.simps(10) mult_le_mono1 order_trans)
qed auto

text \<open>Expressions that leave the group \<open>n\<close> as it is.\<close>

primrec keeps_group :: "nat \<Rightarrow> re \<Rightarrow> bool" where
  "keeps_group n REmpty = True"
| "keeps_group n (RChar c) = True"
| "keeps_group n RAny = True"
| "keeps_group n (RSet neg items) = True"
| "keeps_group n RBol = True"
| "keeps_group n REol = True"
| "keeps_group n (RWordB b) = True"
| "keeps_group n (RCat r1 r2) = (keeps_group n r1 \<and> keeps_group n r2)"
| "keeps_group n (RAlt r1 r2) = (keeps_group n r1 \<and> keeps_group n r2)"
| "keeps_group n (RRep lo hi greedy r) = no_group r"
| "keeps_group n (RGroup k r) = (k \<noteq> n \<and> keeps_group n r)"
| "keeps_group n (RLook b r) = no_group r"

lemma shape_keeps_group: "shape r w g g' \<Longrightarrow> keeps_group n r \<Longrightarrow> map_of g' n = map_of g n"
proof (induction r arbitrary: w g g')
  case (RCat r1 r2)
  then show ?case by fastforce
next
  case (RGroup k r)
  then show ?case by fastforce
qed (auto simp: shape.simps(10))

text \<open>A pattern \<open>^(...)...\<close> whose rest consumes something: the first group ends before the text does.\<close>

fun head_group :: "nat \<Rightarrow> re \<Rightarrow> bool" where
  "head_group n (RCat RBol r) = head_group n r"
| "head_group n (RCat (RGroup k r1) r2) = (k = n \<and> 0 < min_len r2 \<and> keeps_group n r2)"
| "head_group n r = False"

lemma shape_head_group:
  "shape r w g g' \<Longrightarrow> head_group n r \<Longrightarrow> \<exists>k v u. map_of g' n = Some (k, v) \<and> w = v @ u \<and> u \<noteq> []"
proof (induction n r arbitrary: w g rule: head_group.induct)
  case (2 n k r1 r2)
  then obtain w1 w2 i g1 where w: "w = w1 @ w2" "shape r2 w2 ((k, i, w1) # g1) g'" by auto
  with 2 shape_min_len [OF w(2)] shape_keeps_group [OF w(2), of n] show ?case by auto
qed auto

lemma head_group_before:
  assumes "re_match pat s = Some m"
    and "case re_compile pat of None \<Rightarrow> False | Some r \<Rightarrow> head_group n r" and "n \<noteq> 0"
  shows "\<exists>u. s = grp m n @ u \<and> u \<noteq> []"
proof -
  from assms(2) obtain r where r: "re_compile pat = Some r" "head_group n r" by (auto split: option.splits)
  with re_match_shape [OF assms(1) r(1)] shape_head_group [of r "m_text m" "[]" "m_caps m" n] assms(3)
  show ?thesis by (fastforce simp: grp_def m_group_def)
qed

lemma head_group_shorter:
  assumes "re_match pat s = Some m"
    and "case re_compile pat of None \<Rightarrow> False | Some r \<Rightarrow> head_group n r" and "n \<noteq> 0"
  shows "length (grp m n) < length s"
proof -
  obtain u where "s = grp m n @ u" "u \<noteq> []" using head_group_before [OF assms] by blast
  then show ?thesis by (metis length_append length_greater_0_conv less_add_same_cancel1)
qed

text \<open>A pattern \<open>...(.*)$\<close> whose beginning consumes something: the last group is shorter than the
  text.\<close>

fun tail_after :: "nat \<Rightarrow> re \<Rightarrow> nat option" where
  "tail_after n (RCat r1 r2) =
     (if r1 = RGroup n (RRep 0 None True RAny) \<and> r2 = REol then Some 0
      else map_option ((+) (min_len r1)) (tail_after n r2))"
| "tail_after n r = None"

lemma shape_tail_after:
  "shape r w g g' \<Longrightarrow> tail_after n r = Some k \<Longrightarrow> \<exists>i v. map_of g' n = Some (i, v) \<and> k + length v \<le> length w"
proof (induction n r arbitrary: w g k rule: tail_after.induct)
  case (1 n r1 r2)
  then obtain w1 w2 g1 where w: "w = w1 @ w2" "shape r1 w1 g g1" "shape r2 w2 g1 g'" by auto
  show ?case
  proof (cases "r1 = RGroup n (RRep 0 None True RAny) \<and> r2 = REol")
    case True
    with 1(3) w show ?thesis by auto
  next
    case False
    with 1(3) obtain j where "tail_after n r2 = Some j" "k = min_len r1 + j" by auto
    with 1(1) [OF False w(3)] w(1) shape_min_len [OF w(2)] show ?thesis by fastforce
  qed
qed auto

lemma tail_group_shorter:
  assumes "re_match pat s = Some m"
    and "case re_compile pat of None \<Rightarrow> False | Some r \<Rightarrow> (case tail_after n r of None \<Rightarrow> False | Some k \<Rightarrow> 0 < k)"
    and "n \<noteq> 0"
  shows "length (grp m n) < length s"
proof -
  from assms(2) obtain r k where r: "re_compile pat = Some r" "tail_after n r = Some k" "0 < k"
    by (auto split: option.splits)
  with re_match_shape [OF assms(1) r(1)] shape_tail_after [of r "m_text m" "[]" "m_caps m" n k] assms(3)
  show ?thesis by (fastforce simp: grp_def m_group_def)
qed

section \<open>Words and lists of words\<close>

fun lit :: "string \<Rightarrow> re" where
  "lit [] = REmpty"
| "lit [c] = RChar c"
| "lit (c # s) = RCat (RChar c) (lit s)"

fun alts :: "re list \<Rightarrow> re" where
  "alts [] = REmpty"
| "alts [r] = r"
| "alts (r # rs) = RAlt r (alts rs)"

lemma shape_lit [simp]: "shape (lit s) w g g' \<longleftrightarrow> w = s \<and> g' = g"
  by (induction s arbitrary: w rule: lit.induct) auto

lemma shape_alts: "rs \<noteq> [] \<Longrightarrow> shape (alts rs) w g g' \<longleftrightarrow> (\<exists>r \<in> set rs. shape r w g g')"
  by (induction rs rule: alts.induct) auto

lemma shape_words [simp]: "ss \<noteq> [] \<Longrightarrow> shape (alts (map lit ss)) w g g' \<longleftrightarrow> w \<in> set ss \<and> g' = g"
  by (auto simp: shape_alts)

text \<open>A pattern that ends in \<open>$\<close> leaves nothing but a line break.\<close>

fun ends_eol :: "re \<Rightarrow> bool" where
  "ends_eol REol = True"
| "ends_eol (RCat r1 r2) = ends_eol r2"
| "ends_eol r = False"

lemma re_run_ends_eol:
  "ends_eol r \<Longrightarrow> (p', s', g') \<in> set (re_run r st) \<Longrightarrow> s' = [] \<or> s' = [newline]"
  by (induction r arbitrary: st rule: ends_eol.induct) (auto split: if_splits)

lemma re_match_ends_eol:
  assumes "re_match pat s = Some m" and "re_compile pat = Some r" and "ends_eol r"
  shows "m_rest m = [] \<or> m_rest m = [newline]"
proof -
  from assms have "match_at r [] s = Some m" by (simp add: re_match_def)
  then show ?thesis using re_run_ends_eol [OF assms(3)] by (blast elim: match_at_run)
qed

text \<open>A character that every match contains.\<close>

primrec needs_char :: "char \<Rightarrow> re \<Rightarrow> bool" where
  "needs_char c REmpty = False"
| "needs_char c (RChar d) = (d = c)"
| "needs_char c RAny = False"
| "needs_char c (RSet neg items) = False"
| "needs_char c RBol = False"
| "needs_char c REol = False"
| "needs_char c (RWordB b) = False"
| "needs_char c (RCat r1 r2) = (needs_char c r1 \<or> needs_char c r2)"
| "needs_char c (RAlt r1 r2) = (needs_char c r1 \<and> needs_char c r2)"
| "needs_char c (RRep lo hi greedy r) = False"
| "needs_char c (RGroup n r) = needs_char c r"
| "needs_char c (RLook b r) = False"

lemma shape_needs_char: "shape r w g g' \<Longrightarrow> needs_char c r \<Longrightarrow> c \<in> set w"
  by (induction r arbitrary: w g g') auto

lemma search_needs_char:
  assumes "case re_compile pat of None \<Rightarrow> False | Some r \<Rightarrow> needs_char c r" and "c \<notin> set s"
  shows "re_search pat s = None"
proof (cases "re_search pat s")
  case (Some m)
  from assms(1) obtain r where r: "re_compile pat = Some r" "needs_char c r" by (auto split: option.splits)
  from re_search_shape [OF Some r(1)] shape_needs_char [OF _ r(2)] assms(2) show ?thesis by fastforce
qed

end
