(* ===== verification/Db_Api.thy ===== *)
theory Db_Api
  imports Py_Regex
begin

text \<open>
  The DB API layer: \<^verbatim>\<open>python/hs2client/error.py\<close> (the exception classes of PEP 249) and
  \<^verbatim>\<open>python/hs2client/dbapi.py\<close> (the abstract connection and cursor, and the binding
  of query parameters into the text of a statement).
\<close>

section \<open>Exceptions\<close>

text \<open>The classes of \<^verbatim>\<open>error.py\<close> and the built-in exceptions the layer raises.\<close>

datatype exc_class =
    Exception
  | Error
  | Warning
  | InterfaceError
  | DatabaseError
  | InternalError
  | OperationalError
  | ProgrammingError
  | IntegrityError
  | DataError
  | NotSupportedError
  | NotImplementedError
  | KeyError
  | ValueError

text \<open>A raised exception: its class and message. \<open>Unmodelled\<close> is not an exception of the
  program: it marks an input on which the model says nothing.\<close>

datatype exc = Exc exc_class string | Unmodelled

text \<open>The base class each class statement names.\<close>

fun exc_base :: "exc_class \<Rightarrow> exc_class option" where
  "exc_base Exception = None"
| "exc_base Error = Some Exception"
| "exc_base Warning = Some Exception"
| "exc_base InterfaceError = Some Error"
| "exc_base DatabaseError = Some Error"
| "exc_base InternalError = Some DatabaseError"
| "exc_base OperationalError = Some DatabaseError"
| "exc_base ProgrammingError = Some DatabaseError"
| "exc_base IntegrityError = Some DatabaseError"
| "exc_base DataError = Some DatabaseError"
| "exc_base NotSupportedError = Some DatabaseError"
| "exc_base NotImplementedError = Some Exception"
| "exc_base KeyError = Some Exception"
| "exc_base ValueError = Some Exception"

text \<open>\<open>except C\<close> catches \<open>C\<close> and the classes derived from it.\<close>

inductive is_subclass :: "exc_class \<Rightarrow> exc_class \<Rightarrow> bool" where
  is_subclass_refl: "is_subclass k k"
| is_subclass_step: "exc_base k = Some b \<Longrightarrow> is_subclass b c \<Longrightarrow> is_subclass k c"

code_pred is_subclass .

inductive_simps is_subclass_unfold: "is_subclass k c"

section \<open>The abstract connection and cursor\<close>

datatype connection_method = C_close | C_commit | C_rollback | C_cursor | C_reconnect

text \<open>Every operation of the abstract \<open>Connection\<close> raises.\<close>

definition Connection_call :: "connection_method \<Rightarrow> exc + unit" where
  "Connection_call m = Inl (Exc NotImplementedError [])"

text \<open>The exceptions that PEP 249 asks for as attributes of a connection.\<close>

definition Connection_errors :: "exc_class list" where
  "Connection_errors =
     [Error, Warning, InterfaceError, DatabaseError, InternalError, OperationalError, ProgrammingError,
      IntegrityError, DataError, NotSupportedError]"

text \<open>These are the classes of \<^verbatim>\<open>error.py\<close>: all but the built-in ones.\<close>

lemma Connection_errors_all:
  "set Connection_errors = UNIV - {Exception, NotImplementedError, KeyError, ValueError}"
proof -
  have "c \<in> set Connection_errors \<longleftrightarrow> c \<notin> {Exception, NotImplementedError, KeyError, ValueError}" for c
    by (cases c) (simp_all add: Connection_errors_def)
  then show ?thesis by blast
qed

text \<open>The transport below a service: the Thrift SASL transport with its mechanism, or
  another one.\<close>

datatype transport = TSaslClientTransport string | OtherTransport

definition kerberized :: "transport \<Rightarrow> bool" where
  "kerberized tr =
     (case tr of
        TSaslClientTransport mechanism \<Rightarrow> (if mechanism = ''GSSAPI'' then True else False)
      | OtherTransport \<Rightarrow> False)"

text \<open>The exit of a \<^verbatim>\<open>with\<close> block, shared by \<open>Connection\<close> and \<open>Cursor\<close>: \<open>close\<close> is the
  method of the object, which a subclass overrides.\<close>

definition ctx_exit :: "('s \<Rightarrow> exc option \<times> 's) \<Rightarrow> exc option \<Rightarrow> 's \<Rightarrow> exc option \<times> 's" where
  "ctx_exit close exc_val s =
     (case close s of
        (Some e, s') \<Rightarrow> (Some e, s')
      | (None, s') \<Rightarrow>
          (case exc_val of
             Some e \<Rightarrow> (Some e, s')
           | None \<Rightarrow> (None, s')))"

datatype cursor_method =
    Cu_description | Cu_rowcount | Cu_query_string | Cu_get_arraysize | Cu_set_arraysize
  | Cu_buffersize | Cu_has_result_set | Cu_close | Cu_close_operation | Cu_execute
  | Cu_execute_sync | Cu_reset_state | Cu_wait_to_finish | Cu_executemany | Cu_fetchone
  | Cu_fetchmany | Cu_fetchall | Cu_setinputsizes | Cu_setoutputsize | Cu_iter | Cu_next_dunder
  | Cu_next | Cu_ping | Cu_get_log | Cu_get_profile | Cu_get_summary | Cu_build_summary_table

text \<open>Every operation of the abstract \<open>Cursor\<close> raises; \<open>next\<close> calls \<open>__next__\<close>.\<close>

fun Cursor_call :: "cursor_method \<Rightarrow> exc + unit" where
  "Cursor_call Cu_next = Inl (Exc NotImplementedError [])"
| "Cursor_call m = Inl (Exc NotImplementedError [])"

section \<open>Binding parameters\<close>

text \<open>\<open>_escape\<close>.\<close>

definition escape :: "string \<Rightarrow> string" where
  "escape s =
     (let e = s;
          e = py_replace [backslash] [backslash, backslash] e;
          e = py_replace [newline] [backslash, CHR ''n''] e;
          e = py_replace [creturn] [backslash, CHR ''r''] e;
          e = py_replace [squote] [backslash, squote] e;
          e = py_replace [dquote] [backslash, dquote] e
      in e)"

text \<open>A parameter as the binding code tells them apart: \<open>None\<close>, a text, or any other
  object, of which only \<open>str(value)\<close> is used.\<close>

datatype pvalue = PNone | PStr string | PObj string

definition pvalue_text :: "pvalue \<Rightarrow> string" where
  "pvalue_text value =
     (case value of
        PNone \<Rightarrow> ''NULL''
      | PStr s \<Rightarrow> [squote] @ escape s @ [squote]
      | PObj t \<Rightarrow> t)"

text \<open>The message of both \<open>ProgrammingError\<close>s of \<open>replace_markers\<close>.\<close>

definition bindings_error :: "nat \<Rightarrow> nat \<Rightarrow> exc" where
  "bindings_error uses param_count =
     Exc ProgrammingError
       (''Incorrect number of bindings supplied. The current statement uses '' @
        str_of_nat uses @ '' or more, and there are '' @ str_of_nat param_count @ '' supplied.'')"

text \<open>The \<^verbatim>\<open>while\<close> loop of \<open>replace_markers\<close>, and the function.\<close>

function replace_loop :: "string \<Rightarrow> string \<Rightarrow> string list \<Rightarrow> nat \<Rightarrow> exc + string \<times> nat" where
  "replace_loop marker op parameters marker_index =
     (if py_find op marker \<noteq> None then
        (if marker_index < length parameters then
           replace_loop marker (py_replace1 marker (parameters ! marker_index) op)
             parameters (Suc marker_index)
         else Inl (bindings_error (marker_index + 1) (length parameters)))
      else Inr (op, marker_index))"
  by pat_completeness auto
termination
  by (relation "measure (\<lambda>(marker, op, parameters, i). length parameters - i)") auto

declare replace_loop.simps [simp del]

definition replace_markers :: "string \<Rightarrow> string \<Rightarrow> string list \<Rightarrow> exc + string" where
  "replace_markers marker op parameters =
     (let param_count = length parameters in
      case replace_loop marker op parameters 0 of
        Inl e \<Rightarrow> Inl e
      | Inr (op, marker_index) \<Rightarrow>
          (if marker_index \<noteq> 0 \<and> marker_index \<noteq> param_count
           then Inl (bindings_error (marker_index + 1) param_count)
           else Inr op))"

text \<open>The numbered markers, from the largest number down: \<open>n\<close> is the next one.\<close>

fun replace_numbered :: "nat \<Rightarrow> string list \<Rightarrow> string \<Rightarrow> string" where
  "replace_numbered 0 ps op = op"
| "replace_numbered (Suc n) ps op =
     replace_numbered n ps (py_replace (CHR '':'' # str_of_nat (Suc n)) (ps ! n) op)"

text \<open>\<open>_replace_numeric_markers\<close>.\<close>

definition replace_numeric_markers :: "string \<Rightarrow> string list \<Rightarrow> exc + string" where
  "replace_numeric_markers operation string_parameters =
     (case replace_markers ''?'' operation string_parameters of
        Inl e \<Rightarrow> Inl e
      | Inr operation \<Rightarrow>
          (case replace_markers ''%s'' operation string_parameters of
             Inl e \<Rightarrow> Inl e
           | Inr operation \<Rightarrow>
               Inr (replace_numbered (length string_parameters) string_parameters operation)))"

text \<open>\<open>_bind_parameters_list\<close>.\<close>

definition bind_parameters_list :: "string \<Rightarrow> pvalue list \<Rightarrow> exc + string" where
  "bind_parameters_list operation parameters =
     replace_numeric_markers operation (map pvalue_text parameters)"

text \<open>
  The operator \<^verbatim>\<open>%\<close> of a text and a dictionary of texts, for the conversions
  \<^verbatim>\<open>%(name)s\<close> and \<^verbatim>\<open>%%\<close>. \<open>p_key\<close> reads a key up to its closing parenthesis, with
  nested parentheses. An unfinished conversion is a \<open>ValueError\<close>, a name that is not in
  the dictionary a \<open>KeyError\<close>. On the other conversions (flags, widths, \<^verbatim>\<open>%d\<close>, and a
  \<^verbatim>\<open>%s\<close> without a name, which formats the dictionary itself) the model says nothing.
\<close>

fun p_key :: "nat \<Rightarrow> string \<Rightarrow> (string \<times> string) option" where
  "p_key depth [] = None"
| "p_key depth (c # s) =
     (if c = CHR '')'' then
        (if depth = 0 then Some ([], s)
         else map_option (\<lambda>(k, r). (c # k, r)) (p_key (depth - 1) s))
      else if c = CHR ''('' then map_option (\<lambda>(k, r). (c # k, r)) (p_key (Suc depth) s)
      else map_option (\<lambda>(k, r). (c # k, r)) (p_key depth s))"

lemma p_key_length: "p_key d s = Some (k, r) \<Longrightarrow> length r < length s"
proof (induction d s arbitrary: k r rule: p_key.induct)
  case (2 depth c s)
  then show ?case by (fastforce split: if_splits)
qed simp

function py_format :: "(string \<rightharpoonup> string) \<Rightarrow> string \<Rightarrow> exc + string" where
  "py_format d [] = Inr []"
| "py_format d (c # s) =
     (if c \<noteq> CHR ''%'' then map_sum id ((#) c) (py_format d s)
      else (case s of
              [] \<Rightarrow> Inl (Exc ValueError ''incomplete format'')
            | x # t \<Rightarrow>
                if x = CHR ''%'' then map_sum id ((#) (CHR ''%'')) (py_format d t)
                else if x = CHR ''('' then
                  (case p_key 0 t of
                     None \<Rightarrow> Inl (Exc ValueError ''incomplete format key'')
                   | Some (key, r) \<Rightarrow>
                       (case d key of
                          None \<Rightarrow> Inl (Exc KeyError key)
                        | Some v \<Rightarrow>
                            (case r of
                               [] \<Rightarrow> Inl (Exc ValueError ''incomplete format'')
                             | y # u \<Rightarrow>
                                 if y = CHR ''s'' then map_sum id ((@) v) (py_format d u)
                                 else Inl Unmodelled)))
                else Inl Unmodelled))"
  by pat_completeness auto
termination
proof (relation "measure (\<lambda>(d, s). length s)", goal_cases)
  case (4 d c s x t p key r v y u)
  then show ?case by (auto dest: p_key_length)
qed auto

text \<open>\<open>_bind_parameters_dict\<close>: the dictionary is an association list, in which a later
  entry of a name would replace an earlier one; the names of a dictionary are distinct.\<close>

definition named_to_pyformat :: "string \<Rightarrow> string" where
  "named_to_pyformat operation =
     re_sub (raw '':([^`d`W]`w*)'')
       (\<lambda>m. ''%('' @ (case m_group m 1 of None \<Rightarrow> [] | Some name \<Rightarrow> name) @ '')s'') operation"

definition bind_parameters_dict :: "string \<Rightarrow> (string \<times> pvalue) list \<Rightarrow> exc + string" where
  "bind_parameters_dict operation parameters =
     (let string_parameters = map_of (map (\<lambda>(name, value). (name, pvalue_text value)) parameters);
          operation = named_to_pyformat operation
      in py_format string_parameters operation)"

datatype parameters =
    PList "pvalue list"
  | PTuple "pvalue list"
  | PDict "(string \<times> pvalue) list"
  | POther

text \<open>\<open>_bind_parameters\<close>.\<close>

definition bind_parameters :: "string \<Rightarrow> parameters \<Rightarrow> exc + string" where
  "bind_parameters operation parameters =
     (case parameters of
        PList ps \<Rightarrow> bind_parameters_list operation ps
      | PTuple ps \<Rightarrow> bind_parameters_list operation ps
      | PDict ps \<Rightarrow> bind_parameters_dict operation ps
      | POther \<Rightarrow> Inl (Exc ProgrammingError
          ''Query parameters argument should be a list, tuple, or dict object''))"

section \<open>Exceptions: what a handler catches\<close>

lemma is_subclass_Exception: "is_subclass k Exception"
proof -
  have E: "is_subclass Exception Exception" by (rule is_subclass_refl)
  have R: "is_subclass Error Exception" by (rule is_subclass_step [OF _ E]) simp
  have D: "is_subclass DatabaseError Exception" by (rule is_subclass_step [OF _ R]) simp
  show ?thesis
    by (cases k) (simp_all add: E R D is_subclass_step [OF _ E] is_subclass_step [OF _ R]
        is_subclass_step [OF _ D])
qed

lemma is_subclass_trans: "is_subclass a b \<Longrightarrow> is_subclass b c \<Longrightarrow> is_subclass a c"
proof (induction rule: is_subclass.induct)
  case (is_subclass_step k b c')
  then show ?case by (blast intro: is_subclass.is_subclass_step)
qed

section \<open>Escaping\<close>

definition escape_char :: "char \<Rightarrow> string" where
  "escape_char c =
     (if c = backslash then [backslash, backslash]
      else if c = newline then [backslash, CHR ''n'']
      else if c = creturn then [backslash, CHR ''r'']
      else if c = squote then [backslash, squote]
      else if c = dquote then [backslash, dquote]
      else [c])"

text \<open>The five passes over the text do the same as one pass.\<close>

lemma escape_concat: "escape s = concat (map escape_char s)"
  by (induction s) (simp_all add: escape_def escape_char_def py_replace_char Let_def)

text \<open>
  Reading a quoted literal back: the lexical rule of the query languages, in which a
  backslash takes the next character as an escape and the literal ends at the first quote
  that is not escaped. The result is the value and the text after the closing quote.
\<close>

definition unescape_char :: "char \<Rightarrow> char" where
  "unescape_char c =
     (if c = CHR ''n'' then newline else if c = CHR ''r'' then creturn else c)"

fun read_literal :: "string \<Rightarrow> (string \<times> string) option" where
  "read_literal [] = None"
| "read_literal (c # s) =
     (if c = squote then Some ([], s)
      else if c = backslash then
        (case s of
           [] \<Rightarrow> None
         | d # t \<Rightarrow> map_option (\<lambda>(v, r). (unescape_char d # v, r)) (read_literal t))
      else map_option (\<lambda>(v, r). (c # v, r)) (read_literal s))"

text \<open>C3: A text bound as a parameter cannot break out of its literal: whatever the text
  and whatever follows, a reader of the escaped text gets exactly the text back and goes on
  right after the closing quote.\<close>

theorem escape_roundtrip: "read_literal (escape s @ squote # rest) = Some (s, rest)"
proof (induction s)
  case Nil
  show ?case by (simp add: escape_concat)
next
  case (Cons c s)
  then show ?case by (simp add: escape_concat escape_char_def unescape_char_def)
qed

section \<open>Positional markers\<close>

text \<open>The marker loop stops: it makes at most one replacement per parameter, and when it
  succeeds no marker is left.\<close>

lemma replace_loop_Inr:
  "replace_loop m op ps i = Inr (op', k) \<Longrightarrow>
     py_find op' m = None \<and> i \<le> k \<and> (i \<le> length ps \<longrightarrow> k \<le> length ps)"
proof (induction m op ps i rule: replace_loop.induct)
  case (1 m op ps i)
  show ?case
  proof (cases "py_find op m \<noteq> None \<and> i < length ps")
    case True
    with "1.prems" have "replace_loop m (py_replace1 m (ps ! i) op) ps (Suc i) = Inr (op', k)"
      by (simp add: replace_loop.simps [of m op])
    with "1.IH" True show ?thesis by auto
  next
    case False
    with "1.prems" show ?thesis
      by (auto simp: replace_loop.simps [of m op] split: if_splits)
  qed
qed

lemma replace_loop_Inl:
  "replace_loop m op ps i = Inl e \<Longrightarrow> i \<le> length ps \<Longrightarrow>
     e = bindings_error (length ps + 1) (length ps)"
proof (induction m op ps i rule: replace_loop.induct)
  case (1 m op ps i)
  show ?case
  proof (cases "py_find op m \<noteq> None \<and> i < length ps")
    case True
    with "1.prems" have "replace_loop m (py_replace1 m (ps ! i) op) ps (Suc i) = Inl e"
      by (simp add: replace_loop.simps [of m op])
    with "1.IH" True show ?thesis by auto
  next
    case False
    with "1.prems" show ?thesis
      by (auto simp: replace_loop.simps [of m op] split: if_splits)
  qed
qed

text \<open>C15: For any marker and any parameters, texts that hold markers included, the
  replacement of positional markers ends, and either returns a statement in which no marker
  is left or raises \<open>ProgrammingError\<close>.\<close>

theorem replace_markers_outcome:
  "(\<exists>op'. replace_markers m op ps = Inr op' \<and> \<not> sublist m op') \<or>
   (\<exists>msg. replace_markers m op ps = Inl (Exc ProgrammingError msg))"
proof (cases "replace_loop m op ps 0")
  case (Inl e)
  from replace_loop_Inl [OF this] have "e = bindings_error (length ps + 1) (length ps)" by simp
  with Inl show ?thesis by (simp add: replace_markers_def bindings_error_def)
next
  case (Inr r)
  obtain op' k where r: "r = (op', k)" by (cases r)
  with Inr have "py_find op' m = None" using replace_loop_Inr by blast
  then have "\<not> sublist m op'" by (simp add: py_find_None_sublist)
  with Inr r show ?thesis by (auto simp: replace_markers_def bindings_error_def Let_def)
qed

text \<open>The reference: the pieces of the statement between the markers, with the parameters
  filled in between them.\<close>

fun fill :: "'a list list \<Rightarrow> 'a list list \<Rightarrow> 'a list" where
  "fill [] ps = []"
| "fill [w] ps = w"
| "fill (w # v # ws) [] = w"
| "fill (w # v # ws) (p # ps) = w @ p @ fill (v # ws) ps"

lemma py_split_append:
  "c \<notin> set a \<Longrightarrow> py_split c (a @ b) = (a @ hd (py_split c b)) # tl (py_split c b)"
  by (induction a) (auto simp: neq_Nil_conv)

lemma py_split_first: "c \<notin> set a \<Longrightarrow> py_split c (a @ c # b) = a # py_split c b"
  by (induction a) auto

lemma fill_prefix: "fill ((a @ w) # ws) ps = a @ fill (w # ws) ps"
  by (cases ws; cases ps) auto

lemma py_find_char_Some:
  "py_find s [c] = Some i \<Longrightarrow> \<exists>a b. s = a @ c # b \<and> c \<notin> set a \<and> length a = i"
proof (induction s arbitrary: i)
  case (Cons d s)
  show ?case
  proof (cases "d = c")
    case True
    with Cons.prems show ?thesis by (auto intro!: exI [of _ "[]"])
  next
    case False
    with Cons.prems obtain j where "py_find s [c] = Some j" and "i = Suc j" by auto
    with Cons.IH obtain a b where "s = a @ c # b" "c \<notin> set a" "length a = j" by blast
    with False \<open>i = Suc j\<close> show ?thesis
      by (intro exI [of _ "d # a"] exI [of _ b]) auto
  qed
qed simp

lemma py_count_char_zero [simp]: "py_count s [c] = 0 \<longleftrightarrow> c \<notin> set s"
  by (auto simp: py_count_char filter_empty_conv)

lemma replace_loop_char:
  assumes "\<forall>p \<in> set ps. c \<notin> set p" and "i \<le> length ps"
  shows "replace_loop [c] op ps i =
     (if py_count op [c] \<le> length ps - i
      then Inr (fill (py_split c op) (drop i ps), i + py_count op [c])
      else Inl (bindings_error (length ps + 1) (length ps)))"
  using assms
proof (induction "length ps - i" arbitrary: op i)
  case 0
  then have i: "i = length ps" by simp
  show ?case
  proof (cases "c \<in> set op")
    case True
    then have "py_count op [c] \<noteq> 0" by simp
    with True i show ?thesis by (simp add: replace_loop.simps)
  next
    case False
    then have "py_count op [c] = 0" by simp
    with False i show ?thesis
      by (simp add: replace_loop.simps py_split_absent)
  qed
next
  case (Suc n)
  then have i: "i < length ps" by simp
  show ?case
  proof (cases "py_find op [c]")
    case None
    then have a: "c \<notin> set op" by simp
    then have z: "py_count op [c] = 0" by simp
    from a show ?thesis unfolding z by (simp add: replace_loop.simps py_split_absent)
  next
    case (Some j)
    then obtain a b where op: "op = a @ c # b" and a: "c \<notin> set a" and j: "j = length a"
      using py_find_char_Some by metis
    let ?op = "a @ ps ! i @ b"
    have p: "c \<notin> set (ps ! i)" using Suc.prems(1) i by simp
    have rep: "py_replace1 [c] (ps ! i) op = ?op"
      using Some op j by (simp add: py_replace1_def)
    have cnt: "py_count op [c] = Suc (py_count ?op [c])"
      using op a p by (auto simp: py_count_char filter_empty_conv)
    have split: "fill (py_split c op) (drop i ps) = fill (py_split c ?op) (drop (Suc i) ps)"
    proof -
      obtain w ws where b: "py_split c b = w # ws" by (meson neq_Nil_conv py_split_not_Nil)
      have "py_split c ?op = (a @ ps ! i @ w) # ws"
        using a p b py_split_append [of c "a @ ps ! i" b] by simp
      moreover have "drop i ps = ps ! i # drop (Suc i) ps"
        using i by (rule Cons_nth_drop_Suc [symmetric])
      ultimately show ?thesis
        using op a b by (simp add: py_split_first fill_prefix)
    qed
    have "replace_loop [c] op ps i = replace_loop [c] ?op ps (Suc i)"
      using i Some by (subst replace_loop.simps) (simp add: rep)
    also have "\<dots> = (if py_count ?op [c] \<le> length ps - Suc i
        then Inr (fill (py_split c ?op) (drop (Suc i) ps), Suc i + py_count ?op [c])
        else Inl (bindings_error (length ps + 1) (length ps)))"
      by (rule Suc.hyps(1)) (use Suc i in auto)
    also have "\<dots> = (if py_count op [c] \<le> length ps - i
        then Inr (fill (py_split c op) (drop i ps), i + py_count op [c])
        else Inl (bindings_error (length ps + 1) (length ps)))"
      using cnt split i by auto
    finally show ?thesis .
  qed
qed

text \<open>C14: When no parameter holds a question mark, replacing question marks behaves as
  PEP 249 asks: a statement without markers is returned unchanged, a number of markers that
  differs from the number of parameters raises \<open>ProgrammingError\<close>, and otherwise the
  \<open>i\<close>-th parameter stands exactly where the \<open>i\<close>-th marker stood.\<close>

theorem replace_markers_qmark:
  assumes "\<forall>p \<in> set ps. CHR ''?'' \<notin> set p"
  shows "replace_markers ''?'' op ps =
     (if py_count op ''?'' = 0 then Inr op
      else if py_count op ''?'' = length ps then Inr (fill (py_split (CHR ''?'') op) ps)
      else if py_count op ''?'' < length ps
      then Inl (bindings_error (py_count op ''?'' + 1) (length ps))
      else Inl (bindings_error (length ps + 1) (length ps)))"
  using replace_loop_char [OF assms, of 0 op]
  by (auto simp: replace_markers_def py_split_absent Let_def simp del: py_count_char_zero
      simp flip: py_count_char_zero)

theorem replace_markers_qmark_witness:
  "replace_markers ''?'' ''a=? b=?'' [''1'', ''2''] = Inr ''a=1 b=2''"
  using replace_markers_qmark [of "[''1'', ''2'']" "''a=? b=?''"] by simp

text \<open>A question mark inside a parameter is taken for a marker: a statement with one
  marker and one parameter that holds a question mark is always rejected, although the
  number of bindings is right.\<close>

theorem qmark_in_parameter_rejected:
  assumes "py_count op ''?'' = 1" and "CHR ''?'' \<in> set p"
  shows "replace_markers ''?'' op [p] = Inl (bindings_error 2 1)"
proof -
  have op: "CHR ''?'' \<in> set op"
    using assms(1) py_count_char_zero [of op "CHR ''?''"] by linarith
  then obtain i where i: "py_find op ''?'' = Some i"
    by (cases "py_find op ''?''") auto
  then have "CHR ''?'' \<in> set (py_replace1 ''?'' p op)"
    using assms(2) by (simp add: py_replace1_def)
  then obtain j where "py_find (py_replace1 ''?'' p op) ''?'' = Some j"
    by (cases "py_find (py_replace1 ''?'' p op) ''?''") auto
  with i show ?thesis
    by (simp add: replace_markers_def replace_loop.simps [of _ op]
        replace_loop.simps [of _ "py_replace1 ''?'' p op"] numeral_2_eq_2)
qed

section \<open>Numbered markers\<close>

text \<open>A statement with numbered markers, as the pieces of text and the references it is
  made of.\<close>

datatype ntok = NText string | NRef nat

text \<open>The statement once the references above \<open>n\<close> have been replaced.\<close>

fun render_above :: "nat \<Rightarrow> string list \<Rightarrow> ntok list \<Rightarrow> string" where
  "render_above n ps [] = []"
| "render_above n ps (NText w # ts) = w @ render_above n ps ts"
| "render_above n ps (NRef k # ts) =
     (if n < k then ps ! (k - 1) else CHR '':'' # str_of_nat k) @ render_above n ps ts"

text \<open>Well formed: no colon in the text, references within the parameters, and after a
  reference the end of the statement or a text that does not start with a digit.\<close>

fun wf_ntoks :: "nat \<Rightarrow> ntok list \<Rightarrow> bool" where
  "wf_ntoks n [] = True"
| "wf_ntoks n (NText w # ts) = (CHR '':'' \<notin> set w \<and> wf_ntoks n ts)"
| "wf_ntoks n (NRef k # ts) =
     (1 \<le> k \<and> k \<le> n \<and> wf_ntoks n ts \<and>
      (case ts of
         [] \<Rightarrow> True
       | NText (c # _) # _ \<Rightarrow> \<not> is_digit c
       | _ \<Rightarrow> False))"

lemma nat_of_digits_mono: "a \<le> nat_of_digits a s"
proof (induction s arbitrary: a)
  case (Cons c s)
  have "a \<le> 10 * a + digit_val c" by simp
  also have "\<dots> \<le> nat_of_digits (10 * a + digit_val c) s" by (rule Cons.IH)
  finally show ?case by simp
qed simp

lemma str_of_nat_prefix:
  assumes "str_of_nat k = str_of_nat m @ w" and "1 \<le> m" and "k \<le> m"
  shows "w = []"
proof (rule ccontr)
  assume "w \<noteq> []"
  then obtain c v where w: "w = c # v" by (cases w) auto
  have "k = nat_of_digits 0 (str_of_nat m @ w)"
    using assms(1) nat_of_str_of_nat [of k] by simp
  also have "\<dots> = nat_of_digits (10 * m + digit_val c) v"
    by (simp add: nat_of_digits_append nat_of_str_of_nat w)
  finally have "10 * m + digit_val c \<le> k" using nat_of_digits_mono by simp
  with assms(2,3) show False by simp
qed

lemma prefix_digits:
  assumes "prefix xs (ys @ r)" and "\<forall>c \<in> set xs. is_digit c"
    and "r = [] \<or> \<not> is_digit (hd r)"
  shows "prefix xs ys"
proof (rule ccontr)
  assume "\<not> prefix xs ys"
  with assms(1) obtain zs where "xs = ys @ zs" "prefix zs r" "zs \<noteq> []"
    by (auto simp: prefix_append)
  then obtain c where "c \<in> set xs" "r \<noteq> []" "c = hd r"
    by (cases zs; cases r) auto
  with assms(2,3) show False by auto
qed

lemma startswith_numeral:
  assumes "1 \<le> m" "k \<le> m" and "r = [] \<or> \<not> is_digit (hd r)"
  shows "startswith (str_of_nat k @ r) (str_of_nat m) \<longleftrightarrow> k = m"
proof
  assume "startswith (str_of_nat k @ r) (str_of_nat m)"
  then have "prefix (str_of_nat m) (str_of_nat k)"
    using assms(3) str_of_nat_digits by (auto simp: startswith_prefix intro: prefix_digits)
  then obtain w where "str_of_nat k = str_of_nat m @ w" by (auto simp: prefix_def)
  with assms str_of_nat_prefix have "str_of_nat k = str_of_nat m" by fastforce
  then show "k = m" by simp
qed simp

lemma py_replace_skip:
  "c \<notin> set w \<Longrightarrow> py_replace (c # old) new (w @ s) = w @ py_replace (c # old) new s"
  by (induction w) auto

lemma render_above_hd:
  "wf_ntoks n (NRef k # ts) \<Longrightarrow>
     render_above m ps ts = [] \<or> \<not> is_digit (hd (render_above m ps ts))"
  by (auto split: list.splits ntok.splits)

lemma is_digit_not_colon: "is_digit c \<Longrightarrow> c \<noteq> CHR '':''"
  by (auto simp: is_digit_def)

lemma colon_notin_str_of_nat [simp]: "CHR '':'' \<notin> set (str_of_nat k)"
  using str_of_nat_digits is_digit_not_colon by blast

lemma replace_one_number:
  assumes "wf_ntoks n ts" and "\<forall>p \<in> set ps. CHR '':'' \<notin> set p" and "length ps = n"
    and "1 \<le> m" "m \<le> n"
  shows "py_replace (CHR '':'' # str_of_nat m) (ps ! (m - 1)) (render_above m ps ts) =
     render_above (m - 1) ps ts"
  using assms(1)
proof (induction ts)
  case (Cons t ts)
  let ?old = "CHR '':'' # str_of_nat m"
  let ?rest = "render_above m ps ts"
  show ?case
  proof (cases t)
    case (NText w)
    with Cons show ?thesis by (simp add: py_replace_skip)
  next
    case (NRef k)
    with Cons.prems have k: "1 \<le> k" "k \<le> n" and ts: "wf_ntoks n ts" by auto
    from Cons.IH [OF ts] have IH: "py_replace ?old (ps ! (m - 1)) ?rest = render_above (m - 1) ps ts" .
    consider "m < k" | "k = m" | "k < m" by linarith
    then show ?thesis
    proof cases
      case 1
      have "ps ! (k - 1) \<in> set ps" using k assms(3) by simp
      then have "CHR '':'' \<notin> set (ps ! (k - 1))" using assms(2) by blast
      moreover have "m - 1 < k" using 1 by simp
      ultimately show ?thesis using 1 NRef IH by (simp add: py_replace_skip)
    next
      case 2
      with NRef IH assms(4) show ?thesis by simp
    next
      case 3
      then have "\<not> startswith (str_of_nat k @ ?rest) (str_of_nat m)"
        using startswith_numeral [OF assms(4) _ render_above_hd [of n k ts m ps]] Cons.prems NRef
        by (metis nat_less_le)
      moreover have "\<not> m - 1 < k" using 3 by simp
      ultimately show ?thesis using 3 NRef IH by (simp add: py_replace_skip)
    qed
  qed
qed simp

lemma replace_numbered_render:
  assumes "wf_ntoks n ts" and "\<forall>p \<in> set ps. CHR '':'' \<notin> set p" and "length ps = n"
  shows "m \<le> n \<Longrightarrow> replace_numbered m ps (render_above m ps ts) = render_above 0 ps ts"
proof (induction m)
  case (Suc m)
  then show ?case using replace_one_number [OF assms, of "Suc m"] by simp
qed simp

lemma render_above_ge: "wf_ntoks n ts \<Longrightarrow> n \<le> m \<Longrightarrow> render_above m ps ts = render_above m qs ts"
  by (induction n ts rule: wf_ntoks.induct) auto

text \<open>C16: Numbered markers, any number of them and with several digits: when the pieces of
  the statement and the parameters hold no colon and no reference is followed by a digit,
  every reference \<open>:k\<close> is replaced by the \<open>k\<close>-th parameter and nothing else changes; in
  particular \<open>:1\<close> never eats into \<open>:10\<close>.\<close>

theorem replace_numbered_correct:
  assumes "wf_ntoks (length ps) ts" and "\<forall>p \<in> set ps. CHR '':'' \<notin> set p"
  shows "replace_numbered (length ps) ps (render_above (length ps) [] ts) = render_above 0 ps ts"
  using replace_numbered_render [OF assms refl le_refl] render_above_ge [OF assms(1) le_refl]
  by metis

theorem replace_numbered_correct_witness:
  "replace_numbered 2 [''a'', ''bc''] ''x=:2, y=:1'' = ''x=bc, y=a''"
proof -
  let ?ts = "[NText ''x='', NRef 2, NText '', y='', NRef 1]"
  have "replace_numbered 2 [''a'', ''bc''] (render_above 2 [] ?ts) = render_above 0 [''a'', ''bc''] ?ts"
    using replace_numbered_correct [of "[''a'', ''bc'']" ?ts] by (simp add: is_digit_def numeral_2_eq_2)
  moreover have "render_above 2 [] ?ts = ''x=:2, y=:1''" by code_simp
  moreover have "render_above 0 [''a'', ''bc''] ?ts = ''x=bc, y=a''" by code_simp
  ultimately show ?thesis by simp
qed

lemma replace_markers_absent: "py_find op m = None \<Longrightarrow> replace_markers m op ps = Inr op"
  by (simp add: replace_markers_def replace_loop.simps Let_def)

text \<open>The order of the numbered replacements does not protect the values: a value that
  holds the text of a smaller marker is rewritten after it was bound. Binding a text \<open>v\<close>
  and the text \<open>:1\<close> into \<open>b = :2\<close> closes the literal of the second value at once, so that the
  text \<open>v\<close> stands outside every literal of the statement.\<close>

theorem numbered_value_rewritten:
  "bind_parameters_list ''b = :2'' [PStr v, PStr '':1''] =
     Inr (''b = '' @ squote # squote # escape v @ [squote, squote]) \<and>
   read_literal (squote # escape v @ [squote, squote]) = Some ([], escape v @ [squote, squote])"
proof -
  have e: "escape '':1'' = '':1''" by code_simp
  have n: "str_of_nat (Suc (Suc 0)) = ''2''" "str_of_nat (Suc 0) = ''1''" by code_simp+
  show ?thesis
    by (simp add: bind_parameters_list_def replace_numeric_markers_def pvalue_text_def
        replace_markers_absent e n)
qed

section \<open>Named parameters\<close>

text \<open>A statement with named markers, as texts and names.\<close>

datatype vtok = VText string | VName string

fun render_named :: "vtok list \<Rightarrow> string" where
  "render_named [] = []"
| "render_named (VText w # ts) = w @ render_named ts"
| "render_named (VName x # ts) = CHR '':'' # x @ render_named ts"

fun render_pyformat :: "vtok list \<Rightarrow> string" where
  "render_pyformat [] = []"
| "render_pyformat (VText w # ts) = w @ render_pyformat ts"
| "render_pyformat (VName x # ts) = ''%('' @ x @ '')s'' @ render_pyformat ts"

text \<open>What the binding should give: the values in place of the names, or \<open>KeyError\<close> with
  the first name that has no value.\<close>

fun subst_named :: "(string \<rightharpoonup> string) \<Rightarrow> vtok list \<Rightarrow> exc + string" where
  "subst_named d [] = Inr []"
| "subst_named d (VText w # ts) = map_sum id ((@) w) (subst_named d ts)"
| "subst_named d (VName x # ts) =
     (case d x of
        None \<Rightarrow> Inl (Exc KeyError x)
      | Some v \<Rightarrow> map_sum id ((@) v) (subst_named d ts))"

definition is_name :: "string \<Rightarrow> bool" where
  "is_name x = (x \<noteq> [] \<and> \<not> is_digit (hd x) \<and> (\<forall>c \<in> set x. re_word c))"

text \<open>Well formed: no colon and no percent sign in the texts, and a name ends where the
  word ends.\<close>

fun wf_vtoks :: "vtok list \<Rightarrow> bool" where
  "wf_vtoks [] = True"
| "wf_vtoks (VText w # ts) = (CHR '':'' \<notin> set w \<and> CHR ''%'' \<notin> set w \<and> wf_vtoks ts)"
| "wf_vtoks (VName x # ts) =
     (is_name x \<and> wf_vtoks ts \<and>
      (render_named ts = [] \<or> \<not> re_word (hd (render_named ts))))"

definition named_re :: re where
  "named_re = RCat (RChar (CHR '':''))
     (RGroup 1 (RCat (RSet True [CDigit True, CWord False]) (RRep 0 None True (RSet False [CWord True]))))"

lemma named_re_compiles: "re_compile (raw '':([^`d`W]`w*)'') = Some named_re"
  by code_simp

lemma eat_named_head:
  "is_name (c # x) \<Longrightarrow> in_set True [CDigit True, CWord False] c"
  by (simp add: is_name_def in_set_def re_digit_def)

lemma takeWhile_name:
  "\<forall>c \<in> set x. re_word c \<Longrightarrow> r = [] \<or> \<not> re_word (hd r) \<Longrightarrow>
     takeWhile re_word (x @ r) = x \<and> dropWhile re_word (x @ r) = r"
  by (cases r) (auto simp: takeWhile_append dropWhile_append)

lemma named_re_match:
  assumes "is_name x" and "r = [] \<or> \<not> re_word (hd r)"
  shows "\<exists>m. match_at named_re p (CHR '':'' # x @ r) = Some m \<and> m_text m = CHR '':'' # x \<and>
     m_group m 1 = Some x"
proof -
  from assms(1) obtain c y where x: "x = c # y" by (cases x) (auto simp: is_name_def)
  have cls: "in_set False [CWord True] = re_word"
    by (simp add: fun_eq_iff in_set_def)
  from assms x have "takeWhile re_word (y @ r) = y \<and> dropWhile re_word (y @ r) = r"
    by (intro takeWhile_name) (auto simp: is_name_def)
  then obtain xs where rep: "re_rep (eat re_word) 0 None True (c # CHR '':'' # p, y @ r, []) =
      (rev y @ c # CHR '':'' # p, r, []) # xs"
    using re_rep_eat [of re_word "c # CHR '':'' # p" "y @ r" "[]"] by auto
  have "re_run named_re (p, CHR '':'' # x @ r, []) =
      (rev y @ c # CHR '':'' # p, r, [(1, Suc (length p), x)]) #
      map (\<lambda>(p', s', g'). (p', s', (1, Suc (length p), take (length (x @ r) - length s') (x @ r)) # g')) xs"
    using assms(1) x rep by (simp add: named_re_def eat_named_head cls fun_eq_iff)
  then show ?thesis
    by (simp add: match_at_def mat_of_def m_group_def)
qed

lemma named_re_no_match: "c \<noteq> CHR '':'' \<Longrightarrow> match_at named_re p (c # s) = None"
  by (simp add: match_at_def named_re_def)

lemma sub_at_skip:
  assumes "CHR '':'' \<notin> set w"
  shows "sub_at named_re f p (w @ s) = w @ sub_at named_re f (rev w @ p) s"
  using assms by (induction w arbitrary: p) (auto simp: named_re_no_match)

lemma sub_named:
  assumes "wf_vtoks ts"
  shows "sub_at named_re (\<lambda>m. ''%('' @ (case m_group m 1 of None \<Rightarrow> [] | Some name \<Rightarrow> name) @ '')s'')
     p (render_named ts) = render_pyformat ts"
  using assms
proof (induction ts arbitrary: p rule: render_pyformat.induct)
  case (2 w ts)
  then show ?case by (simp add: sub_at_skip)
next
  case (3 x ts)
  then have x: "is_name x" and r: "render_named ts = [] \<or> \<not> re_word (hd (render_named ts))"
    and ts: "wf_vtoks ts"
    by auto
  from named_re_match [OF x r, of p] obtain m
    where "match_at named_re p (CHR '':'' # x @ render_named ts) = Some m"
      and "m_text m = CHR '':'' # x" and "m_group m 1 = Some x"
    by blast
  with "3.IH" [OF ts] show ?case by simp
qed simp

lemma named_to_pyformat_render: "wf_vtoks ts \<Longrightarrow> named_to_pyformat (render_named ts) = render_pyformat ts"
  using sub_named [of ts "[]"] by (simp only: named_to_pyformat_def re_sub_def named_re_compiles option.case)

lemma re_word_not_paren: "re_word c \<Longrightarrow> c \<noteq> CHR ''('' \<and> c \<noteq> CHR '')''"
  by (auto simp: re_word_def is_digit_def is_upper_def is_lower_def)

lemma p_key_name: "\<forall>c \<in> set x. re_word c \<Longrightarrow> p_key 0 (x @ CHR '')'' # r) = Some (x, r)"
  by (induction x) (auto dest: re_word_not_paren)

lemma map_sum_Cons_append: "map_sum id ((#) c) (map_sum id ((@) w) r) = map_sum id ((@) (c # w)) r"
  by (cases r) auto

lemma map_sum_Nil_append [simp]: "map_sum id ((@) []) r = r"
  by (cases r) auto

lemma py_format_text:
  "CHR ''%'' \<notin> set w \<Longrightarrow> py_format d (w @ s) = map_sum id ((@) w) (py_format d s)"
  by (induction w) (auto simp: map_sum_Cons_append)

lemma py_format_render: "wf_vtoks ts \<Longrightarrow> py_format d (render_pyformat ts) = subst_named d ts"
proof (induction ts rule: render_pyformat.induct)
  case (2 w ts)
  then show ?case by (simp add: py_format_text)
next
  case (3 x ts)
  then have "\<forall>c \<in> set x. re_word c" by (simp add: is_name_def)
  with 3 show ?case by (simp add: p_key_name split: option.splits)
qed simp

text \<open>C17: Named markers: in a statement whose texts hold no colon and no percent sign, every
  \<open>:name\<close> is replaced by the text of the value of that name, the values may hold anything,
  and a name without a value raises \<open>KeyError\<close> with the first such name.\<close>

theorem bind_named_correct:
  assumes "wf_vtoks ts"
  shows "bind_parameters_dict (render_named ts) ps =
     subst_named (map_of (map (\<lambda>(name, value). (name, pvalue_text value)) ps)) ts"
  using assms by (simp add: bind_parameters_dict_def named_to_pyformat_render py_format_render)

theorem bind_named_correct_witness:
  "bind_parameters_dict ''a = :x and b = :y_1'' [(''y_1'', PNone), (''x'', PStr '':y %'')] =
     Inr (''a = '' @ [squote] @ '':y %'' @ [squote] @ '' and b = NULL'')"
proof -
  let ?ts = "[VText ''a = '', VName ''x'', VText '' and b = '', VName ''y_1'']"
  have "wf_vtoks ?ts" by code_simp
  from bind_named_correct [OF this, of "[(''y_1'', PNone), (''x'', PStr '':y %'')]"]
  show ?thesis by (simp add: pvalue_text_def escape_concat escape_char_def)
qed

end
