(* ===== verification/Error_Codes.thy ===== *)
theory Error_Codes
  imports Prelude
begin

text \<open>
  \<^verbatim>\<open>thrift/generate_error_codes.py\<close>: the table of error codes, the check of the table, and
  the text of the generated \<^verbatim>\<open>ErrorCodes.thrift\<close>. A row is the name of the constant, its
  number and the format string of its message. The script stops with exit code 1 and a
  printed message when the check fails: the result \<open>Inl\<close> of that message.
\<close>

section \<open>The table\<close>

type_synonym code_row = "string \<times> int \<times> string"

definition error_codes_0_33 :: "code_row list" where
  "error_codes_0_33 = [
    (''OK'', 0, ''''),
    (''UNUSED'', 1, ''<UNUSED>''),
    (''GENERAL'', 2, ''$0''),
    (''CANCELLED'', 3, ''$0''),
    (''ANALYSIS_ERROR'', 4, ''$0''),
    (''NOT_IMPLEMENTED_ERROR'', 5, ''$0''),
    (''RUNTIME_ERROR'', 6, ''$0''),
    (''MEM_LIMIT_EXCEEDED'', 7, ''$0''),
    (''INTERNAL_ERROR'', 8, ''$0''),
    (''RECOVERABLE_ERROR'', 9, ''$0''),
    (''PARQUET_MULTIPLE_BLOCKS'', 10, ''Parquet files should not be split into multiple hdfs-blocks. file=$0''),
    (''PARQUET_COLUMN_METADATA_INVALID'', 11, ''Column metadata states there are $0 values, but read $1 values from column $2. file=$3''),
    (''PARQUET_HEADER_PAGE_SIZE_EXCEEDED'', 12, ''(unused)''),
    (''PARQUET_HEADER_EOF'', 13, ''ParquetScanner: reached EOF while deserializing data page header. file=$0''),
    (''PARQUET_GROUP_ROW_COUNT_ERROR'', 14, ''Metadata states that in group $0($1) there are $2 rows, but $3 rows were read.''),
    (''PARQUET_GROUP_ROW_COUNT_OVERFLOW'', 15, ''(unused)''),
    (''PARQUET_MISSING_PRECISION'', 16, ''File \\'$0\\' column \\'$1\\' does not have the decimal precision set.''),
    (''PARQUET_WRONG_PRECISION'', 17, ''File \\'$0\\' column \\'$1\\' has a precision that does not match the table metadata  precision. File metadata precision: $2, table metadata precision: $3.''),
    (''PARQUET_BAD_CONVERTED_TYPE'', 18, ''File \\'$0\\' column \\'$1\\' does not have converted type set to DECIMAL''),
    (''PARQUET_INCOMPATIBLE_DECIMAL'', 19, ''File \\'$0\\' column \\'$1\\' contains decimal data but the table metadata has type $2''),
    (''SEQUENCE_SCANNER_PARSE_ERROR'', 20, ''Problem parsing file $0 at $1$2''),
    (''SNAPPY_DECOMPRESS_INVALID_BLOCK_SIZE'', 21, ''Decompressor: block size is too big.  Data is likely corrupt. Size: $0''),
    (''SNAPPY_DECOMPRESS_INVALID_COMPRESSED_LENGTH'', 22, ''Decompressor: invalid compressed length.  Data is likely corrupt.''),
    (''SNAPPY_DECOMPRESS_UNCOMPRESSED_LENGTH_FAILED'', 23, ''Snappy: GetUncompressedLength failed''),
    (''SNAPPY_DECOMPRESS_RAW_UNCOMPRESS_FAILED'', 24, ''SnappyBlock: RawUncompress failed''),
    (''SNAPPY_DECOMPRESS_DECOMPRESS_SIZE_INCORRECT'', 25, ''Snappy: Decompressed size is not correct.''),
    (''HDFS_SCAN_NODE_UNKNOWN_DISK'', 26, ''Unknown disk id.  This will negatively affect performance. Check your hdfs settings to enable block location metadata.''),
    (''FRAGMENT_EXECUTOR'', 27, ''Reserved resource size ($0) is larger than query mem limit ($1), and will be restricted to $1. Configure the reservation size by setting RM_INITIAL_MEM.''),
    (''PARTITIONED_HASH_JOIN_MAX_PARTITION_DEPTH'', 28, ''Cannot perform join at hash join node with id $0. The input data was partitioned the maximum number of $1 times. This could mean there is significant skew in the data or the memory limit is set too low.''),
    (''PARTITIONED_AGG_MAX_PARTITION_DEPTH'', 29, ''Cannot perform aggregation at hash aggregation node with id $0. The input data was partitioned the maximum number of $1 times. This could mean there is significant skew in the data or the memory limit is set too low.''),
    (''MISSING_BUILTIN'', 30, ''Builtin \\'$0\\' with symbol \\'$1\\' does not exist. Verify that all your impalads are the same version.''),
    (''RPC_GENERAL_ERROR'', 31, ''RPC Error: $0''),
    (''RPC_TIMEOUT'', 32, ''RPC timed out''),
    (''UDF_VERIFY_FAILED'', 33, ''Failed to verify function $0 from LLVM module $1, see log for more details.'')]"

definition error_codes_34_71 :: "code_row list" where
  "error_codes_34_71 = [
    (''PARQUET_CORRUPT_VALUE'', 34, ''File $0 corrupt. RLE level data bytes = $1''),
    (''AVRO_DECIMAL_RESOLUTION_ERROR'', 35, ''Column \\'$0\\' has conflicting Avro decimal types. Table schema $1: $2, file schema $1: $3''),
    (''AVRO_DECIMAL_METADATA_MISMATCH'', 36, ''Column \\'$0\\' has conflicting Avro decimal types. Declared $1: $2, $1 in table\\'s Avro schema: $3''),
    (''AVRO_SCHEMA_RESOLUTION_ERROR'', 37, ''Unresolvable types for column \\'$0\\': table type: $1, file type: $2''),
    (''AVRO_SCHEMA_METADATA_MISMATCH'', 38, ''Unresolvable types for column \\'$0\\': declared column type: $1, table\\'s Avro schema type: $2''),
    (''AVRO_UNSUPPORTED_DEFAULT_VALUE'', 39, ''Field $0 is missing from file and default values of type $1 are not yet supported.''),
    (''AVRO_MISSING_FIELD'', 40, ''Inconsistent table metadata. Mismatch between column definition and Avro schema: cannot read field $0 because there are only $1 fields.''),
    (''AVRO_MISSING_DEFAULT'', 41, ''Field $0 is missing from file and does not have a default value.''),
    (''AVRO_NULLABILITY_MISMATCH'', 42, ''Field $0 is nullable in the file schema but not the table schema.''),
    (''AVRO_NOT_A_RECORD'', 43, ''Inconsistent table metadata. Field $0 is not a record in the Avro schema.''),
    (''PARQUET_DEF_LEVEL_ERROR'', 44, ''Could not read definition level, even though metadata states there are $0 values remaining in data page. file=$1''),
    (''PARQUET_NUM_COL_VALS_ERROR'', 45, ''Mismatched number of values in column index $0 ($1 vs. $2). file=$3''),
    (''PARQUET_DICT_DECODE_FAILURE'', 46, ''Failed to decode dictionary-encoded value. file=$0''),
    (''SSL_PASSWORD_CMD_FAILED'', 47, ''SSL private-key password command (\\'$0\\') failed with error: $1''),
    (''SSL_CERTIFICATE_PATH_BLANK'', 48, ''The SSL certificate path is blank''),
    (''SSL_PRIVATE_KEY_PATH_BLANK'', 49, ''The SSL private key path is blank''),
    (''SSL_CERTIFICATE_NOT_FOUND'', 50, ''The SSL certificate file does not exist at path $0''),
    (''SSL_PRIVATE_KEY_NOT_FOUND'', 51, ''The SSL private key file does not exist at path $0''),
    (''SSL_SOCKET_CREATION_FAILED'', 52, ''SSL socket creation failed: $0''),
    (''MEM_ALLOC_FAILED'', 53, ''Memory allocation of $0 bytes failed''),
    (''PARQUET_REP_LEVEL_ERROR'', 54, ''Could not read repetition level, even though metadata states there are $0 values remaining in data page. file=$1''),
    (''PARQUET_UNRECOGNIZED_SCHEMA'', 55, raw ''File \\'$0\\' has an incompatible Parquet schema for column \\'$1\\'. Column type: $2, Parquet schema:`n$3''),
    (''COLLECTION_ALLOC_FAILED'', 56, ''Failed to allocate buffer for collection \\'$0\\'.''),
    (''TMP_DEVICE_BLACKLISTED'', 57, ''Temporary device for directory $0 is blacklisted from a previous error and cannot be used.''),
    (''TMP_FILE_BLACKLISTED'', 58, ''Temporary file $0 is blacklisted from a previous error and cannot be expanded.''),
    (''RPC_CLIENT_CONNECT_FAILURE'', 59, ''RPC client failed to connect: $0''),
    (''STALE_METADATA_FILE_TOO_SHORT'', 60, raw ''Metadata for file \\'$0\\' appears stale. Try running `\"refresh $1`\" to reload the file metadata.''),
    (''PARQUET_BAD_VERSION_NUMBER'', 61, raw ''File \\'$0\\' has an invalid version number: $1`nThis could be due to stale metadata. Try running `\"refresh $2`\".''),
    (''SCANNER_INCOMPLETE_READ'', 62, ''Tried to read $0 bytes but could only read $1 bytes. This may indicate data file corruption. (file $2, byte offset: $3)''),
    (''SCANNER_INVALID_READ'', 63, ''Invalid read of $0 bytes. This may indicate data file corruption. (file $1, byte offset: $2)''),
    (''AVRO_BAD_VERSION_HEADER'', 64, raw ''File \\'$0\\' has an invalid version header: $1`nMake sure the file is an Avro data file.''),
    (''UDF_MEM_LIMIT_EXCEEDED'', 65, ''$0\\'s allocations exceeded memory limits.''),
    (''BTS_BLOCK_OVERFLOW'', 66, ''Cannot process row that is bigger than the IO size (row_size=$0, null_indicators_size=$1). To run this query, increase the IO size (--read_size option).''),
    (''COMPRESSED_FILE_MULTIPLE_BLOCKS'', 67, ''For better performance, snappy-, gzip-, and bzip-compressed files should not be split into multiple HDFS blocks. file=$0 offset $1''),
    (''COMPRESSED_FILE_BLOCK_CORRUPTED'', 68, ''$0 Data error, likely data corrupted in this block.''),
    (''COMPRESSED_FILE_DECOMPRESSOR_ERROR'', 69, ''$0 Decompressor error at $1, code=$2''),
    (''COMPRESSED_FILE_DECOMPRESSOR_NO_PROGRESS'', 70, ''Decompression failed to make progress, but end of input is not reached. File appears corrupted. file=$0''),
    (''COMPRESSED_FILE_TRUNCATED'', 71, ''Unexpected end of compressed file. File may be truncated. file=$0'')]"

definition error_codes :: "code_row list" where
  "error_codes = error_codes_0_33 @ error_codes_34_71"

section \<open>The check\<close>

text \<open>The loop of \<open>check_duplicates\<close>: the constants seen so far with their messages, and the
  next number.\<close>

fun check_rows :: "(string \<rightharpoonup> string) \<Rightarrow> int \<Rightarrow> code_row list \<Rightarrow> string + unit" where
  "check_rows constants next_num_code [] = Inr ()"
| "check_rows constants next_num_code ((name, num, msg) # rows) =
     (case constants name of
        Some other \<Rightarrow>
          Inl (''Constant '' @ name @ '' already used, please check definition of '' @ [squote] @ other @
               [squote] @ ''!'')
      | None \<Rightarrow>
          if num \<noteq> next_num_code then
            Inl (''Numeric error codes must start from 0, be in order, and not have any gaps: got '' @
                 str_of_int num @ '', expected '' @ str_of_int next_num_code)
          else check_rows (constants(name \<mapsto> msg)) (next_num_code + 1) rows)"

definition check_duplicates :: "code_row list \<Rightarrow> string + unit" where
  "check_duplicates codes = check_rows Map.empty 0 codes"

section \<open>The generated file\<close>

definition preamble :: string where
  "preamble = py_join [newline] [
    '''',
    ''// Copyright 2015 Cloudera Inc.'',
    ''//'',
    ''// Licensed under the Apache License, Version 2.0 (the \"License\");'',
    ''// you may not use this file except in compliance with the License.'',
    ''// You may obtain a copy of the License at'',
    ''//'',
    ''// http://www.apache.org/licenses/LICENSE-2.0'',
    ''//'',
    ''// Unless required by applicable law or agreed to in writing, software'',
    ''// distributed under the License is distributed on an \"AS IS\" BASIS,'',
    ''// WITHOUT WARRANTIES OR CONDITIONS OF ANY KIND, either express or implied.'',
    ''// See the License for the specific language governing permissions and'',
    ''// limitations under the License.'',
    ''//'',
    ''//'',
    ''// THIS FILE IS AUTO GENERATED BY generated_error_codes.py DO NOT MODIFY'',
    ''// IT BY HAND.'',
    ''//'',
    '''',
    ''namespace cpp impala'',
    ''namespace java com.cloudera.impala.thrift'',
    '''',
    '''']"

definition enum_row :: "code_row \<Rightarrow> string" where
  "enum_row x = (case x of (name, num, msg) \<Rightarrow> ''  '' @ name @ '' = '' @ str_of_int num)"

definition message_row :: "code_row \<Rightarrow> string" where
  "message_row x =
     (case x of (name, num, msg) \<Rightarrow> ''  // '' @ name @ [newline] @ ''  \"'' @ msg @ ''\"'')"

definition generate :: "code_row list \<Rightarrow> string" where
  "generate codes =
     preamble @
     [newline] @ ''enum TErrorCode {'' @ [newline] @
     py_join ('','' @ [newline]) (map enum_row codes) @
     [newline] @ ''}'' @
     [newline] @
     ''const list<string> TErrorMessage = ['' @ [newline] @
     py_join ('','' @ [newline]) (map message_row codes) @
     [newline] @ '']''"

text \<open>The script: the check, then the file.\<close>

definition run_script :: "code_row list \<Rightarrow> string + string" where
  "run_script codes =
     (case check_duplicates codes of
        Inl msg \<Rightarrow> Inl msg
      | Inr _ \<Rightarrow> Inr (generate codes))"

section \<open>Properties\<close>

abbreviation row_name :: "code_row \<Rightarrow> string" where "row_name \<equiv> fst"
abbreviation row_num :: "code_row \<Rightarrow> int" where "row_num r \<equiv> fst (snd r)"
abbreviation row_msg :: "code_row \<Rightarrow> string" where "row_msg r \<equiv> snd (snd r)"

text \<open>The names are distinct and not among those seen, and the numbers count up from \<open>n\<close>.\<close>

fun numbered_from :: "int \<Rightarrow> code_row list \<Rightarrow> bool" where
  "numbered_from n [] = True"
| "numbered_from n (r # rows) = (row_num r = n \<and> numbered_from (n + 1) rows)"

lemma check_rows_ok:
  "check_rows cs n rows = Inr () \<longleftrightarrow>
     numbered_from n rows \<and> distinct (map row_name rows) \<and> (\<forall>r \<in> set rows. cs (row_name r) = None)"
proof (induction cs n rows rule: check_rows.induct)
  case (2 cs n name num msg rows)
  show ?case
  proof (cases "cs name = None \<and> num = n")
    case True
    then have step: "check_rows cs n ((name, num, msg) # rows) =
        check_rows (cs(name \<mapsto> msg)) (n + 1) rows"
      by simp
    have names: "(\<forall>r \<in> set rows. (cs(name \<mapsto> msg)) (row_name r) = None) \<longleftrightarrow>
        (\<forall>r \<in> set rows. cs (row_name r) = None) \<and> name \<notin> set (map row_name rows)"
      by (auto simp: image_iff)
    from True have "cs name = None" and "\<not> num \<noteq> n" by simp_all
    note ih = "2.IH" [OF this]
    show ?thesis unfolding step ih names using True by auto
  next
    case False
    then show ?thesis by (auto split: option.splits)
  qed
qed simp

lemma numbered_from_nth: "numbered_from n rows \<Longrightarrow> i < length rows \<Longrightarrow> row_num (rows ! i) = n + int i"
proof (induction n rows arbitrary: i rule: numbered_from.induct)
  case (2 n r rows)
  then show ?case by (cases i) auto
qed simp

lemma numbered_from_iff:
  "numbered_from n rows \<longleftrightarrow> (\<forall>i < length rows. row_num (rows ! i) = n + int i)"
proof
  assume "numbered_from n rows"
  then show "\<forall>i < length rows. row_num (rows ! i) = n + int i"
    by (simp add: numbered_from_nth)
next
  assume "\<forall>i < length rows. row_num (rows ! i) = n + int i"
  then show "numbered_from n rows"
  proof (induction rows arbitrary: n)
    case (Cons r rows)
    from Cons.prems have "row_num r = n" by force
    moreover have "\<forall>i < length rows. row_num (rows ! i) = (n + 1) + int i"
      using Cons.prems by force
    ultimately show ?case using Cons.IH by simp
  qed simp
qed

lemma check_duplicates_numbers:
  "check_duplicates codes = Inr () \<longleftrightarrow>
     distinct (map row_name codes) \<and> (\<forall>i < length codes. row_num (codes ! i) = int i)"
  by (auto simp: check_duplicates_def check_rows_ok numbered_from_iff)

text \<open>C7: The check accepts a table exactly when the names are pairwise different and the
  number of every row is its position, so the numbers start at 0, are in order and have no
  gaps.\<close>

theorem check_duplicates_iff:
  "check_duplicates codes = Inr () \<longleftrightarrow>
     distinct (map row_name codes) \<and> map row_num codes = map int [0..<length codes]"
proof -
  have "(\<forall>i < length codes. row_num (codes ! i) = int i) \<longleftrightarrow>
      map row_num codes = map int [0..<length codes]"
    (is "?num \<longleftrightarrow> ?eq")
  proof
    show "?num \<Longrightarrow> ?eq" by (intro nth_equalityI) simp_all
    show ?num if e: ?eq
    proof (intro allI impI)
      fix i assume "i < length codes"
      with arg_cong [OF e, of "\<lambda>xs. xs ! i"] show "row_num (codes ! i) = int i" by simp
    qed
  qed
  then show ?thesis unfolding check_duplicates_numbers by simp
qed

text \<open>The table in the script passes its own check, so the script writes the file.\<close>

theorem error_codes_accepted: "run_script error_codes = Inr (generate error_codes)"
proof -
  have "check_duplicates error_codes = Inr ()" by code_simp
  then show ?thesis by (simp add: run_script_def)
qed

subsection \<open>Reading the generated file back\<close>

text \<open>A reader of the generated file: the lines of a section between its first line and the line that
  closes it. A constant has two spaces before its name, and a comma after the number of every
  constant but the last; a message stands in quotes, below a comment.\<close>

definition file_section :: "string \<Rightarrow> string \<Rightarrow> string \<Rightarrow> string list" where
  "file_section opening closing file_text =
     takeWhile (\<lambda>l. l \<noteq> closing) (tl (dropWhile (\<lambda>l. l \<noteq> opening) (py_split newline file_text)))"

definition read_num :: "string \<Rightarrow> int" where
  "read_num s =
     (let t = takeWhile (\<lambda>c. c \<noteq> CHR '','') s in
      if startswith t ''-'' then - int (nat_of_digits 0 (tl t)) else int (nat_of_digits 0 t))"

definition read_enum_row :: "string \<Rightarrow> string \<times> int" where
  "read_enum_row line =
     (let s = drop 2 line in
      (takeWhile (\<lambda>c. c \<noteq> CHR '' '') s, read_num (drop 3 (dropWhile (\<lambda>c. c \<noteq> CHR '' '') s))))"

definition read_enum :: "string \<Rightarrow> (string \<times> int) list" where
  "read_enum file_text = map read_enum_row (file_section ''enum TErrorCode {'' ''}'' file_text)"

definition read_message :: "string \<Rightarrow> string" where
  "read_message line = (let s = drop 3 line in butlast (if endswith s '','' then butlast s else s))"

definition read_messages :: "string \<Rightarrow> string list" where
  "read_messages file_text =
     map read_message (filter (\<lambda>l. \<not> startswith l ''  //'')
       (file_section ''const list<string> TErrorMessage = ['' '']'' file_text))"

definition plain_name :: "string \<Rightarrow> bool" where
  "plain_name n = (CHR '' '' \<notin> set n \<and> newline \<notin> set n)"

lemma str_of_int_chars: "c \<in> set (str_of_int i) \<Longrightarrow> c = CHR ''-'' \<or> is_digit c"
  by (auto simp: str_of_int_def dest: str_of_nat_digits split: if_splits)

lemma str_of_int_clean [simp]:
  "newline \<notin> set (str_of_int i)" "CHR '','' \<notin> set (str_of_int i)"
  by (auto dest!: str_of_int_chars simp: is_digit_def)

lemma startswith_dash_str_of_nat [simp]: "\<not> startswith (str_of_nat n) ''-''"
proof
  assume "startswith (str_of_nat n) ''-''"
  then have "CHR ''-'' \<in> set (str_of_nat n)" by (cases "str_of_nat n") auto
  then show False by (auto dest: str_of_nat_digits simp: is_digit_def)
qed

lemma takeWhile_neq:
  "d \<notin> set w \<Longrightarrow> t = [] \<or> hd t = d \<Longrightarrow> takeWhile (\<lambda>c. c \<noteq> d) (w @ t) = w \<and> dropWhile (\<lambda>c. c \<noteq> d) (w @ t) = t"
  by (induction w) (cases t; auto)+

lemma read_num_str: "t = [] \<or> t = '','' \<Longrightarrow> read_num (str_of_int i @ t) = i"
proof -
  assume "t = [] \<or> t = '',''"
  then have "takeWhile (\<lambda>c. c \<noteq> CHR '','') (str_of_int i @ t) = str_of_int i"
    by (intro conjunct1 [OF takeWhile_neq]) auto
  then show ?thesis
    by (simp add: read_num_def Let_def str_of_int_def nat_of_str_of_nat)
qed

lemma read_enum_row_row:
  "plain_name name \<Longrightarrow> t = [] \<or> t = '','' \<Longrightarrow>
     read_enum_row (enum_row (name, num, msg) @ t) = (name, num)"
  using takeWhile_neq [of "CHR '' ''" name "'' = '' @ str_of_int num @ t"]
  by (simp add: read_enum_row_def enum_row_def Let_def plain_name_def read_num_str)

lemma enum_row_clean: "plain_name name \<Longrightarrow> newline \<notin> set (enum_row (name, num, msg))"
  by (simp add: enum_row_def plain_name_def)

text \<open>The lines of rows that are joined with a comma and a new line.\<close>

fun comma_lines :: "string list list \<Rightarrow> string list" where
  "comma_lines [] = []"
| "comma_lines [r] = r"
| "comma_lines (r # rs) = butlast r @ [last r @ '',''] @ comma_lines rs"

lemma py_split_snoc: "c \<noteq> sep \<Longrightarrow> py_split sep (w @ [c]) = butlast (py_split sep w) @ [last (py_split sep w) @ [c]]"
proof (induction w)
  case (Cons a w)
  then show ?case by (cases "py_split sep w") (auto simp: py_split_not_Nil)
qed simp

lemma split_joined_rows:
  "rows \<noteq> [] \<Longrightarrow>
     py_split newline (py_join ('','' @ [newline]) rows) = comma_lines (map (py_split newline) rows)"
proof (induction rows rule: induct_list012)
  case (3 r r' rs)
  have "py_join ('','' @ [newline]) (r # r' # rs) = (r @ [CHR '','']) @ newline # py_join ('','' @ [newline]) (r' # rs)"
    by (simp add: py_join_Cons)
  moreover have "py_split newline (r @ [CHR '','']) =
      butlast (py_split newline r) @ [last (py_split newline r) @ [CHR '','']]"
    by (rule py_split_snoc) simp
  ultimately show ?case using 3 by (simp only: py_split_append_sep) simp
qed simp_all

lemma comma_lines_indented:
  "list_all (\<lambda>r. r \<noteq> [] \<and> list_all (\<lambda>l. startswith l ''  '') r) rows \<Longrightarrow> l \<in> set (comma_lines rows) \<Longrightarrow>
     startswith l ''  ''"
proof (induction rows rule: comma_lines.induct)
  case (3 r r' rs)
  then have "startswith (last r) ''  ''" by (auto simp: list_all_iff)
  then have "startswith (last r @ '','') ''  ''" by (simp add: startswith_iff_append) (metis append_Cons)
  with 3 show ?case by (auto simp: list_all_iff dest: in_set_butlastD)
qed (auto simp: list_all_iff)

text \<open>The lines of the file: the preamble, the enumeration and the list.\<close>

lemma generated_lines:
  assumes "codes \<noteq> []"
  shows "py_split newline (generate codes) =
     py_split newline preamble @ ''enum TErrorCode {'' # comma_lines (map (py_split newline \<circ> enum_row) codes) @
     ''}'' # ''const list<string> TErrorMessage = ['' #
     comma_lines (map (py_split newline \<circ> message_row) codes) @ ['']'']"
proof -
  let ?e = "py_join ('','' @ [newline]) (map enum_row codes)"
  let ?m = "py_join ('','' @ [newline]) (map message_row codes)"
  define E where "E = ''enum TErrorCode {''"
  define C where "C = ''}''"
  define M where "M = ''const list<string> TErrorMessage = [''"
  define K where "K = '']''"
  have whole: "generate codes =
      preamble @ newline # E @ newline # ?e @ newline # C @ newline # M @ newline # ?m @ newline # K"
    by (simp only: generate_def E_def C_def M_def K_def append_Cons append_Nil append_assoc)
  have single: "py_split newline E = [E]" "py_split newline C = [C]" "py_split newline M = [M]"
    "py_split newline K = [K]"
    by (simp_all add: E_def C_def M_def K_def py_split_absent)
  have rows: "py_split newline ?e = comma_lines (map (py_split newline \<circ> enum_row) codes)"
    "py_split newline ?m = comma_lines (map (py_split newline \<circ> message_row) codes)"
    using split_joined_rows [of "map enum_row codes"] split_joined_rows [of "map message_row codes"] assms
    by simp_all
  have "py_split newline (generate codes) =
     py_split newline preamble @ E # comma_lines (map (py_split newline \<circ> enum_row) codes) @
     C # M # comma_lines (map (py_split newline \<circ> message_row) codes) @ [K]"
    unfolding whole py_split_append_sep single rows by simp
  then show ?thesis by (simp only: E_def C_def M_def K_def)
qed

text \<open>The rows, one line and two lines each.\<close>

lemma enum_row_lines: "plain_name (row_name r) \<Longrightarrow> py_split newline (enum_row r) = [enum_row r]"
  using enum_row_clean by (cases r) (simp add: py_split_absent)

lemma message_row_lines:
  assumes "plain_name (row_name r)" and "newline \<notin> set (row_msg r)"
  shows "py_split newline (message_row r) = [''  // '' @ row_name r, ''  \"'' @ row_msg r @ ''\"'']"
proof -
  have "message_row r = (''  // '' @ row_name r) @ newline # ''  \"'' @ row_msg r @ ''\"''"
    by (cases r) (simp add: message_row_def)
  with assms show ?thesis
    by (simp only: py_split_append_sep) (simp add: py_split_absent plain_name_def)
qed

definition readable :: "code_row list \<Rightarrow> bool" where
  "readable codes =
     (codes \<noteq> [] \<and> list_all (\<lambda>r. plain_name (row_name r) \<and> newline \<notin> set (row_msg r)) codes)"

lemma enum_rows_indented:
  assumes "readable codes" and "l \<in> set (comma_lines (map (py_split newline \<circ> enum_row) codes))"
  shows "startswith l ''  ''"
proof (rule comma_lines_indented [OF _ assms(2)])
  show "list_all (\<lambda>r. r \<noteq> [] \<and> list_all (\<lambda>l. startswith l ''  '') r)
      (map (py_split newline \<circ> enum_row) codes)"
    using assms(1) by (auto simp: list_all_iff readable_def enum_row_lines) (simp add: enum_row_def)
qed

lemma message_rows_indented:
  assumes "readable codes" and "l \<in> set (comma_lines (map (py_split newline \<circ> message_row) codes))"
  shows "startswith l ''  ''"
proof (rule comma_lines_indented [OF _ assms(2)])
  show "list_all (\<lambda>r. r \<noteq> [] \<and> list_all (\<lambda>l. startswith l ''  '') r)
      (map (py_split newline \<circ> message_row) codes)"
    using assms(1) by (auto simp: list_all_iff readable_def message_row_lines)
qed

lemma section_between:
  assumes "\<forall>l \<in> set before. l \<noteq> opening" and "\<forall>l \<in> set body. l \<noteq> closing"
    and "py_split newline file_text = before @ opening # body @ closing # rest"
  shows "file_section opening closing file_text = body"
  using assms by (simp add: file_section_def dropWhile_append takeWhile_append)

lemma preamble_lines:
  "''enum TErrorCode {'' \<notin> set (py_split newline preamble)"
  "''const list<string> TErrorMessage = ['' \<notin> set (py_split newline preamble)"
  by code_simp+

lemma generated_sections:
  assumes "readable codes"
  shows "file_section ''enum TErrorCode {'' ''}'' (generate codes) =
      comma_lines (map (py_split newline \<circ> enum_row) codes)"
    and "file_section ''const list<string> TErrorMessage = ['' '']'' (generate codes) =
      comma_lines (map (py_split newline \<circ> message_row) codes)"
proof -
  have lines: "py_split newline (generate codes) =
     py_split newline preamble @ ''enum TErrorCode {'' # comma_lines (map (py_split newline \<circ> enum_row) codes) @
     ''}'' # ''const list<string> TErrorMessage = ['' #
     comma_lines (map (py_split newline \<circ> message_row) codes) @ ['']'']"
    using assms by (intro generated_lines) (simp add: readable_def)
  have enum: "l \<noteq> ''}'' \<and> l \<noteq> ''const list<string> TErrorMessage = [''"
    if "l \<in> set (comma_lines (map (py_split newline \<circ> enum_row) codes))" for l
    using enum_rows_indented [OF assms that] by auto
  have msgs: "l \<noteq> '']''" if "l \<in> set (comma_lines (map (py_split newline \<circ> message_row) codes))" for l
    using message_rows_indented [OF assms that] by auto
  show "file_section ''enum TErrorCode {'' ''}'' (generate codes) =
      comma_lines (map (py_split newline \<circ> enum_row) codes)"
    by (rule section_between [OF _ _ lines]) (use preamble_lines enum in blast)+
  show "file_section ''const list<string> TErrorMessage = ['' '']'' (generate codes) =
      comma_lines (map (py_split newline \<circ> message_row) codes)"
  proof (rule section_between)
    show "py_split newline (generate codes) =
        (py_split newline preamble @ ''enum TErrorCode {'' #
          comma_lines (map (py_split newline \<circ> enum_row) codes) @ [''}'']) @
        ''const list<string> TErrorMessage = ['' #
        comma_lines (map (py_split newline \<circ> message_row) codes) @ '']'' # []"
      using lines by simp
  qed (use preamble_lines enum msgs in auto)
qed

lemma read_enum_lines:
  "list_all (\<lambda>r. plain_name (row_name r)) codes \<Longrightarrow>
     map read_enum_row (comma_lines (map (py_split newline \<circ> enum_row) codes)) =
       map (\<lambda>(name, num, msg). (name, num)) codes"
proof (induction codes rule: induct_list012)
  case (2 r)
  then show ?case using read_enum_row_row [of "row_name r" "[]"] by (cases r) (simp add: enum_row_lines)
next
  case (3 r r' rs)
  then show ?case using read_enum_row_row [of "row_name r" "'',''"] by (cases r) (simp add: enum_row_lines)
qed simp

lemma read_message_line:
  "read_message (''  \"'' @ m @ ''\"'') = m" "read_message (''  \"'' @ m @ ''\",'') = m"
  by (simp_all add: read_message_def endswith_def butlast_append)

lemma read_message_lines:
  "list_all (\<lambda>r. plain_name (row_name r) \<and> newline \<notin> set (row_msg r)) codes \<Longrightarrow>
     map read_message (filter (\<lambda>l. \<not> startswith l ''  //'')
       (comma_lines (map (py_split newline \<circ> message_row) codes))) = map row_msg codes"
  by (induction codes rule: induct_list012)
    (simp_all add: message_row_lines read_message_line [simplified])

text \<open>C19: The generated file can be read back: for a table with names without spaces and texts on one line,
  the enumeration in the output of the script gives the names and numbers of the table, in
  order, and the list of messages gives its messages, in order.\<close>

theorem read_generated:
  assumes "readable codes"
  shows "read_enum (generate codes) = map (\<lambda>(name, num, msg). (name, num)) codes \<and>
     read_messages (generate codes) = map row_msg codes"
  using assms read_enum_lines read_message_lines
  by (auto simp: read_enum_def read_messages_def generated_sections readable_def list_all_iff)

theorem read_generated_witness:
  "read_enum (generate [(''OK'', 0, []), (''BAD'', 1, ''no \"x\", y'')]) = [(''OK'', 0), (''BAD'', 1)]"
proof -
  have "readable [(''OK'', 0, []), (''BAD'', 1, ''no \"x\", y'')]" by code_simp
  from read_generated [OF this] show ?thesis by simp
qed

text \<open>C18: When the script writes a file, the entry of the list of messages in that file at the number of a
  constant is the message of that constant, and the enumeration in the file has the constant with that
  number at the same place.\<close>

theorem message_at_code:
  assumes "run_script codes = Inr file_text" and "readable codes" and "(name, num, msg) \<in> set codes"
  shows "0 \<le> num \<and> nat num < length (read_messages file_text) \<and> read_messages file_text ! nat num = msg \<and>
     read_enum file_text ! nat num = (name, num)"
proof -
  from assms(1) have c: "check_duplicates codes = Inr ()" and t: "file_text = generate codes"
    by (auto simp: run_script_def split: sum.splits)
  from assms(3) obtain i where i: "i < length codes" "codes ! i = (name, num, msg)"
    by (auto simp: in_set_conv_nth)
  with c have "num = int i" by (auto simp: check_duplicates_numbers [of codes] dest!: spec [of _ i])
  moreover have "read_messages file_text = map row_msg codes"
    "read_enum file_text = map (\<lambda>(name, num, msg). (name, num)) codes"
    using assms(2) read_enum_lines read_message_lines
    by (auto simp: t read_enum_def read_messages_def generated_sections readable_def list_all_iff)
  ultimately show ?thesis using i by simp
qed

theorem message_at_code_witness: "read_messages (generate error_codes) ! 7 = ''$0''"
proof -
  have "check_duplicates error_codes = Inr ()" by code_simp
  then have r: "run_script error_codes = Inr (generate error_codes)" by (simp add: run_script_def)
  have m: "(''MEM_LIMIT_EXCEEDED'', 7, ''$0'') \<in> set error_codes" by code_simp
  have "readable error_codes" by code_simp
  from message_at_code [OF r this m] show ?thesis by simp
qed

end
