(* ===== verification/Lint_State.thy ===== *)
theory Lint_State
  imports Py_Regex "HOL-Library.AList"
begin

text \<open>
  The state of the linter \<^verbatim>\<open>build-support/cpplint.py\<close>: the categories of errors, the
  suppressions that NOLINT comments make, the filters, the counts, and \<open>Error\<close>, through
  which every check reports. The class \<open>_CppLintState\<close> is the record \<open>CppLintState\<close>; the
  variables of the module are the record \<open>lint\<close>, with what was written to standard error.
  An exception that ends the run is recorded in the field \<open>raised\<close>.
\<close>

section \<open>Categories and defaults\<close>

definition ERROR_CATEGORIES :: "string list" where
  "ERROR_CATEGORIES = [
     ''build/class'', ''build/c++11'', ''build/deprecated'',
     ''build/endif_comment'', ''build/explicit_make_pair'', ''build/forward_decl'',
     ''build/header_guard'', ''build/include'', ''build/include_alpha'',
     ''build/include_order'', ''build/include_what_you_use'', ''build/namespaces'',
     ''build/printf_format'', ''build/storage_class'', ''legal/copyright'',
     ''readability/alt_tokens'', ''readability/braces'', ''readability/casting'',
     ''readability/check'', ''readability/constructors'', ''readability/fn_size'',
     ''readability/function'', ''readability/inheritance'', ''readability/multiline_comment'',
     ''readability/multiline_string'', ''readability/namespace'', ''readability/nolint'',
     ''readability/nul'', ''readability/strings'', ''readability/todo'',
     ''readability/utf8'', ''runtime/arrays'', ''runtime/casting'',
     ''runtime/explicit'', ''runtime/int'', ''runtime/init'',
     ''runtime/invalid_increment'', ''runtime/member_string_references'', ''runtime/memset'',
     ''runtime/indentation_namespace'', ''runtime/operator'', ''runtime/printf'',
     ''runtime/printf_format'', ''runtime/references'', ''runtime/string'',
     ''runtime/threadsafe_fn'', ''runtime/vlog'', ''whitespace/blank_line'',
     ''whitespace/braces'', ''whitespace/comma'', ''whitespace/comments'',
     ''whitespace/empty_conditional_body'', ''whitespace/empty_loop_body'', ''whitespace/end_of_line'',
     ''whitespace/ending_newline'', ''whitespace/forcolon'', ''whitespace/indent'',
     ''whitespace/line_length'', ''whitespace/newline'', ''whitespace/operators'',
     ''whitespace/parens'', ''whitespace/semicolon'', ''whitespace/tab'',
     ''whitespace/todo'']"

definition LEGACY_ERROR_CATEGORIES :: "string list" where
  "LEGACY_ERROR_CATEGORIES = [''readability/streams'']"

definition DEFAULT_FILTERS :: "string list" where
  "DEFAULT_FILTERS = [''-build/include_alpha'']"

section \<open>Patterns and the cache of compiled patterns\<close>

text \<open>\<open>Match\<close>, \<open>Search\<close> and \<open>ReplaceAll\<close> compile a pattern once and keep it. A pattern that
  does not compile raises, which is \<open>None\<close> here, and is not kept.\<close>

type_synonym re_cache = "(string \<times> re) list"

definition cached_compile :: "string \<Rightarrow> re_cache \<Rightarrow> re option \<times> re_cache" where
  "cached_compile pattern cache =
     (case map_of cache pattern of
        Some r \<Rightarrow> (Some r, cache)
      | None \<Rightarrow>
          (case re_compile pattern of
             None \<Rightarrow> (None, cache)
           | Some r \<Rightarrow> (Some r, (pattern, r) # cache)))"

definition cached_Match :: "string \<Rightarrow> string \<Rightarrow> re_cache \<Rightarrow> mat option option \<times> re_cache" where
  "cached_Match pattern s cache =
     (case cached_compile pattern cache of
        (r, cache') \<Rightarrow> (map_option (\<lambda>r. match_at r [] s) r, cache'))"

definition cached_ReplaceAll ::
    "string \<Rightarrow> string \<Rightarrow> string \<Rightarrow> re_cache \<Rightarrow> string option \<times> re_cache" where
  "cached_ReplaceAll pattern rep s cache =
     (case cached_compile pattern cache of
        (r, cache') \<Rightarrow> (map_option (\<lambda>r. sub_at r (\<lambda>m. rep) [] s) r, cache'))"

definition cached_Search :: "string \<Rightarrow> string \<Rightarrow> re_cache \<Rightarrow> mat option option \<times> re_cache" where
  "cached_Search pattern s cache =
     (case cached_compile pattern cache of
        (r, cache') \<Rightarrow> (map_option (\<lambda>r. search_at r [] s) r, cache'))"

text \<open>The rest of the development uses the operations without the cache.\<close>

abbreviation Match :: "string \<Rightarrow> string \<Rightarrow> mat option" where "Match \<equiv> re_match"
abbreviation Search :: "string \<Rightarrow> string \<Rightarrow> mat option" where "Search \<equiv> re_search"

abbreviation matches :: "string \<Rightarrow> string \<Rightarrow> bool" where
  "matches pattern s \<equiv> re_match pattern s \<noteq> None"

abbreviation found :: "string \<Rightarrow> string \<Rightarrow> bool" where
  "found pattern s \<equiv> re_search pattern s \<noteq> None"

section \<open>The class \<open>_CppLintState\<close>\<close>

record CppLintState =
  verbose_level :: int
  error_count :: nat
  filters :: "string list"
  filters_backup :: "string list"
  counting :: string
  errors_by_category :: "(string \<times> nat) list"
  output_format :: string

definition CppLintState_init :: CppLintState where
  "CppLintState_init =
     \<lparr>verbose_level = 1, error_count = 0, filters = DEFAULT_FILTERS,
      filters_backup = DEFAULT_FILTERS, counting = ''total'', errors_by_category = [],
      output_format = ''emacs''\<rparr>"

definition SetOutputFormat :: "string \<Rightarrow> CppLintState \<Rightarrow> CppLintState" where
  "SetOutputFormat fmt st = st\<lparr>output_format := fmt\<rparr>"

definition SetVerboseLevel :: "int \<Rightarrow> CppLintState \<Rightarrow> int \<times> CppLintState" where
  "SetVerboseLevel level st = (verbose_level st, st\<lparr>verbose_level := level\<rparr>)"

definition SetCountingStyle :: "string \<Rightarrow> CppLintState \<Rightarrow> CppLintState" where
  "SetCountingStyle style st = st\<lparr>counting := style\<rparr>"

definition signed_filter :: "string \<Rightarrow> bool" where
  "signed_filter filt = (startswith filt ''+'' \<or> startswith filt ''-'')"

text \<open>\<open>AddFilters\<close>: the state is changed before the filters are checked. The first result is
  the message of the \<open>ValueError\<close>, if one is raised. Filters come from the command line or
  a configuration file, as byte strings.\<close>

definition strip_bytes :: "string \<Rightarrow> string" where
  "strip_bytes s = rev (dropWhile re_space (rev (dropWhile re_space s)))"

definition AddFilters :: "string \<Rightarrow> CppLintState \<Rightarrow> string option \<times> CppLintState" where
  "AddFilters fs st =
     (let new = filter (\<lambda>filt. filt \<noteq> []) (map strip_bytes (py_split (CHR '','') fs));
          st = st\<lparr>filters := filters st @ new\<rparr>
      in case find (\<lambda>filt. \<not> signed_filter filt) (filters st) of
           None \<Rightarrow> (None, st)
         | Some filt \<Rightarrow>
             (Some (''Every filter in --filters must start with + or - ('' @ filt @ '' does not)''), st))"

definition SetFilters :: "string \<Rightarrow> CppLintState \<Rightarrow> string option \<times> CppLintState" where
  "SetFilters fs st = AddFilters fs (st\<lparr>filters := DEFAULT_FILTERS\<rparr>)"

definition BackupFilters :: "CppLintState \<Rightarrow> CppLintState" where
  "BackupFilters st = st\<lparr>filters_backup := filters st\<rparr>"

definition RestoreFilters :: "CppLintState \<Rightarrow> CppLintState" where
  "RestoreFilters st = st\<lparr>filters := filters_backup st\<rparr>"

definition ResetErrorCounts :: "CppLintState \<Rightarrow> CppLintState" where
  "ResetErrorCounts st = st\<lparr>error_count := 0, errors_by_category := []\<rparr>"

definition bump :: "string \<Rightarrow> (string \<times> nat) list \<Rightarrow> (string \<times> nat) list" where
  "bump category m =
     AList.update category (Suc (case map_of m category of None \<Rightarrow> 0 | Some n \<Rightarrow> n)) m"

definition IncrementErrorCount :: "string \<Rightarrow> CppLintState \<Rightarrow> CppLintState" where
  "IncrementErrorCount category st =
     (let st = st\<lparr>error_count := error_count st + 1\<rparr> in
      if counting st \<in> {''toplevel'', ''detailed''} then
        (let category = (if counting st \<noteq> ''detailed'' then hd (py_split (CHR ''/'') category)
                         else category)
         in st\<lparr>errors_by_category := bump category (errors_by_category st)\<rparr>)
      else st)"

text \<open>\<open>PrintErrorCounts\<close>: the texts written, in the order of the dictionary.\<close>

definition PrintErrorCounts :: "CppLintState \<Rightarrow> string list" where
  "PrintErrorCounts st =
     map (\<lambda>(category, count). ''Category '' @ [squote] @ category @ [squote] @ '' errors found: '' @
            str_of_nat count @ [newline]) (errors_by_category st) @
     [''Total errors found: '' @ str_of_nat (error_count st) @ [newline]]"

section \<open>The variables of the module\<close>

text \<open>\<open>error_suppressions\<close> is the dictionary from a category, or \<open>None\<close> for all, to the set of
  lines; a category that is not in it has the empty set, as \<open>get\<close> returns.\<close>

record lint =
  cpplint_state :: CppLintState
  error_suppressions :: "string option \<Rightarrow> int set"
  root :: "string option"
  line_length :: int
  valid_extensions :: "string list"
  stderr :: "string list"
  raised :: "string option"

definition lint_init :: lint where
  "lint_init =
     \<lparr>cpplint_state = CppLintState_init, error_suppressions = (\<lambda>_. {}), root = None,
      line_length = 80, valid_extensions = [''cc'', ''h'', ''cpp'', ''cu'', ''cuh''],
      stderr = [], raised = None\<rparr>"

text \<open>The functions of the module that pass on to \<open>_cpplint_state\<close>.\<close>

definition lift_state :: "(CppLintState \<Rightarrow> CppLintState) \<Rightarrow> lint \<Rightarrow> lint" where
  "lift_state f g = g\<lparr>cpplint_state := f (cpplint_state g)\<rparr>"

definition lift_filters ::
    "(CppLintState \<Rightarrow> string option \<times> CppLintState) \<Rightarrow> lint \<Rightarrow> lint" where
  "lift_filters f g =
     (case f (cpplint_state g) of
        (None, st) \<Rightarrow> g\<lparr>cpplint_state := st\<rparr>
      | (Some msg, st) \<Rightarrow> g\<lparr>cpplint_state := st, raised := Some (''ValueError: '' @ msg)\<rparr>)"

definition module_OutputFormat :: "lint \<Rightarrow> string" where
  "module_OutputFormat g = output_format (cpplint_state g)"

definition module_SetOutputFormat :: "string \<Rightarrow> lint \<Rightarrow> lint" where
  "module_SetOutputFormat fmt = lift_state (SetOutputFormat fmt)"

definition module_VerboseLevel :: "lint \<Rightarrow> int" where
  "module_VerboseLevel g = verbose_level (cpplint_state g)"

definition module_SetVerboseLevel :: "int \<Rightarrow> lint \<Rightarrow> int \<times> lint" where
  "module_SetVerboseLevel level g =
     (case SetVerboseLevel level (cpplint_state g) of (old, st) \<Rightarrow> (old, g\<lparr>cpplint_state := st\<rparr>))"

definition module_SetCountingStyle :: "string \<Rightarrow> lint \<Rightarrow> lint" where
  "module_SetCountingStyle style = lift_state (SetCountingStyle style)"

definition module_Filters :: "lint \<Rightarrow> string list" where
  "module_Filters g = filters (cpplint_state g)"

definition module_SetFilters :: "string \<Rightarrow> lint \<Rightarrow> lint" where
  "module_SetFilters fs = lift_filters (SetFilters fs)"

definition module_AddFilters :: "string \<Rightarrow> lint \<Rightarrow> lint" where
  "module_AddFilters fs = lift_filters (AddFilters fs)"

definition module_BackupFilters :: "lint \<Rightarrow> lint" where
  "module_BackupFilters = lift_state BackupFilters"

definition module_RestoreFilters :: "lint \<Rightarrow> lint" where
  "module_RestoreFilters = lift_state RestoreFilters"

definition write_err :: "string \<Rightarrow> lint \<Rightarrow> lint" where
  "write_err s g = g\<lparr>stderr := stderr g @ [s]\<rparr>"

section \<open>Reporting\<close>

definition IsErrorSuppressedByNolint :: "string \<Rightarrow> int \<Rightarrow> lint \<Rightarrow> bool" where
  "IsErrorSuppressedByNolint category linenum g =
     (linenum \<in> error_suppressions g (Some category) \<or> linenum \<in> error_suppressions g None)"

text \<open>The loop over the filters in \<open>_ShouldPrintError\<close>; \<open>None\<close> is the failed assertion.\<close>

fun filter_loop :: "string \<Rightarrow> bool \<Rightarrow> string list \<Rightarrow> bool option" where
  "filter_loop category is_filtered [] = Some is_filtered"
| "filter_loop category is_filtered (one_filter # fs) =
     (if startswith one_filter ''-'' then
        filter_loop category (if startswith category (tl one_filter) then True else is_filtered) fs
      else if startswith one_filter ''+'' then
        filter_loop category (if startswith category (tl one_filter) then False else is_filtered) fs
      else None)"

definition ShouldPrintError :: "string \<Rightarrow> int \<Rightarrow> int \<Rightarrow> lint \<Rightarrow> bool option" where
  "ShouldPrintError category confidence linenum g =
     (if IsErrorSuppressedByNolint category linenum g then Some False
      else if confidence < verbose_level (cpplint_state g) then Some False
      else map_option Not (filter_loop category False (filters (cpplint_state g))))"

definition format_error :: "string \<Rightarrow> string \<Rightarrow> int \<Rightarrow> string \<Rightarrow> int \<Rightarrow> string \<Rightarrow> string" where
  "format_error fmt filename linenum category confidence message =
     (if fmt = ''vs7'' then
        filename @ ''('' @ str_of_int linenum @ ''):  '' @ message
      else if fmt = ''eclipse'' then
        filename @ '':'' @ str_of_int linenum @ '': warning: '' @ message
      else filename @ '':'' @ str_of_int linenum @ '':  '' @ message) @
     ''  ['' @ category @ ''] ['' @ str_of_int confidence @ '']'' @ [newline]"

definition Error :: "string \<Rightarrow> int \<Rightarrow> string \<Rightarrow> int \<Rightarrow> string \<Rightarrow> lint \<Rightarrow> lint" where
  "Error filename linenum category confidence message g =
     (case ShouldPrintError category confidence linenum g of
        None \<Rightarrow> g\<lparr>raised := Some ''AssertionError''\<rparr>
      | Some False \<Rightarrow> g
      | Some True \<Rightarrow>
          write_err (format_error (output_format (cpplint_state g)) filename linenum category
                       confidence message)
            (lift_state (IncrementErrorCount category) g))"

section \<open>NOLINT comments\<close>

definition add_suppression :: "string option \<Rightarrow> int \<Rightarrow> lint \<Rightarrow> lint" where
  "add_suppression key linenum g =
     g\<lparr>error_suppressions :=
         (error_suppressions g)(key := insert linenum (error_suppressions g key))\<rparr>"

definition ParseNolintSuppressions :: "string \<Rightarrow> string \<Rightarrow> int \<Rightarrow> lint \<Rightarrow> lint" where
  "ParseNolintSuppressions filename raw_line linenum g =
     (case Search (raw ''`bNOLINT(NEXTLINE)?`b(`([^)]+`))?'') raw_line of
        None \<Rightarrow> g
      | Some matched \<Rightarrow>
          (let suppressed_line = (if m_group matched 1 \<noteq> None then linenum + 1 else linenum) in
           case m_group matched 2 of
             None \<Rightarrow> add_suppression None suppressed_line g
           | Some category \<Rightarrow>
               if category = ''(*)'' then add_suppression None suppressed_line g
               else if startswith category ''('' \<and> endswith category '')'' then
                 (let category = butlast (tl category) in
                  if category \<in> set ERROR_CATEGORIES
                  then add_suppression (Some category) suppressed_line g
                  else if category \<notin> set LEGACY_ERROR_CATEGORIES
                  then Error filename linenum ''readability/nolint'' 5
                         (''Unknown NOLINT error category: '' @ category) g
                  else g)
               else g))"

definition ResetNolintSuppressions :: "lint \<Rightarrow> lint" where
  "ResetNolintSuppressions g = g\<lparr>error_suppressions := (\<lambda>_. {})\<rparr>"

lemmas [lint_defs] =
  SetOutputFormat_def SetVerboseLevel_def SetCountingStyle_def AddFilters_def SetFilters_def
  BackupFilters_def RestoreFilters_def ResetErrorCounts_def IncrementErrorCount_def
  lift_state_def lift_filters_def write_err_def add_suppression_def
  module_OutputFormat_def module_SetOutputFormat_def module_VerboseLevel_def module_SetVerboseLevel_def
  module_SetCountingStyle_def module_Filters_def
  ResetNolintSuppressions_def

section \<open>The cache of patterns changes nothing\<close>

definition cache_ok :: "re_cache \<Rightarrow> bool" where
  "cache_ok cache = (\<forall>(pattern, r) \<in> set cache. re_compile pattern = Some r)"

lemma cached_compile_correct:
  "cache_ok cache \<Longrightarrow>
     fst (cached_compile pattern cache) = re_compile pattern \<and> cache_ok (snd (cached_compile pattern cache))"
  by (cases "map_of cache pattern")
    (fastforce simp: cached_compile_def cache_ok_def dest: map_of_SomeD split: option.splits)+

text \<open>C21: The cache of compiled patterns is transparent: starting from any cache that
  earlier calls can have left, \<open>Match\<close>, \<open>Search\<close> and \<open>ReplaceAll\<close> answer as if every
  pattern were compiled afresh, and leave such a cache.\<close>

theorem cache_transparent:
  assumes "cache_ok cache" and "re_compile pattern = Some r"
  shows "fst (cached_Match pattern s cache) = Some (re_match pattern s) \<and>
     fst (cached_Search pattern s cache) = Some (re_search pattern s) \<and>
     fst (cached_ReplaceAll pattern rep s cache) = Some (re_sub pattern (\<lambda>m. rep) s) \<and>
     cache_ok (snd (cached_Match pattern s cache)) \<and>
     cache_ok (snd (cached_Search pattern s cache)) \<and>
     cache_ok (snd (cached_ReplaceAll pattern rep s cache))"
  using cached_compile_correct [OF assms(1), of pattern] assms(2)
  by (auto simp: cached_Match_def cached_Search_def cached_ReplaceAll_def re_match_def
      re_search_def re_sub_def split: prod.splits)

theorem cache_transparent_witness:
  "fst (cached_Match ''a+'' ''aab'' [(''b'', RChar (CHR ''b''))]) = Some (re_match ''a+'' ''aab'')"
proof -
  have "cache_ok [(''b'', RChar (CHR ''b''))]" by code_simp
  moreover have "re_compile ''a+'' = Some (RRep 1 None True (RChar (CHR ''a'')))" by code_simp
  ultimately show ?thesis using cache_transparent by blast
qed

section \<open>Filters\<close>

definition signed_filters :: "lint \<Rightarrow> bool" where
  "signed_filters g = (\<forall>filt \<in> set (filters (cpplint_state g)). signed_filter filt)"

text \<open>The reference: the last filter that is a prefix of the category decides.\<close>

definition last_matching :: "string \<Rightarrow> string list \<Rightarrow> string option" where
  "last_matching category fs = find (\<lambda>f. startswith category (tl f)) (rev fs)"

definition passes_filters :: "string \<Rightarrow> string list \<Rightarrow> bool" where
  "passes_filters category fs =
     (case last_matching category fs of None \<Rightarrow> True | Some f \<Rightarrow> startswith f ''+'')"

lemma find_append: "find P (xs @ ys) = (case find P xs of None \<Rightarrow> find P ys | Some x \<Rightarrow> Some x)"
  by (induction xs) auto

lemma signed_not_both: "startswith f ''-'' \<Longrightarrow> \<not> startswith f ''+''"
  by (cases f) auto

lemma filter_loop_correct:
  "\<forall>f \<in> set fs. signed_filter f \<Longrightarrow>
     filter_loop category b fs =
       Some (case last_matching category fs of None \<Rightarrow> b | Some f \<Rightarrow> \<not> startswith f ''+'')"
proof (induction category b fs rule: filter_loop.induct)
  case (2 category b f fs)
  then have f: "startswith f ''-'' \<or> startswith f ''+''" by (auto simp: signed_filter_def)
  have "last_matching category (f # fs) =
      (case last_matching category fs of
         None \<Rightarrow> if startswith category (tl f) then Some f else None
       | Some f' \<Rightarrow> Some f')"
    by (simp add: last_matching_def find_append split: option.splits)
  with 2 f show ?case
    by (auto simp: signed_not_both split: option.splits)
qed (simp add: last_matching_def)

text \<open>C6: With well-formed filters an error is printed exactly when no NOLINT comment
  suppresses its category on its line, its confidence reaches the verbosity level, and the
  last filter that is a prefix of its category, if there is one, is a \<open>+\<close> filter; the
  assertion in the loop cannot fail.\<close>

theorem ShouldPrintError_correct:
  assumes "signed_filters g"
  shows "ShouldPrintError category confidence linenum g =
     Some (linenum \<notin> error_suppressions g (Some category) \<and> linenum \<notin> error_suppressions g None \<and>
       verbose_level (cpplint_state g) \<le> confidence \<and>
       passes_filters category (filters (cpplint_state g)))"
  using filter_loop_correct [of "filters (cpplint_state g)" category False] assms
  by (auto simp: ShouldPrintError_def IsErrorSuppressedByNolint_def passes_filters_def
      signed_filters_def split: option.splits)

theorem ShouldPrintError_correct_witness:
  "ShouldPrintError ''build/include_alpha'' 5 3 lint_init = Some False"
proof -
  have "signed_filters lint_init" by code_simp
  moreover have "\<not> passes_filters ''build/include_alpha'' (filters (cpplint_state lint_init))"
    by code_simp
  ultimately show ?thesis using ShouldPrintError_correct by simp
qed

lemma find_None_signed: "find (\<lambda>filt. \<not> signed_filter filt) fs = None \<longleftrightarrow> (\<forall>f \<in> set fs. signed_filter f)"
  by (auto simp: find_None_iff)

text \<open>\<open>SetFilters\<close> and \<open>AddFilters\<close> raise \<open>ValueError\<close> exactly when a filter does not start
  with a sign; when they return, every filter in force is well formed and the filters set
  before still come first.\<close>

theorem AddFilters_outcome:
  "(fst (AddFilters fs st) = None \<longleftrightarrow> list_all signed_filter (filters (snd (AddFilters fs st)))) \<and>
   filters (snd (AddFilters fs st)) =
     filters st @ filter (\<lambda>f. f \<noteq> []) (map strip_bytes (py_split (CHR '','') fs))"
proof -
  let ?new = "filter (\<lambda>filt. filt \<noteq> []) (map strip_bytes (py_split (CHR '','') fs))"
  have f: "filters (snd (AddFilters fs st)) = filters st @ ?new"
    by (simp add: AddFilters_def Let_def split: option.splits)
  have "fst (AddFilters fs st) = None \<longleftrightarrow>
      find (\<lambda>filt. \<not> signed_filter filt) (filters st @ ?new) = None"
    by (simp add: AddFilters_def Let_def split: option.splits)
  then show ?thesis unfolding f find_None_signed by (simp add: list_all_iff)
qed

section \<open>Counting\<close>

lemma sum_update:
  "distinct (map fst m) \<Longrightarrow>
     sum_list (map snd (AList.update k v m)) + (case map_of m k of None \<Rightarrow> 0 | Some n \<Rightarrow> n) =
     sum_list (map snd m) + (v :: nat)"
proof (induction m)
  case (Cons p m)
  show ?case
  proof (cases "fst p = k")
    case True
    with Cons show ?thesis by (cases p) auto
  next
    case False
    with Cons show ?thesis by (cases p) (auto split: option.splits)
  qed
qed simp

lemma sum_bump: "distinct (map fst m) \<Longrightarrow> sum_list (map snd (bump c m)) = Suc (sum_list (map snd m))"
  using sum_update [of m c "Suc (case map_of m c of None \<Rightarrow> 0 | Some n \<Rightarrow> n)"]
  by (simp add: bump_def)

lemma distinct_bump: "distinct (map fst m) \<Longrightarrow> distinct (map fst (bump c m))"
  by (simp add: bump_def distinct_update)

text \<open>The counts by category add up to the total, when errors are counted by category.\<close>

definition counts_agree :: "CppLintState \<Rightarrow> bool" where
  "counts_agree st =
     (distinct (map fst (errors_by_category st)) \<and>
      (counting st \<in> {''toplevel'', ''detailed''} \<longrightarrow>
         sum_list (map snd (errors_by_category st)) = error_count st))"

lemma IncrementErrorCount_fields [simp]:
  "verbose_level (IncrementErrorCount c st) = verbose_level st"
  "filters (IncrementErrorCount c st) = filters st"
  "filters_backup (IncrementErrorCount c st) = filters_backup st"
  "counting (IncrementErrorCount c st) = counting st"
  "output_format (IncrementErrorCount c st) = output_format st"
  "error_count (IncrementErrorCount c st) = Suc (error_count st)"
  by (simp_all add: IncrementErrorCount_def Let_def)

lemma IncrementErrorCount_counts_agree:
  "counts_agree st \<Longrightarrow> counts_agree (IncrementErrorCount category st)"
  by (simp add: counts_agree_def IncrementErrorCount_def Let_def sum_bump distinct_bump)

section \<open>What a check may do\<close>

text \<open>The settings a check leaves alone.\<close>

definition same_settings :: "lint \<Rightarrow> lint \<Rightarrow> bool" where
  "same_settings g g' =
     (root g' = root g \<and> line_length g' = line_length g \<and> valid_extensions g' = valid_extensions g \<and>
      verbose_level (cpplint_state g') = verbose_level (cpplint_state g) \<and>
      filters (cpplint_state g') = filters (cpplint_state g) \<and>
      filters_backup (cpplint_state g') = filters_backup (cpplint_state g) \<and>
      counting (cpplint_state g') = counting (cpplint_state g) \<and>
      output_format (cpplint_state g') = output_format (cpplint_state g))"

text \<open>A step of the linter that only reports: it writes whole messages after those already
  written and counts each of them, keeps the settings and the agreement of the counts, and
  raises nothing as long as the filters are well formed.\<close>

definition reports :: "lint \<Rightarrow> lint \<Rightarrow> bool" where
  "reports g g' =
     (same_settings g g' \<and>
      (\<exists>msgs. stderr g' = stderr g @ msgs \<and>
         error_count (cpplint_state g') = error_count (cpplint_state g) + length msgs) \<and>
      (counts_agree (cpplint_state g) \<longrightarrow> counts_agree (cpplint_state g')) \<and>
      (signed_filters g \<longrightarrow> raised g' = raised g))"

lemma reports_refl [simp]: "reports g g"
  by (simp add: reports_def same_settings_def)

lemma reports_trans: "reports g h \<Longrightarrow> reports h k \<Longrightarrow> reports g k"
  by (fastforce simp: reports_def same_settings_def signed_filters_def)

lemma reports_signed: "reports g h \<Longrightarrow> signed_filters g \<Longrightarrow> signed_filters h"
  by (simp add: reports_def same_settings_def signed_filters_def)

lemma reports_suppress: "reports g (g\<lparr>error_suppressions := e\<rparr>)"
  by (simp add: reports_def same_settings_def)

lemma Error_reports [simp, intro]: "reports g (Error filename linenum category confidence message g)"
proof (cases "ShouldPrintError category confidence linenum g")
  case None
  then have "\<not> signed_filters g"
    using filter_loop_correct [of "filters (cpplint_state g)" category False]
    by (auto simp: ShouldPrintError_def signed_filters_def split: if_splits)
  with None show ?thesis by (simp add: Error_def reports_def same_settings_def)
next
  case (Some b)
  then show ?thesis
    using IncrementErrorCount_counts_agree [of "cpplint_state g" category]
    by (cases b) (simp_all add: Error_def reports_def same_settings_def lift_state_def write_err_def)
qed

text \<open>The contract of the checks, and what follows from it for any run of checks.\<close>

locale lint_check =
  fixes check :: "lint \<Rightarrow> lint"
  assumes check_reports: "reports g (check g)"
begin

lemma check_keeps_filters: "signed_filters g \<Longrightarrow> signed_filters (check g)"
  using check_reports by (rule reports_signed)

lemma check_raises_nothing: "signed_filters g \<Longrightarrow> raised (check g) = raised g"
  using check_reports [of g] by (simp add: reports_def)

lemma check_keeps_output: "\<exists>msgs. stderr (check g) = stderr g @ msgs \<and>
    error_count (cpplint_state (check g)) = error_count (cpplint_state g) + length msgs"
  using check_reports [of g] by (simp add: reports_def)

lemma check_keeps_counts: "counts_agree (cpplint_state g) \<Longrightarrow> counts_agree (cpplint_state (check g))"
  using check_reports [of g] by (simp add: reports_def)

end

lemma ParseNolint_reports [simp, intro]: "reports g (ParseNolintSuppressions filename raw_line linenum g)"
  by (auto simp: ParseNolintSuppressions_def add_suppression_def Let_def reports_suppress
      split: option.splits)

interpretation error: lint_check "Error filename linenum category confidence message"
  by unfold_locales (rule Error_reports)

interpretation nolint: lint_check "ParseNolintSuppressions filename raw_line linenum"
  by unfold_locales (rule ParseNolint_reports)

text \<open>C20: Reporting an error keeps the counts by category in agreement with the total, in
  every counting style, and with well-formed filters it raises nothing.\<close>

theorem Error_keeps_counts:
  assumes "counts_agree (cpplint_state g)" and "signed_filters g"
  shows "counts_agree (cpplint_state (Error filename linenum category confidence message g)) \<and>
     raised (Error filename linenum category confidence message g) = raised g"
  using assms error.check_keeps_counts error.check_raises_nothing by blast

theorem Error_keeps_counts_witness:
  "counts_agree (cpplint_state (Error ''a.cc'' 3 ''build/class'' 5 ''m''
     (lint_init\<lparr>cpplint_state := CppLintState_init\<lparr>counting := ''toplevel''\<rparr>\<rparr>)))"
proof -
  let ?g = "lint_init\<lparr>cpplint_state := CppLintState_init\<lparr>counting := ''toplevel''\<rparr>\<rparr>"
  have "counts_agree (cpplint_state ?g)" by code_simp
  moreover have "signed_filters ?g" by code_simp
  ultimately show ?thesis using Error_keeps_counts by blast
qed

end
