(* ===== verification/Lint_Cleanse.thy ===== *)
theory Lint_Cleanse
  imports Lint_State
begin

text \<open>
  The copies of a source file that the checks of \<^verbatim>\<open>build-support/cpplint.py\<close> read: raw
  strings removed (\<open>CleanseRawStrings\<close>), multi-line comments blanked
  (\<open>RemoveMultiLineComments\<close>), comments dropped (\<open>CleanseComments\<close>), strings collapsed
  (\<open>_CollapseStrings\<close>), and the class \<open>CleansedLines\<close> that holds them. A method call on a
  failed match (\<open>AttributeError\<close>) is the value \<open>None\<close>, and is shown not to occur.
\<close>

section \<open>Strings\<close>

abbreviation empty_literal :: string where "empty_literal \<equiv> [dquote, dquote]"

definition IsCppString :: "string \<Rightarrow> bool" where
  "IsCppString line =
     (let line = py_replace [backslash, backslash] ''XX'' line in
      odd (int (py_count line [dquote]) - int (py_count line [backslash, dquote])
             - int (py_count line [squote, dquote, squote])))"

text \<open>The loop of \<open>CleanseRawStrings\<close> that replaces the raw strings beginning on a line; the
  second result is the delimiter of a raw string that goes on.\<close>

definition raw_open_pattern :: string where
  "raw_open_pattern = raw ''^(.*)`b(?:R|u8R|uR|UR|LR)\"([^`s``()]*)`((.*)$''"

definition raw_prefix_re :: re where
  "raw_prefix_re =
     RAlt (RChar CHR ''R'')
       (RAlt (RCat (RChar CHR ''u'') (RCat (RChar CHR ''8'') (RChar CHR ''R'')))
         (RAlt (RCat (RChar CHR ''u'') (RChar CHR ''R''))
           (RAlt (RCat (RChar CHR ''U'') (RChar CHR ''R''))
             (RCat (RChar CHR ''L'') (RChar CHR ''R'')))))"

definition raw_open_re :: re where
  "raw_open_re =
     RCat RBol
      (RCat (RGroup 1 (RRep 0 None True RAny))
        (RCat (RWordB True)
          (RCat raw_prefix_re
            (RCat (RChar dquote)
              (RCat (RGroup 2 (RRep 0 None True
                      (RSet True [CSpace True, CChar backslash, CChar CHR ''('', CChar CHR '')''])))
                (RCat (RChar CHR ''('')
                  (RCat (RGroup 3 (RRep 0 None True RAny)) REol)))))))"

definition raw_prefixes :: "string list" where
  "raw_prefixes = [''R'', ''u8R'', ''uR'', ''UR'', ''LR'']"

lemma shape_raw_prefix: "shape raw_prefix_re x g g' \<longleftrightarrow> x \<in> set raw_prefixes \<and> g' = g"
  by (auto simp: raw_prefix_re_def raw_prefixes_def)

lemma raw_open_compile: "re_compile raw_open_pattern = Some raw_open_re"
  by code_simp

text \<open>What the pattern of a raw string opening says of the line.\<close>

lemma raw_open_shape:
  assumes "Match raw_open_pattern line = Some m"
  shows "\<exists>x \<in> set raw_prefixes. \<exists>rest.
    line = grp m 1 @ x @ [dquote] @ grp m 2 @ ''('' @ grp m 3 @ rest"
proof -
  from assms have "match_at raw_open_re [] line = Some m"
    by (simp add: re_match_def raw_open_compile)
  from match_at_shape [OF this] obtain x w1 w2 w3 k1 k2 k3 where
    "line = w1 @ x @ [dquote] @ w2 @ ''('' @ w3 @ m_rest m" "x \<in> set raw_prefixes"
    "m_caps m = [(3, k3, w3), (2, k2, w2), (1, k1, w1)]"
    unfolding raw_open_re_def by (auto simp: shape_raw_prefix)
  then show ?thesis by (intro bexI [of _ x] exI [of _ "m_rest m"]) (simp_all add: group_simps)
qed

lemma raw_open_length:
  assumes "Match raw_open_pattern line = Some m"
  shows "length (grp m 1) + length (grp m 2) + length (grp m 3) + 3 \<le> length line"
  using raw_open_shape [OF assms] by (auto simp: raw_prefixes_def)

lemma py_find_drop_length: "py_find s sub = Some e \<Longrightarrow> length (drop (e + length sub) s) + length sub \<le> length s"
  using py_find_Some [of s sub e] by (auto dest: startswith_length)

function raw_loop :: "string \<Rightarrow> string \<times> string option" where
  "raw_loop line =
     (case Match raw_open_pattern line of
        None \<Rightarrow> (line, None)
      | Some matched \<Rightarrow>
          (let delimiter = '')'' @ grp matched 2 @ [dquote] in
           case py_find (grp matched 3) delimiter of
             Some e \<Rightarrow>
               raw_loop (grp matched 1 @ empty_literal @ drop (e + length delimiter) (grp matched 3))
           | None \<Rightarrow> (grp matched 1 @ empty_literal, Some delimiter)))"
  by pat_completeness auto
termination
  by (relation "measure length") (auto dest: raw_open_length py_find_drop_length)

text \<open>One line of \<open>CleanseRawStrings\<close>: the delimiter that is open before it, the line, and
  the line made of it with the delimiter open after it.\<close>

definition raw_line :: "string option \<Rightarrow> string \<Rightarrow> (string \<times> string option) option" where
  "raw_line delimiter line =
     (case delimiter of
        None \<Rightarrow> Some (raw_loop line)
      | Some d \<Rightarrow>
          (case py_find line d of
             None \<Rightarrow> Some (empty_literal, Some d)
           | Some e \<Rightarrow>
               (case Match (raw ''^(`s*)`S'') line of
                  None \<Rightarrow> None
                | Some leading_space \<Rightarrow>
                    Some (raw_loop (grp leading_space 1 @ empty_literal @
                            drop (e + length d) line)))))"

fun raw_lines_loop :: "string option \<Rightarrow> string list \<Rightarrow> string list option" where
  "raw_lines_loop delimiter [] = Some []"
| "raw_lines_loop delimiter (line # lines) =
     (case raw_line delimiter line of
        None \<Rightarrow> None
      | Some (line', delimiter') \<Rightarrow>
          map_option (\<lambda>ls. line' # ls) (raw_lines_loop delimiter' lines))"

definition CleanseRawStrings :: "string list \<Rightarrow> string list option" where
  "CleanseRawStrings = raw_lines_loop None"

section \<open>Comments\<close>

function FindNextMultiLineCommentStart :: "string list \<Rightarrow> nat \<Rightarrow> nat" where
  "FindNextMultiLineCommentStart lines lineix =
     (if lineix < length lines then
        if startswith (py_strip (lines ! lineix)) ''/*'' \<and>
           py_find (drop 2 (py_strip (lines ! lineix))) ''*/'' = None
        then lineix
        else FindNextMultiLineCommentStart lines (lineix + 1)
      else length lines)"
  by pat_completeness auto
termination by (relation "measure (\<lambda>(lines, lineix). length lines - lineix)") auto

function FindNextMultiLineCommentEnd :: "string list \<Rightarrow> nat \<Rightarrow> nat" where
  "FindNextMultiLineCommentEnd lines lineix =
     (if lineix < length lines then
        if endswith (py_strip (lines ! lineix)) ''*/'' then lineix
        else FindNextMultiLineCommentEnd lines (lineix + 1)
      else length lines)"
  by pat_completeness auto
termination by (relation "measure (\<lambda>(lines, lineix). length lines - lineix)") auto

definition RemoveMultiLineCommentsFromRange :: "string list \<Rightarrow> nat \<Rightarrow> nat \<Rightarrow> string list" where
  "RemoveMultiLineCommentsFromRange lines begin end =
     fold (\<lambda>i ls. ls[i := ''/**/'']) [begin..<end] lines"

lemma FindStart_bounds:
  "lineix \<le> length lines \<Longrightarrow>
     lineix \<le> FindNextMultiLineCommentStart lines lineix \<and>
     FindNextMultiLineCommentStart lines lineix \<le> length lines"
  by (induction lines lineix rule: FindNextMultiLineCommentStart.induct)
    (subst (1 2) FindNextMultiLineCommentStart.simps, fastforce)

lemma FindEnd_bounds:
  "lineix \<le> length lines \<Longrightarrow>
     lineix \<le> FindNextMultiLineCommentEnd lines lineix \<and>
     FindNextMultiLineCommentEnd lines lineix \<le> length lines"
  by (induction lines lineix rule: FindNextMultiLineCommentEnd.induct)
    (subst (1 2) FindNextMultiLineCommentEnd.simps, fastforce)

declare FindNextMultiLineCommentStart.simps [simp del] FindNextMultiLineCommentEnd.simps [simp del]

lemma length_RemoveRange [simp]:
  "length (RemoveMultiLineCommentsFromRange lines begin end) = length lines"
proof -
  have "length (fold (\<lambda>i ls. ls[i := x]) is lines) = length lines" for "is" and x :: string
    by (induction "is" arbitrary: lines) auto
  then show ?thesis by (simp add: RemoveMultiLineCommentsFromRange_def)
qed

function RemoveMultiLineComments_loop ::
    "string \<Rightarrow> string list \<Rightarrow> nat \<Rightarrow> lint \<Rightarrow> string list \<times> lint" where
  "RemoveMultiLineComments_loop filename lines lineix g =
     (if lineix < length lines then
        (let lineix_begin = FindNextMultiLineCommentStart lines lineix in
         if lineix_begin \<ge> length lines then (lines, g)
         else
           (let lineix_end = FindNextMultiLineCommentEnd lines lineix_begin in
            if lineix_end \<ge> length lines then
              (lines, Error filename (int lineix_begin + 1) ''readability/multiline_comment'' 5
                        ''Could not find end of multi-line comment'' g)
            else
              RemoveMultiLineComments_loop filename
                (RemoveMultiLineCommentsFromRange lines lineix_begin (lineix_end + 1))
                (lineix_end + 1) g))
      else (lines, g))"
  by pat_completeness auto
termination
proof (relation "measure (\<lambda>(filename, lines, lineix, g). length lines - lineix)", goal_cases)
  case (2 filename lines lineix g b e)
  have "lineix \<le> e"
    using 2 FindStart_bounds [of lineix lines] FindEnd_bounds [of b lines] by simp
  with 2 show ?case by simp
qed simp

definition RemoveMultiLineComments :: "string \<Rightarrow> string list \<Rightarrow> lint \<Rightarrow> string list \<times> lint" where
  "RemoveMultiLineComments filename lines g = RemoveMultiLineComments_loop filename lines 0 g"

definition RE_PATTERN_C_COMMENTS :: string where
  "RE_PATTERN_C_COMMENTS = raw ''/`*(?:[^*]|`*(?!/))*`*/''"

definition RE_PATTERN_CLEANSE_LINE_C_COMMENTS :: string where
  "RE_PATTERN_CLEANSE_LINE_C_COMMENTS =
     raw ''(`s*'' @ RE_PATTERN_C_COMMENTS @ raw ''`s*$|'' @
     RE_PATTERN_C_COMMENTS @ raw ''`s+|'' @
     raw ''`s+'' @ RE_PATTERN_C_COMMENTS @ raw ''(?=`W)|'' @
     RE_PATTERN_C_COMMENTS @ '')''"

definition CleanseComments :: "string \<Rightarrow> string" where
  "CleanseComments line =
     (let line =
        (case py_find line ''//'' of
           None \<Rightarrow> line
         | Some commentpos \<Rightarrow>
             if \<not> IsCppString (take commentpos line) then py_rstrip (take commentpos line) else line)
      in re_sub RE_PATTERN_CLEANSE_LINE_C_COMMENTS (\<lambda>m. []) line)"

section \<open>Collapsing strings\<close>

definition RE_PATTERN_INCLUDE :: string where
  "RE_PATTERN_INCLUDE = raw ''^`s*#`s*include`s*([<\"])([^>\"]*)[>\"].*$''"

definition RE_PATTERN_CLEANSE_LINE_ESCAPES :: string where
  "RE_PATTERN_CLEANSE_LINE_ESCAPES = raw ''``([abfnrtv?\"``'' @ [squote] @ raw '']|`d+|x[0-9a-fA-F]+)''"

definition quote_pattern :: string where
  "quote_pattern = ''^([^'' @ [squote, dquote] @ '']*)(['' @ [squote, dquote] @ ''])(.*)$''"

definition number_pattern :: string where
  "number_pattern = raw ''`b(?:0[bBxX]?|[1-9])[0-9a-fA-F]*$''"

definition literal_pattern :: string where
  "literal_pattern = ''^((?:'' @ [squote] @ ''?[0-9a-zA-Z_])*)(.*)$''"

definition quote_re :: re where
  "quote_re =
     RCat RBol
      (RCat (RGroup 1 (RRep 0 None True (RSet True [CChar squote, CChar dquote])))
        (RCat (RGroup 2 (RSet False [CChar squote, CChar dquote]))
          (RCat (RGroup 3 (RRep 0 None True RAny)) REol)))"

lemma quote_compile: "re_compile quote_pattern = Some quote_re"
  by code_simp

lemma quote_shape:
  assumes "Match quote_pattern s = Some m"
  shows "\<exists>q rest. s = grp m 1 @ [q] @ grp m 3 @ rest \<and> grp m 2 = [q] \<and> (q = squote \<or> q = dquote) \<and>
    newline \<notin> set (grp m 3)"
proof -
  from re_match_shape [OF assms quote_compile] obtain q w1 w3 k1 k2 k3 where
    "s = w1 @ [q] @ w3 @ m_rest m" "in_set False [CChar squote, CChar dquote] q" "newline \<notin> set w3"
    "m_caps m = [(3, k3, w3), (2, k2, [q]), (1, k1, w1)]"
    unfolding quote_re_def by auto
  then show ?thesis by (intro exI [of _ q] exI [of _ "m_rest m"]) (simp add: group_simps)
qed

definition hex_items :: "citem list" where
  "hex_items = [CRange CHR ''0'' CHR ''9'', CRange CHR ''a'' CHR ''f'', CRange CHR ''A'' CHR ''F'']"

definition number_re :: re where
  "number_re =
     RCat (RWordB True)
      (RCat (RAlt (RCat (RChar CHR ''0'')
                    (RRep 0 (Some 1) True
                       (RSet False [CChar CHR ''b'', CChar CHR ''B'', CChar CHR ''x'', CChar CHR ''X''])))
               (RSet False [CRange CHR ''1'' CHR ''9'']))
        (RCat (RRep 0 None True (RSet False hex_items)) REol))"

lemma number_compile: "re_compile number_pattern = Some number_re"
  by code_simp

lemma number_found_nonempty: "found number_pattern s \<Longrightarrow> s \<noteq> []"
  using re_search_shape [OF _ number_compile, of s]
  by (auto simp: number_re_def Cons_eq_append_conv append_eq_Cons_conv)

definition literal_re :: re where
  "literal_re =
     RCat RBol
      (RCat (RGroup 1 (RRep 0 None True
               (RCat (RRep 0 (Some 1) True (RChar squote))
                 (RSet False [CRange CHR ''0'' CHR ''9'', CRange CHR ''a'' CHR ''z'',
                              CRange CHR ''A'' CHR ''Z'', CChar CHR ''_'']))))
        (RCat (RGroup 2 (RRep 0 None True RAny)) REol))"

lemma literal_compile: "re_compile literal_pattern = Some literal_re"
  by code_simp

lemma literal_shape:
  assumes "Match literal_pattern s = Some m"
  shows "\<exists>rest. s = grp m 1 @ grp m 2 @ rest"
  using re_match_shape [OF assms literal_compile]
  by (auto simp: literal_re_def group_simps shape.simps(10))

text \<open>The loop of \<open>_CollapseStrings\<close>.\<close>

function collapse_loop :: "string \<Rightarrow> string \<Rightarrow> string option" where
  "collapse_loop collapsed elided =
     (case Match quote_pattern elided of
        None \<Rightarrow> Some (collapsed @ elided)
      | Some m \<Rightarrow>
          (let head = grp m 1; quote = grp m 2; tail = grp m 3 in
           if quote = [dquote] then
             (case py_find tail [dquote] of
                Some second_quote \<Rightarrow>
                  collapse_loop (collapsed @ head @ empty_literal) (drop (second_quote + 1) tail)
              | None \<Rightarrow> Some (collapsed @ elided))
           else if found number_pattern head then
             (case Match literal_pattern (squote # tail) of
                None \<Rightarrow> None
              | Some match_literal \<Rightarrow>
                  collapse_loop (collapsed @ head @ py_replace [squote] [] (grp match_literal 1))
                    (grp match_literal 2))
           else
             (case py_find tail [squote] of
                Some second_quote \<Rightarrow>
                  collapse_loop (collapsed @ head @ [squote, squote]) (drop (second_quote + 1) tail)
              | None \<Rightarrow> Some (collapsed @ elided))))"
  by pat_completeness auto
termination
proof (relation "measure (\<lambda>(collapsed, elided). length elided)", goal_cases)
  case (2 collapsed elided m head quote tail second_quote)
  then show ?case using quote_shape [of elided m] by auto
next
  case (3 collapsed elided m head quote tail match_literal)
  from 3 quote_shape [of elided m] obtain q rest where
    e: "elided = head @ [q] @ tail @ rest" by auto
  moreover from 3 have "head \<noteq> []" using number_found_nonempty by blast
  moreover from 3 literal_shape [of "squote # tail" match_literal]
  have "length (grp match_literal 2) \<le> Suc (length tail)"
    by (metis length_append length_Cons le_add1 le_add2 order_trans)
  ultimately show ?case by (cases head) auto
next
  case (4 collapsed elided m head quote tail second_quote)
  then show ?case using quote_shape [of elided m] by auto
qed simp

declare collapse_loop.simps [simp del]

definition CollapseStrings :: "string \<Rightarrow> string option" where
  "CollapseStrings elided =
     (if matches RE_PATTERN_INCLUDE elided then Some elided
      else collapse_loop [] (re_sub RE_PATTERN_CLEANSE_LINE_ESCAPES (\<lambda>m. []) elided))"

section \<open>The class \<open>CleansedLines\<close>\<close>

record CleansedLines =
  elided :: "string list"
  lines :: "string list"
  raw_lines :: "string list"
  num_lines :: nat
  lines_without_raw_strings :: "string list"

fun elide_lines :: "string list \<Rightarrow> string list option" where
  "elide_lines [] = Some []"
| "elide_lines (line # ls) =
     (case CollapseStrings line of
        None \<Rightarrow> None
      | Some e \<Rightarrow> map_option (\<lambda>es. CleanseComments e # es) (elide_lines ls))"

definition CleansedLines_init :: "string list \<Rightarrow> CleansedLines option" where
  "CleansedLines_init ls =
     (case CleanseRawStrings ls of
        None \<Rightarrow> None
      | Some without_raw \<Rightarrow>
          map_option (\<lambda>es. \<lparr>elided = es, lines = map CleanseComments without_raw, raw_lines = ls,
                        num_lines = length ls, lines_without_raw_strings = without_raw\<rparr>)
            (elide_lines without_raw))"

definition NumLines :: "CleansedLines \<Rightarrow> nat" where
  "NumLines cl = num_lines cl"

section \<open>Matches that cannot fail\<close>

lemma rep_opt_self: "st \<in> set (rep_opt f greedy n st)"
  by (cases n) (auto simp: Let_def)

lemma re_rep_self: "st \<in> set (re_rep f 0 hi greedy st)"
  by (simp add: re_rep_def rep_opt_self)

text \<open>\<open>(.*)$\<close> matches any text without a line break.\<close>

lemma rest_of_line:
  assumes "newline \<notin> set s"
  shows "re_run (RCat (RGroup n (RRep 0 None True RAny)) REol) (p, s, g) \<noteq> []"
proof -
  have "takeWhile (\<lambda>d. d \<noteq> newline) s = s" and "dropWhile (\<lambda>d. d \<noteq> newline) s = []"
    using assms by (auto simp: takeWhile_eq_all_conv dropWhile_eq_Nil_conv)
  with re_rep_eat [of "\<lambda>d. d \<noteq> newline" p s g]
  obtain xs where "re_rep (eat (\<lambda>d. d \<noteq> newline)) 0 None True (p, s, g) = (rev s @ p, [], g) # xs"
    by auto
  then show ?thesis by simp
qed

lemma literal_matches: "newline \<notin> set s \<Longrightarrow> Match literal_pattern s \<noteq> None"
proof -
  assume s: "newline \<notin> set s"
  let ?r = "RRep 0 None True (RCat (RRep 0 (Some 1) True (RChar squote))
      (RSet False [CRange CHR ''0'' CHR ''9'', CRange CHR ''a'' CHR ''z'',
                   CRange CHR ''A'' CHR ''Z'', CChar CHR ''_'']))"
  have "([], s, []) \<in> set (re_run ?r ([], s, []))" by (simp add: re_rep_self)
  then have "([], s, [(1, 0, [])]) \<in> set (re_run (RGroup 1 ?r) ([], s, []))" by force
  with rest_of_line [OF s, of 2 "[]" "[(1, 0, [])]"]
  have "re_run literal_re ([], s, []) \<noteq> []"
    unfolding literal_re_def by (simp del: re_run.simps(10,11)) blast
  then show ?thesis
    by (auto simp: re_match_def literal_compile match_at_def split: list.splits)
qed

definition leading_re :: re where
  "leading_re = RCat RBol (RCat (RGroup 1 (RRep 0 None True (RSet False [CSpace True])))
     (RSet False [CSpace False]))"

lemma leading_compile: "re_compile (raw ''^(`s*)`S'') = Some leading_re"
  by code_simp

lemma leading_matches:
  assumes "c \<in> set s" and "\<not> re_space c"
  shows "Match (raw ''^(`s*)`S'') s \<noteq> None"
proof -
  have sp: "in_set False [CSpace True] = re_space" by (auto simp: in_set_def)
  obtain xs where r: "re_rep (eat re_space) 0 None True ([], s, []) =
      (rev (takeWhile re_space s), dropWhile re_space s, []) # xs"
    using re_rep_eat [of re_space "[]" s "[]"] by auto
  from assms obtain d t where d: "dropWhile re_space s = d # t" and "\<not> re_space d"
    by (metis dropWhile_eq_Nil_conv hd_dropWhile list.collapse)
  with r have "re_run leading_re ([], s, []) \<noteq> []"
    by (simp add: leading_re_def sp in_set_def)
  then show ?thesis
    unfolding re_match_def leading_compile by (auto simp: match_at_def split: list.splits)
qed

declare raw_loop.simps [simp del]

lemma raw_loop_delimiter: "raw_loop line = (line', Some d) \<Longrightarrow> \<exists>w. d = '')'' @ w"
proof (induction line rule: raw_loop.induct)
  case (1 line)
  then show ?case by (subst (asm) raw_loop.simps) (auto split: option.splits simp: Let_def)
qed

lemma raw_line_total:
  assumes "\<forall>d. delimiter = Some d \<longrightarrow> (\<exists>w. d = '')'' @ w)"
  shows "\<exists>line' d'. raw_line delimiter line = Some (line', d') \<and>
    (\<forall>d. d' = Some d \<longrightarrow> (\<exists>w. d = '')'' @ w))"
proof (cases delimiter)
  case None
  then show ?thesis by (cases "raw_loop line") (auto simp: raw_line_def dest: raw_loop_delimiter)
next
  case (Some d)
  with assms obtain w where w: "d = '')'' @ w" by blast
  show ?thesis
  proof (cases "py_find line d")
    case None
    with Some w show ?thesis by (auto simp: raw_line_def)
  next
    case (Some e)
    from py_find_Some [OF Some] w have "CHR '')'' \<in> set line"
      by (metis append_Cons in_set_conv_decomp)
    then have "Match (raw ''^(`s*)`S'') line \<noteq> None"
      by (rule leading_matches) (simp add: re_space_def)
    then obtain m where m: "Match (raw ''^(`s*)`S'') line = Some m" by blast
    obtain l' d' where "raw_loop (grp m 1 @ empty_literal @ drop (e + length d) line) = (l', d')"
      by fastforce
    with Some \<open>delimiter = Some d\<close> m show ?thesis
      by (auto simp: raw_line_def dest: raw_loop_delimiter)
  qed
qed

lemma raw_lines_loop_total:
  assumes "\<forall>d. delimiter = Some d \<longrightarrow> (\<exists>w. d = '')'' @ w)"
  shows "\<exists>ls'. raw_lines_loop delimiter ls = Some ls' \<and> length ls' = length ls"
  using assms
proof (induction delimiter ls rule: raw_lines_loop.induct)
  case (2 delimiter line ls)
  from raw_line_total [OF 2(2), of line] obtain line' d' where
    l: "raw_line delimiter line = Some (line', d')" and "\<forall>d. d' = Some d \<longrightarrow> (\<exists>w. d = '')'' @ w)"
    by blast
  with 2(1) [OF l] show ?case by auto
qed simp

lemma collapse_loop_total: "collapse_loop collapsed el \<noteq> None"
proof (induction collapsed el rule: collapse_loop.induct)
  case (1 collapsed el)
  show ?case
  proof (cases "Match quote_pattern el")
    case (Some m)
    note ih = 1 [OF Some refl refl refl]
    from quote_shape [OF Some] literal_matches [of "squote # grp m 3"] obtain l where
      l: "Match literal_pattern (squote # grp m 3) = Some l" by auto
    show ?thesis
    proof (cases "grp m 2 = [dquote]")
      case True
      with ih(1) show ?thesis
        by (subst collapse_loop.simps) (simp add: Some Let_def split: option.split del: not_None_eq)
    next
      case False
      with ih(2,3) l show ?thesis
        by (subst collapse_loop.simps) (simp add: Some Let_def split: option.split del: not_None_eq)
    qed
  qed (subst collapse_loop.simps, simp)
qed

lemma CollapseStrings_total: "CollapseStrings line \<noteq> None"
  by (simp add: CollapseStrings_def collapse_loop_total del: not_None_eq)

lemma elide_lines_total: "\<exists>es. elide_lines ls = Some es \<and> length es = length ls"
proof (induction ls)
  case (Cons line ls)
  then show ?case
    using CollapseStrings_total [of line] by auto
qed simp

text \<open>C22: For every file, whatever it holds, \<open>CleansedLines\<close> is built without an error and
  without looping, and its four copies have one line for each line of the file.\<close>

theorem CleansedLines_copies:
  "\<exists>cl. CleansedLines_init ls = Some cl \<and> raw_lines cl = ls \<and> NumLines cl = length ls \<and>
     length (elided cl) = length ls \<and> length (lines cl) = length ls \<and>
     length (lines_without_raw_strings cl) = length ls"
proof -
  from raw_lines_loop_total [of None ls] obtain rs where
    "CleanseRawStrings ls = Some rs" and "length rs = length ls"
    by (auto simp: CleanseRawStrings_def)
  with elide_lines_total [of rs] show ?thesis
    by (auto simp: CleansedLines_init_def NumLines_def)
qed

section \<open>What the checks see of a string\<close>

lemma re_rep_eat_stop:
  assumes "\<forall>c \<in> set w. P c" and "\<not> P d"
  shows "\<exists>xs. re_rep (eat P) 0 None True (p, w @ d # t, g) = (rev w @ p, d # t, g) # xs"
proof -
  have "takeWhile P (w @ d # t) = w" and "dropWhile P (w @ d # t) = d # t"
    using assms by (auto simp: takeWhile_append2 dropWhile_append2)
  with re_rep_eat [of P p "w @ d # t" g] show ?thesis by auto
qed

lemma quote_match:
  assumes "squote \<notin> set head" "dquote \<notin> set head" "newline \<notin> set tail" "q \<in> {squote, dquote}"
  shows "\<exists>m. Match quote_pattern (head @ q # tail) = Some m \<and>
    grp m 1 = head \<and> grp m 2 = [q] \<and> grp m 3 = tail"
proof -
  let ?P = "in_set True [CChar squote, CChar dquote]"
  have P: "\<forall>c \<in> set head. ?P c" "\<not> ?P q" using assms by (auto simp: in_set_def)
  from re_rep_eat_stop [OF P, of "[]" tail "[]"] obtain xs where
    h: "re_rep (eat ?P) 0 None True ([], head @ q # tail, []) = (rev head, q # tail, []) # xs"
    by auto
  have "takeWhile (\<lambda>d. d \<noteq> newline) tail = tail" and "dropWhile (\<lambda>d. d \<noteq> newline) tail = []"
    using assms(3) by (auto simp: takeWhile_eq_all_conv dropWhile_eq_Nil_conv)
  with re_rep_eat [of "\<lambda>d. d \<noteq> newline" "q # rev head" tail] have
    t: "\<exists>ys. re_rep (eat (\<lambda>d. d \<noteq> newline)) 0 None True (q # rev head, tail, g) =
         (rev tail @ q # rev head, [], g) # ys" for g
    by auto
  obtain ys where
    "re_rep (eat (\<lambda>d. d \<noteq> newline)) 0 None True
       (q # rev head, tail, [(2, length head, [q]), (1, 0, head)]) =
     (rev tail @ q # rev head, [], [(2, length head, [q]), (1, 0, head)]) # ys"
    using t by blast
  with h assms(4) show ?thesis
    by (auto simp: re_match_def quote_compile match_at_def quote_re_def mat_of_def in_set_def
        grp_def m_group_def)
qed

lemma py_find_first: "c \<notin> set w \<Longrightarrow> py_find (w @ c # t) [c] = Some (length w)"
  by (induction w) auto

lemma collapse_string:
  assumes "squote \<notin> set head" "dquote \<notin> set head" "dquote \<notin> set body" "newline \<notin> set body"
    "newline \<notin> set tail"
  shows "collapse_loop collapsed (head @ [dquote] @ body @ [dquote] @ tail) =
    collapse_loop (collapsed @ head @ empty_literal) tail"
proof -
  from quote_match [of head "body @ dquote # tail" dquote] assms obtain m where
    "Match quote_pattern (head @ dquote # body @ dquote # tail) = Some m"
    "grp m 1 = head" "grp m 2 = [dquote]" "grp m 3 = body @ dquote # tail"
    by auto
  with py_find_first [OF assms(3), of tail] show ?thesis
    by (subst collapse_loop.simps) simp
qed

text \<open>The characters of a literal: plain ones, and the escapes of a backslash and one character.\<close>

datatype lit_char = Plain char | Escape char

fun lit_char_text :: "lit_char \<Rightarrow> string" where
  "lit_char_text (Plain c) = [c]"
| "lit_char_text (Escape c) = [backslash, c]"

fun plain_chars :: "lit_char \<Rightarrow> string" where
  "plain_chars (Plain c) = [c]"
| "plain_chars (Escape c) = []"

definition escape_chars :: "char list" where
  "escape_chars = ''abfnrtv?'' @ [dquote, backslash, squote]"

fun escape_ok :: "lit_char \<Rightarrow> bool" where
  "escape_ok (Plain c) = (c \<noteq> backslash)"
| "escape_ok (Escape c) = (c \<in> set escape_chars)"

definition escapes_re :: re where
  "escapes_re =
     RCat (RChar backslash)
      (RGroup 1
        (RAlt (RSet False (map CChar escape_chars))
          (RAlt (RRep 1 None True (RSet False [CDigit True]))
            (RCat (RChar (CHR ''x'')) (RRep 1 None True (RSet False hex_items))))))"

lemma escapes_compile: "re_compile RE_PATTERN_CLEANSE_LINE_ESCAPES = Some escapes_re"
  by code_simp

lemma escapes_no_match: "c \<noteq> backslash \<Longrightarrow> match_at escapes_re p (c # s) = None"
  by (simp add: match_at_def escapes_re_def)

lemma escapes_match:
  assumes "c \<in> set escape_chars"
  shows "\<exists>m. match_at escapes_re p (backslash # c # s) = Some m \<and> m_text m = [backslash, c]"
proof -
  have "in_set False (map CChar escape_chars) c" using assms by (auto simp: in_set_def escape_chars_def)
  then show ?thesis by (simp add: match_at_def escapes_re_def mat_of_def)
qed

lemma sub_escapes:
  "list_all escape_ok toks \<Longrightarrow>
     sub_at escapes_re (\<lambda>m. []) p (concat (map lit_char_text toks)) = concat (map plain_chars toks)"
proof (induction toks arbitrary: p)
  case (Cons x toks)
  show ?case
  proof (cases x)
    case (Plain c)
    with Cons show ?thesis by (simp add: escapes_no_match)
  next
    case (Escape c)
    with Cons.prems escapes_match obtain m where
      "match_at escapes_re p (backslash # c # concat (map lit_char_text toks)) = Some m" "m_text m = [backslash, c]"
      by fastforce
    with Escape Cons show ?thesis by simp
  qed
qed simp

text \<open>A line of code with literals: the code before each literal, its quote and its characters, and the code after the
  last one.\<close>

type_synonym literal = "string \<times> char \<times> lit_char list"

fun line_tokens :: "literal list \<Rightarrow> string \<Rightarrow> lit_char list" where
  "line_tokens [] t = map Plain t"
| "line_tokens ((h, q, b) # ls) t = map Plain h @ Plain q # b @ Plain q # line_tokens ls t"

definition literal_line :: "literal list \<Rightarrow> string \<Rightarrow> string" where
  "literal_line ls t = concat (map lit_char_text (line_tokens ls t))"

fun collapsed_line :: "literal list \<Rightarrow> string \<Rightarrow> string" where
  "collapsed_line [] t = t"
| "collapsed_line ((h, q, b) # ls) t = h @ [q, q] @ collapsed_line ls t"

definition plain_code :: "string \<Rightarrow> bool" where
  "plain_code h \<longleftrightarrow> squote \<notin> set h \<and> dquote \<notin> set h \<and> backslash \<notin> set h \<and> newline \<notin> set h"

fun literal_ok :: "literal \<Rightarrow> bool" where
  "literal_ok (h, q, b) \<longleftrightarrow> plain_code h \<and> (q = dquote \<or> q = squote \<and> \<not> found number_pattern h) \<and>
     list_all escape_ok b \<and> Plain q \<notin> set b \<and> Plain newline \<notin> set b"

lemma line_tokens_ok:
  "list_all literal_ok ls \<Longrightarrow> plain_code t \<Longrightarrow> list_all escape_ok (line_tokens ls t)"
  by (induction ls t rule: line_tokens.induct) (auto simp: plain_code_def list_all_iff)

lemma line_tokens_newline:
  "list_all literal_ok ls \<Longrightarrow> plain_code t \<Longrightarrow> Plain newline \<notin> set (line_tokens ls t)"
  by (induction ls t rule: line_tokens.induct) (auto simp: plain_code_def)

lemma plain_chars_map [simp]: "concat (map (plain_chars \<circ> Plain) h) = h"
  by (induction h) auto

lemma in_plain_chars: "c \<in> set (concat (map plain_chars b)) \<longleftrightarrow> Plain c \<in> set b"
proof (induction b)
  case (Cons x b)
  then show ?case by (cases x) auto
qed simp

lemma collapse_char:
  assumes "plain_code h" "\<not> found number_pattern h" "squote \<notin> set body" "newline \<notin> set body" "newline \<notin> set tail"
  shows "collapse_loop collapsed (h @ [squote] @ body @ [squote] @ tail) =
    collapse_loop (collapsed @ h @ [squote, squote]) tail"
proof -
  from quote_match [of h "body @ squote # tail" squote] assms obtain m where
    "Match quote_pattern (h @ squote # body @ squote # tail) = Some m"
    "grp m 1 = h" "grp m 2 = [squote]" "grp m 3 = body @ squote # tail"
    by (auto simp: plain_code_def)
  with py_find_first [OF assms(3), of tail] assms(2) show ?thesis
    by (subst collapse_loop.simps) simp
qed

lemma collapse_tokens:
  assumes "list_all literal_ok ls" and "plain_code t"
  shows "collapse_loop collapsed (concat (map plain_chars (line_tokens ls t))) = Some (collapsed @ collapsed_line ls t)"
  using assms(1)
proof (induction ls arbitrary: collapsed)
  case Nil
  have "Match quote_pattern t = None"
    using quote_shape [of t] assms(2) by (cases "Match quote_pattern t") (auto simp: plain_code_def)
  then show ?case by (subst collapse_loop.simps) simp
next
  case (Cons l ls)
  obtain h q b where l: "l = (h, q, b)" by (cases l)
  let ?body = "concat (map plain_chars b)" and ?tail = "concat (map plain_chars (line_tokens ls t))"
  have ok: "literal_ok (h, q, b)" and ls: "list_all literal_ok ls" using Cons.prems l by simp_all
  have tail: "newline \<notin> set ?tail"
    using line_tokens_newline [OF ls assms(2)] by (simp only: in_plain_chars not_False_eq_True)
  have "q \<notin> set ?body" "newline \<notin> set ?body" using ok by (simp_all only: in_plain_chars literal_ok.simps not_False_eq_True)
  with ok tail have "collapse_loop collapsed (h @ [q] @ ?body @ [q] @ ?tail) = collapse_loop (collapsed @ h @ [q, q]) ?tail"
    using collapse_string [of h ?body ?tail collapsed] collapse_char [of h ?body ?tail collapsed]
    by (auto simp: plain_code_def)
  with Cons.IH [OF ls] show ?case by (simp add: l)
qed

text \<open>C24: The checks that read the collapsed lines see no text of a literal. A line of code with any number of
  string and character literals, whose texts may have escapes such as \<^verbatim>\<open>\"\<close>, collapses to the same code with
  an empty literal in the place of each, and nothing else is changed. Needed: code without quotes and backslashes
  between the literals, no character literal right behind a number (where a quote separates digits), and not an
  include line, which is left as it is.\<close>

theorem CollapseStrings_literals:
  assumes "list_all literal_ok ls" and "plain_code t" and "\<not> matches RE_PATTERN_INCLUDE (literal_line ls t)"
  shows "CollapseStrings (literal_line ls t) = Some (collapsed_line ls t)"
  using collapse_tokens [OF assms(1,2), of "[]"] sub_escapes [OF line_tokens_ok [OF assms(1,2)]] assms(3)
  by (simp add: CollapseStrings_def re_sub_def escapes_compile literal_line_def)

theorem CollapseStrings_literals_witness:
  "CollapseStrings (''f('' @ [dquote] @ ''if (x) '' @ [backslash, dquote] @ '';'' @ [dquote, CHR '','', squote, backslash, squote, squote] @ '');'') =
   Some (''f('' @ [dquote, dquote, CHR '','', squote, squote] @ '');'')"
proof -
  let ?ls = "[(''f('', dquote, map Plain ''if (x) '' @ [Escape dquote, Plain (CHR '';'')]), ('','', squote, [Escape squote])]"
  have "list_all literal_ok ?ls" "plain_code '');''" "\<not> matches RE_PATTERN_INCLUDE (literal_line ?ls '');'')"
    by code_simp+
  from CollapseStrings_literals [OF this] show ?thesis by (simp add: literal_line_def)
qed

section \<open>Multi-line comments\<close>

definition opens_comment :: "string \<Rightarrow> bool" where
  "opens_comment line \<longleftrightarrow>
     startswith (py_strip line) ''/*'' \<and> py_find (drop 2 (py_strip line)) ''*/'' = None"

definition closes_comment :: "string \<Rightarrow> bool" where
  "closes_comment line \<longleftrightarrow> endswith (py_strip line) ''*/''"

lemma FindStart_spec:
  "lineix \<le> length ls \<Longrightarrow> FindNextMultiLineCommentStart ls lineix = b \<Longrightarrow>
     lineix \<le> b \<and> b \<le> length ls \<and> (\<forall>i. lineix \<le> i \<longrightarrow> i < b \<longrightarrow> \<not> opens_comment (ls ! i)) \<and>
     (b < length ls \<longrightarrow> opens_comment (ls ! b))"
proof (induction ls lineix rule: FindNextMultiLineCommentStart.induct)
  case (1 ls lineix)
  note eq = FindNextMultiLineCommentStart.simps [of ls lineix]
  show ?case
  proof (cases "lineix < length ls \<and> \<not> opens_comment (ls ! lineix)")
    case True
    with 1(3) have "FindNextMultiLineCommentStart ls (lineix + 1) = b"
      by (auto simp: eq opens_comment_def)
    moreover have "lineix + 1 \<le> length ls" using True by simp
    ultimately have "lineix + 1 \<le> b \<and> b \<le> length ls \<and>
        (\<forall>i. lineix + 1 \<le> i \<longrightarrow> i < b \<longrightarrow> \<not> opens_comment (ls ! i)) \<and> (b < length ls \<longrightarrow> opens_comment (ls ! b))"
      using 1(1) True by (simp add: opens_comment_def)
    with True show ?thesis by (metis add_leD1 le_neq_implies_less Suc_eq_plus1 Suc_leI)
  next
    case False
    with 1(2,3) show ?thesis by (auto simp: eq opens_comment_def split: if_splits)
  qed
qed

lemma FindEnd_spec:
  "lineix \<le> length ls \<Longrightarrow> FindNextMultiLineCommentEnd ls lineix = e \<Longrightarrow>
     lineix \<le> e \<and> e \<le> length ls \<and> (\<forall>i. lineix \<le> i \<longrightarrow> i < e \<longrightarrow> \<not> closes_comment (ls ! i)) \<and>
     (e < length ls \<longrightarrow> closes_comment (ls ! e))"
proof (induction ls lineix rule: FindNextMultiLineCommentEnd.induct)
  case (1 ls lineix)
  note eq = FindNextMultiLineCommentEnd.simps [of ls lineix]
  show ?case
  proof (cases "lineix < length ls \<and> \<not> closes_comment (ls ! lineix)")
    case True
    with 1(3) have "FindNextMultiLineCommentEnd ls (lineix + 1) = e"
      by (auto simp: eq closes_comment_def)
    moreover have "lineix + 1 \<le> length ls" using True by simp
    ultimately have "lineix + 1 \<le> e \<and> e \<le> length ls \<and>
        (\<forall>i. lineix + 1 \<le> i \<longrightarrow> i < e \<longrightarrow> \<not> closes_comment (ls ! i)) \<and> (e < length ls \<longrightarrow> closes_comment (ls ! e))"
      using 1(1) True by (simp add: closes_comment_def)
    with True show ?thesis by (metis add_leD1 le_neq_implies_less Suc_eq_plus1 Suc_leI)
  next
    case False
    with 1(2,3) show ?thesis by (auto simp: eq closes_comment_def split: if_splits)
  qed
qed

lemma nth_RemoveRange:
  assumes "i < length ls"
  shows "RemoveMultiLineCommentsFromRange ls begin end ! i =
    (if begin \<le> i \<and> i < end then ''/**/'' else ls ! i)"
proof -
  have "fold (\<lambda>i ls. ls[i := x]) is ls ! i = (if i \<in> set is then x else ls ! i)" for "is" and x :: string
    using assms by (induction "is" arbitrary: ls) auto
  then show ?thesis by (simp add: RemoveMultiLineCommentsFromRange_def)
qed

text \<open>The lines without their multi-line comments, read from the top: from a line that opens a comment
  up to and including the first line that closes it every line is blanked; a comment that no line closes is
  left as it is, and its first line is the second component.\<close>

function blank_comments :: "string list \<Rightarrow> string list \<times> nat option" where
  "blank_comments [] = ([], None)"
| "blank_comments (line # ls) =
     (if opens_comment line then
        (let comment = takeWhile (\<lambda>l. \<not> closes_comment l) (line # ls);
             rest = dropWhile (\<lambda>l. \<not> closes_comment l) (line # ls) in
         if rest = [] then (line # ls, Some 0)
         else
           (let r = blank_comments (tl rest); n = length comment + 1 in
            (replicate n ''/**/'' @ fst r, map_option (\<lambda>b. b + n) (snd r))))
      else (let r = blank_comments ls in (line # fst r, map_option Suc (snd r))))"
  by pat_completeness auto
termination
proof (relation "measure length", goal_cases)
  case (2 line ls comment rest)
  have "length rest \<le> length (line # ls)" unfolding 2 by (rule length_dropWhile_le)
  with 2 show ?case by (cases rest) auto
qed auto

declare blank_comments.simps(2) [simp del]

lemma blank_skip:
  "list_all (\<lambda>l. \<not> opens_comment l) u \<Longrightarrow>
     blank_comments (u @ v) = (u @ fst (blank_comments v), map_option (\<lambda>b. b + length u) (snd (blank_comments v)))"
proof (induction u)
  case Nil
  show ?case by (cases "snd (blank_comments v)") (simp_all add: prod_eq_iff)
next
  case (Cons l u)
  then show ?case by (simp add: blank_comments.simps(2) option.map_comp comp_def)
qed

lemma blank_open:
  assumes "opens_comment (hd (u @ l # v))" and "list_all (\<lambda>l. \<not> closes_comment l) u" and "closes_comment l"
  shows "blank_comments (u @ l # v) =
    (replicate (length u + 1) ''/**/'' @ fst (blank_comments v),
     map_option (\<lambda>b. b + (length u + 1)) (snd (blank_comments v)))"
proof -
  obtain x xs where x: "u @ l # v = x # xs" by (cases u) auto
  have "takeWhile (\<lambda>l. \<not> closes_comment l) (u @ l # v) = u" "dropWhile (\<lambda>l. \<not> closes_comment l) (u @ l # v) = l # v"
    using assms(2,3) by (simp_all add: takeWhile_append dropWhile_append list_all_iff)
  with assms(1) show ?thesis unfolding x blank_comments.simps(2) Let_def by simp
qed

lemma blank_unclosed:
  assumes "ls \<noteq> []" "opens_comment (hd ls)" and "list_all (\<lambda>l. \<not> closes_comment l) ls"
  shows "blank_comments ls = (ls, Some 0)"
proof -
  have "dropWhile (\<lambda>l. \<not> closes_comment l) ls = []" using assms(3) by (simp add: list_all_iff)
  with assms(1,2) show ?thesis by (cases ls) (simp, simp only: blank_comments.simps(2) Let_def list.sel if_True refl)
qed

lemma drop_split: "a \<le> b \<Longrightarrow> b \<le> length ls \<Longrightarrow> drop a ls = take (b - a) (drop a ls) @ drop b ls"
  by (metis append_take_drop_id drop_drop le_add_diff_inverse2)

lemma list_all_between:
  "(\<forall>i. a \<le> i \<longrightarrow> i < b \<longrightarrow> P (ls ! i)) \<Longrightarrow> a \<le> b \<Longrightarrow> b \<le> length ls \<Longrightarrow> list_all P (take (b - a) (drop a ls))"
  by (auto simp: list_all_length)

lemma RemoveRange_take_drop:
  assumes "b \<le> e" and "e < length ls"
  shows "take (e + 1) (RemoveMultiLineCommentsFromRange ls b (e + 1)) = take b ls @ replicate (e - b + 1) ''/**/''"
    and "drop (e + 1) (RemoveMultiLineCommentsFromRange ls b (e + 1)) = drop (e + 1) ls"
proof -
  show "take (e + 1) (RemoveMultiLineCommentsFromRange ls b (e + 1)) = take b ls @ replicate (e - b + 1) ''/**/''"
    by (rule nth_equalityI) (use assms in \<open>auto simp: nth_RemoveRange nth_append nth_Cons' simp del: append_Cons\<close>)
  show "drop (e + 1) (RemoveMultiLineCommentsFromRange ls b (e + 1)) = drop (e + 1) ls"
    by (rule nth_equalityI) (use assms in \<open>auto simp: nth_RemoveRange\<close>)
qed

declare RemoveMultiLineComments_loop.simps [simp del]

lemma RemoveMultiLineComments_loop_blanks:
  "lineix \<le> length ls \<Longrightarrow>
   RemoveMultiLineComments_loop filename ls lineix g =
     (take lineix ls @ fst (blank_comments (drop lineix ls)),
      case snd (blank_comments (drop lineix ls)) of
        None \<Rightarrow> g
      | Some b \<Rightarrow> Error filename (int (lineix + b) + 1) ''readability/multiline_comment'' 5
                ''Could not find end of multi-line comment'' g)"
proof (induction filename ls lineix g rule: RemoveMultiLineComments_loop.induct)
  case (1 filename ls lineix g)
  define b where "b = FindNextMultiLineCommentStart ls lineix"
  define e where "e = FindNextMultiLineCommentEnd ls b"
  note eq = RemoveMultiLineComments_loop.simps [of filename ls lineix g, folded b_def, folded e_def]
  from FindStart_spec [OF 1(2), of b] have b: "lineix \<le> b" "b \<le> length ls"
    "\<forall>i. lineix \<le> i \<longrightarrow> i < b \<longrightarrow> \<not> opens_comment (ls ! i)" "b < length ls \<longrightarrow> opens_comment (ls ! b)"
    by (auto simp: b_def)
  from FindEnd_spec [OF b(2), of e] have e: "b \<le> e" "e \<le> length ls"
    "\<forall>i. b \<le> i \<longrightarrow> i < e \<longrightarrow> \<not> closes_comment (ls ! i)" "e < length ls \<longrightarrow> closes_comment (ls ! e)"
    by (auto simp: e_def)
  define u where "u = take (b - lineix) (drop lineix ls)"
  have u: "drop lineix ls = u @ drop b ls" "length u = b - lineix" "list_all (\<lambda>l. \<not> opens_comment l) u"
    unfolding u_def using drop_split [OF b(1,2)] list_all_between [OF b(3,1,2)] b(1,2) by simp_all
  then have pre: "take lineix ls @ u = take b ls"
    using b(1) unfolding u_def by (metis le_add_diff_inverse take_add)
  note skip = blank_skip [OF u(3), of "drop b ls", folded u(1)]
  consider "b = length ls" | "b < length ls" "e = length ls" | "e < length ls"
    using b(2) e(2) by linarith
  then show ?case
  proof cases
    case 1
    then have "RemoveMultiLineComments_loop filename ls lineix g = (ls, g)" by (simp add: eq b_def)
    with 1 skip pre show ?thesis by simp
  next
    case 2
    then have "RemoveMultiLineComments_loop filename ls lineix g =
        (ls, Error filename (int b + 1) ''readability/multiline_comment'' 5
                ''Could not find end of multi-line comment'' g)"
      using b(1) by (simp add: eq Let_def b_def [symmetric] e_def [symmetric])
    moreover have "blank_comments (drop b ls) = (drop b ls, Some 0)"
      using 2 b(4) list_all_between [OF e(3,1,2)]
      by (intro blank_unclosed) (simp_all add: hd_drop_conv_nth)
    moreover have "take lineix ls @ u @ drop b ls = ls" using pre by (metis append.assoc append_take_drop_id)
    ultimately show ?thesis using b(1) u(2) by (simp add: skip)
  next
    case 3
    let ?ls = "RemoveMultiLineCommentsFromRange ls b (e + 1)"
    have loop: "RemoveMultiLineComments_loop filename ls lineix g = RemoveMultiLineComments_loop filename ?ls (e + 1) g"
      using 3 b e by (simp add: eq Let_def b_def [symmetric] e_def [symmetric])
    have ih: "RemoveMultiLineComments_loop filename ?ls (e + 1) g =
        (take (e + 1) ?ls @ fst (blank_comments (drop (e + 1) ?ls)),
         case snd (blank_comments (drop (e + 1) ?ls)) of
           None \<Rightarrow> g
         | Some k \<Rightarrow> Error filename (int (e + 1 + k) + 1) ''readability/multiline_comment'' 5
                ''Could not find end of multi-line comment'' g)"
      by (rule 1(1) [OF _ b_def _ e_def]) (use 3 b e in auto)
    have "drop b ls = take (e - b) (drop b ls) @ ls ! e # drop (e + 1) ls"
      using drop_split [OF e(1,2)] 3 by (simp add: Cons_nth_drop_Suc)
    then have "blank_comments (drop b ls) =
        (replicate (e - b + 1) ''/**/'' @ fst (blank_comments (drop (e + 1) ls)),
         map_option (\<lambda>k. k + (e - b + 1)) (snd (blank_comments (drop (e + 1) ls))))"
      using blank_open [of "take (e - b) (drop b ls)" "ls ! e" "drop (e + 1) ls"] 3 e b
        list_all_between [OF e(3,1,2)] by (simp add: hd_drop_conv_nth)
    with loop ih skip pre show ?thesis
      unfolding RemoveRange_take_drop [OF e(1) 3] using b(1) e(1) u(2)
      by (cases "snd (blank_comments (drop (e + 1) ls))") (simp_all del: replicate_Suc, simp_all add: algebra_simps)
  qed
qed

text \<open>C23: Removing multi-line comments is blanking them, read from the top: the lines from one that opens a
  comment up to and including the first that closes it become empty comments, every other line stays, and a comment that
  no line closes stays too, and is reported at the line where it begins. It ends for every file.\<close>

theorem RemoveMultiLineComments_correct:
  "RemoveMultiLineComments filename ls g =
     (fst (blank_comments ls),
      case snd (blank_comments ls) of
        None \<Rightarrow> g
      | Some b \<Rightarrow> Error filename (int b + 1) ''readability/multiline_comment'' 5
                ''Could not find end of multi-line comment'' g)"
  using RemoveMultiLineComments_loop_blanks [of 0 ls filename g]
  by (simp add: RemoveMultiLineComments_def split: option.split)

interpretation multi_line_comments: lint_check "\<lambda>g. snd (RemoveMultiLineComments filename ls g)"
proof
  fix g
  show "reports g (snd (RemoveMultiLineComments filename ls g))"
    using RemoveMultiLineComments_loop_blanks [of 0 ls filename g]
    by (auto simp: RemoveMultiLineComments_def split: option.split)
qed

end
