(* ===== verification/Py_Path.thy ===== *)
theory Py_Path
  imports Prelude
begin

text \<open>
  The functions of \<open>os.path\<close> that the scripts use, on POSIX paths, over a file system given
  by its working directory and the paths that exist.
\<close>

record file_system =
  fs_cwd :: string
  fs_exists :: "string \<Rightarrow> bool"

abbreviation (input) slash :: char where "slash \<equiv> CHR ''/''"

definition path_tail :: "string \<Rightarrow> string" where
  "path_tail p = rev (takeWhile (\<lambda>c. c \<noteq> slash) (rev p))"

definition path_head :: "string \<Rightarrow> string" where
  "path_head p =
     (let head = rev (dropWhile (\<lambda>c. c \<noteq> slash) (rev p)) in
      if list_all (\<lambda>c. c = slash) head then head else rev (dropWhile (\<lambda>c. c = slash) (rev head)))"

definition path_split :: "string \<Rightarrow> string \<times> string" where
  "path_split p = (path_head p, path_tail p)"

abbreviation dirname :: "string \<Rightarrow> string" where "dirname \<equiv> path_head"

definition path_join :: "string \<Rightarrow> string \<Rightarrow> string" where
  "path_join a b =
     (if startswith b ''/'' then b
      else if a = [] \<or> endswith a ''/'' then a @ b
      else a @ ''/'' @ b)"

text \<open>\<open>splitext\<close>: the last dot of the last component, unless only dots come before it.\<close>

definition path_splitext :: "string \<Rightarrow> string \<times> string" where
  "path_splitext p =
     (let tail = path_tail p;
          ext = rev (takeWhile (\<lambda>c. c \<noteq> CHR ''.'') (rev tail));
          stem = take (length tail - length ext - 1) tail
      in if CHR ''.'' \<in> set tail \<and> \<not> list_all (\<lambda>c. c = CHR ''.'') stem
         then (take (length p - length ext - 1) p, ''.'' @ ext)
         else (p, []))"

fun norm_comps :: "bool \<Rightarrow> string list \<Rightarrow> string list \<Rightarrow> string list" where
  "norm_comps absolute new_comps [] = new_comps"
| "norm_comps absolute new_comps (piece # comps) =
     (if piece = [] \<or> piece = ''.'' then norm_comps absolute new_comps comps
      else if piece \<noteq> ''..'' \<or> (\<not> absolute \<and> new_comps = []) \<or>
              (new_comps \<noteq> [] \<and> last new_comps = ''..'')
      then norm_comps absolute (new_comps @ [piece]) comps
      else norm_comps absolute (butlast new_comps) comps)"

definition path_normpath :: "string \<Rightarrow> string" where
  "path_normpath p =
     (if p = [] then ''.''
      else
        (let initial = (if startswith p ''//'' \<and> \<not> startswith p ''///'' then ''//''
                        else if startswith p ''/'' then ''/'' else []);
             path = initial @ py_join ''/'' (norm_comps (initial \<noteq> []) [] (py_split slash p))
         in if path = [] then ''.'' else path))"

definition path_abspath :: "file_system \<Rightarrow> string \<Rightarrow> string" where
  "path_abspath fs p =
     path_normpath (if startswith p ''/'' then p else path_join (fs_cwd fs) p)"

fun path_commonprefix :: "string \<Rightarrow> string \<Rightarrow> string" where
  "path_commonprefix (a # s) (b # t) = (if a = b then a # path_commonprefix s t else [])"
| "path_commonprefix s t = []"

section \<open>Laws\<close>

lemma prefix_rev_dropWhile: "prefix (rev (dropWhile P (rev s))) s"
  by (metis prefix_def rev_append rev_rev_ident takeWhile_dropWhile_id)

lemma dirname_prefix: "prefix (dirname p) p"
proof -
  define h where "h = rev (dropWhile (\<lambda>c. c \<noteq> slash) (rev p))"
  have "prefix h p" unfolding h_def by (rule prefix_rev_dropWhile)
  moreover have "prefix (rev (dropWhile (\<lambda>c. c = slash) (rev h))) h" by (rule prefix_rev_dropWhile)
  ultimately show ?thesis
    unfolding path_head_def Let_def h_def [symmetric] using prefix_order.trans by auto
qed

lemma dirname_shorter: "dirname p \<noteq> p \<Longrightarrow> length (dirname p) < length p"
  using dirname_prefix [of p] by (metis prefix_length_less strict_prefixI)

lemma commonprefix_prefix: "prefix s t \<Longrightarrow> path_commonprefix s t = s"
  by (induction s t rule: path_commonprefix.induct) auto

lemma commonprefix_le: "prefix (path_commonprefix s t) s \<and> prefix (path_commonprefix s t) t"
  by (induction s t rule: path_commonprefix.induct) auto

text \<open>Going up \<open>n\<close> directories.\<close>

definition up :: "nat \<Rightarrow> string \<Rightarrow> string" where
  "up n p = (dirname ^^ n) p"

lemma up_0 [simp]: "up 0 p = p"
  by (simp add: up_def)

lemma up_Suc: "up (Suc n) p = up n (dirname p)"
  by (simp add: up_def funpow_swap1)

lemma up_prefix: "prefix (up n p) p"
  by (induction n arbitrary: p) (simp_all add: up_Suc, meson dirname_prefix prefix_order.trans)

text \<open>A split path joins back, below a directory that does not end in slashes.\<close>

lemma head_tail_append: "rev (dropWhile (\<lambda>c. c \<noteq> slash) (rev p)) @ path_tail p = p"
  unfolding path_tail_def by (metis rev_append rev_rev_ident takeWhile_dropWhile_id)

lemma splitext_append: "fst (path_splitext p) @ snd (path_splitext p) = p"
proof -
  define tail where "tail = path_tail p"
  define ext where "ext = rev (takeWhile (\<lambda>c. c \<noteq> CHR ''.'') (rev tail))"
  define pre where "pre = rev (dropWhile (\<lambda>c. c \<noteq> CHR ''.'') (rev tail))"
  have t: "tail = pre @ ext"
    unfolding ext_def pre_def by (metis rev_append rev_rev_ident takeWhile_dropWhile_id)
  obtain h where p: "p = h @ tail" unfolding tail_def using head_tail_append by metis
  show ?thesis
  proof (cases "CHR ''.'' \<in> set tail")
    case True
    define d where "d = dropWhile (\<lambda>c. c \<noteq> CHR ''.'') (rev tail)"
    from True have "d \<noteq> []" unfolding d_def by (simp add: dropWhile_eq_Nil_conv)
    moreover from this have "hd d = CHR ''.''"
      unfolding d_def using hd_dropWhile [of "\<lambda>c. c \<noteq> CHR ''.''" "rev tail"] by simp
    ultimately have "pre = rev (tl d) @ ''.''" unfolding pre_def d_def [symmetric] by (cases d) auto
    with t p obtain q where q: "p = q @ ''.'' @ ext" by (metis append.assoc)
    have "take (length p - length ext - 1) p @ ''.'' @ ext = p" unfolding q by simp
    then show ?thesis
      unfolding path_splitext_def Let_def tail_def [symmetric] ext_def [symmetric] by simp
  next
    case False
    then show ?thesis by (simp add: path_splitext_def Let_def tail_def)
  qed
qed

end
