(* ===== verification/Lint_Include.thy ===== *)
theory Lint_Include
  imports Lint_Cleanse Py_Path
begin

text \<open>
  Header files in \<^verbatim>\<open>build-support/cpplint.py\<close>: the list of C++ headers, the class
  \<open>_IncludeState\<close> that follows the order of the includes, the class \<open>FileInfo\<close> that finds the
  name of a file in its repository, the classification of an include, the check
  \<open>CheckIncludeLine\<close>, and \<open>FilesBelongToSameModule\<close>. The file system is a parameter.
\<close>

section \<open>Headers\<close>

definition CPP_HEADERS :: "string list" where
  "CPP_HEADERS = [
     ''algobase.h'', ''algo.h'', ''alloc.h'', ''builtinbuf.h'', ''bvector.h'', ''complex.h'',
     ''defalloc.h'', ''deque.h'', ''editbuf.h'', ''fstream.h'', ''function.h'', ''hash_map'',
     ''hash_map.h'', ''hash_set'', ''hash_set.h'', ''hashtable.h'', ''heap.h'',
     ''indstream.h'', ''iomanip.h'', ''iostream.h'', ''istream.h'', ''iterator.h'',
     ''list.h'', ''map.h'', ''multimap.h'', ''multiset.h'', ''ostream.h'', ''pair.h'',
     ''parsestream.h'', ''pfstream.h'', ''procbuf.h'', ''pthread_alloc'', ''pthread_alloc.h'',
     ''rope'', ''rope.h'', ''ropeimpl.h'', ''set.h'', ''slist'', ''slist.h'', ''stack.h'',
     ''stdiostream.h'', ''stl_alloc.h'', ''stl_relops.h'', ''streambuf.h'', ''stream.h'',
     ''strfile.h'', ''strstream.h'', ''tempbuf.h'', ''tree.h'', ''type_traits.h'',
     ''vector.h'', ''algorithm'', ''array'', ''atomic'', ''bitset'', ''chrono'', ''codecvt'',
     ''complex'', ''condition_variable'', ''deque'', ''exception'', ''forward_list'',
     ''fstream'', ''functional'', ''future'', ''initializer_list'', ''iomanip'', ''ios'',
     ''iosfwd'', ''iostream'', ''istream'', ''iterator'', ''limits'', ''list'', ''locale'',
     ''map'', ''memory'', ''mutex'', ''new'', ''numeric'', ''ostream'', ''queue'', ''random'',
     ''ratio'', ''regex'', ''set'', ''sstream'', ''stack'', ''stdexcept'', ''streambuf'',
     ''string'', ''strstream'', ''system_error'', ''thread'', ''tuple'', ''typeindex'',
     ''typeinfo'', ''type_traits'', ''unordered_map'', ''unordered_set'', ''utility'',
     ''valarray'', ''vector'', ''cassert'', ''ccomplex'', ''cctype'', ''cerrno'', ''cfenv'',
     ''cfloat'', ''cinttypes'', ''ciso646'', ''climits'', ''clocale'', ''cmath'', ''csetjmp'',
     ''csignal'', ''cstdalign'', ''cstdarg'', ''cstdbool'', ''cstddef'', ''cstdint'',
     ''cstdio'', ''cstdlib'', ''cstring'', ''ctgmath'', ''ctime'', ''cuchar'', ''cwchar'',
     ''cwctype''
]"

definition THIRD_PARTY_HEADERS_PATTERN :: string where
  "THIRD_PARTY_HEADERS_PATTERN = raw ''^(?:[^/]*[A-Z][^/]*`.h|lua`.h|lauxlib`.h|lualib`.h)$''"

datatype header_type =
  C_SYS_HEADER | CPP_SYS_HEADER | LIKELY_MY_HEADER | POSSIBLE_MY_HEADER | OTHER_HEADER

section \<open>The class \<open>_IncludeState\<close>\<close>

abbreviation (input) INITIAL_SECTION :: nat where "INITIAL_SECTION \<equiv> 0"
abbreviation (input) MY_H_SECTION :: nat where "MY_H_SECTION \<equiv> 1"
abbreviation (input) C_SECTION :: nat where "C_SECTION \<equiv> 2"
abbreviation (input) CPP_SECTION :: nat where "CPP_SECTION \<equiv> 3"
abbreviation (input) OTHER_H_SECTION :: nat where "OTHER_H_SECTION \<equiv> 4"

fun TYPE_NAMES :: "header_type \<Rightarrow> string" where
  "TYPE_NAMES C_SYS_HEADER = ''C system header''"
| "TYPE_NAMES CPP_SYS_HEADER = ''C++ system header''"
| "TYPE_NAMES LIKELY_MY_HEADER = ''header this file implements''"
| "TYPE_NAMES POSSIBLE_MY_HEADER = ''header this file may implement''"
| "TYPE_NAMES OTHER_HEADER = ''other header''"

definition SECTION_NAMES :: "(nat \<times> string) list" where
  "SECTION_NAMES =
     [(INITIAL_SECTION, ''... nothing. (This can'' @ [squote] @ ''t be an error.)''),
      (MY_H_SECTION, ''a header this file implements''),
      (C_SECTION, ''C system header''),
      (CPP_SECTION, ''C++ system header''),
      (OTHER_H_SECTION, ''other header'')]"

record IncludeState =
  include_list :: "(string \<times> int) list list"
  include_section :: nat
  last_header :: string

definition FindHeader :: "string \<Rightarrow> IncludeState \<Rightarrow> int" where
  "FindHeader header st =
     (case find (\<lambda>f. fst f = header) (concat (include_list st)) of
        None \<Rightarrow> -1
      | Some f \<Rightarrow> snd f)"

definition ResetSection :: "string \<Rightarrow> IncludeState \<Rightarrow> IncludeState" where
  "ResetSection directive st =
     (let st = st\<lparr>include_section := INITIAL_SECTION, last_header := []\<rparr> in
      if directive \<in> {''if'', ''ifdef'', ''ifndef''} then
        st\<lparr>include_list := include_list st @ [[]]\<rparr>
      else if directive \<in> {''else'', ''elif''} then
        st\<lparr>include_list := butlast (include_list st) @ [[]]\<rparr>
      else st)"

definition IncludeState_init :: IncludeState where
  "IncludeState_init =
     ResetSection [] \<lparr>include_list = [[]], include_section = INITIAL_SECTION, last_header = []\<rparr>"

definition SetLastHeader :: "string \<Rightarrow> IncludeState \<Rightarrow> IncludeState" where
  "SetLastHeader header_path st = st\<lparr>last_header := header_path\<rparr>"

text \<open>\<open>lower\<close> on text, for code points below 256.\<close>

definition lower_char :: "char \<Rightarrow> char" where
  "lower_char c =
     (let n = (of_char c :: nat) in
      if (65 \<le> n \<and> n \<le> 90) \<or> (192 \<le> n \<and> n \<le> 222 \<and> n \<noteq> 215) then char_of (n + 32) else c)"

definition CanonicalizeAlphabeticalOrder :: "string \<Rightarrow> string" where
  "CanonicalizeAlphabeticalOrder header_path =
     map lower_char (py_replace ''-'' ''_'' (py_replace ''-inl.h'' ''.h'' header_path))"

definition IsInAlphabeticalOrder :: "CleansedLines \<Rightarrow> int \<Rightarrow> string \<Rightarrow> IncludeState \<Rightarrow> bool" where
  "IsInAlphabeticalOrder clean_lines linenum header_path st =
     (\<not> (str_less header_path (last_header st) \<and>
         matches (raw ''^`s*#`s*include`b'') (py_nth (elided clean_lines) (linenum - 1))))"

text \<open>\<open>CheckNextIncludeOrder\<close>: the message, empty when the order is right, and the new state.\<close>

definition CheckNextIncludeOrder :: "header_type \<Rightarrow> IncludeState \<Rightarrow> string \<times> IncludeState" where
  "CheckNextIncludeOrder header_type st =
     (let error_message = ''Found '' @ TYPE_NAMES header_type @ '' after '' @
            the (map_of SECTION_NAMES (include_section st));
          last_section = include_section st;
          move = (\<lambda>section.
            ([], st\<lparr>include_section := section,
                    last_header := (if last_section \<noteq> section then [] else last_header st)\<rparr>))
      in case header_type of
           C_SYS_HEADER \<Rightarrow>
             if last_section \<le> C_SECTION then move C_SECTION
             else (error_message, st\<lparr>last_header := []\<rparr>)
         | CPP_SYS_HEADER \<Rightarrow>
             if last_section \<le> CPP_SECTION then move CPP_SECTION
             else (error_message, st\<lparr>last_header := []\<rparr>)
         | LIKELY_MY_HEADER \<Rightarrow>
             if last_section \<le> MY_H_SECTION then move MY_H_SECTION else move OTHER_H_SECTION
         | POSSIBLE_MY_HEADER \<Rightarrow>
             if last_section \<le> MY_H_SECTION then move MY_H_SECTION else move OTHER_H_SECTION
         | OTHER_HEADER \<Rightarrow> move OTHER_H_SECTION)"

section \<open>The class \<open>FileInfo\<close>\<close>

definition FullName :: "file_system \<Rightarrow> string \<Rightarrow> string" where
  "FullName fs filename = py_replace [backslash] ''/'' (path_abspath fs filename)"

definition has_entry :: "file_system \<Rightarrow> string \<Rightarrow> string \<Rightarrow> bool" where
  "has_entry fs dir name = fs_exists fs (path_join dir name)"

text \<open>The loop that climbs to the top of a Subversion checkout; \<open>None\<close> if it does not end.\<close>

partial_function (option) svn_top :: "file_system \<Rightarrow> string \<Rightarrow> string \<Rightarrow> string option" where
  "svn_top fs root_dir one_up_dir =
     (if has_entry fs one_up_dir ''.svn''
      then svn_top fs (dirname root_dir) (dirname one_up_dir)
      else Some root_dir)"

declare svn_top.simps [code]

definition is_top :: "file_system \<Rightarrow> string \<Rightarrow> bool" where
  "is_top fs dir \<longleftrightarrow> has_entry fs dir ''.git'' \<or> has_entry fs dir ''.hg'' \<or> has_entry fs dir ''.svn''"

function vcs_top :: "file_system \<Rightarrow> string \<Rightarrow> string" where
  "vcs_top fs root_dir =
     (if root_dir \<noteq> dirname root_dir \<and> \<not> is_top fs root_dir then vcs_top fs (dirname root_dir)
      else root_dir)"
  by pat_completeness auto
termination by (relation "measure (\<lambda>(fs, d). length d)") (auto, metis dirname_shorter)

definition RepositoryName :: "file_system \<Rightarrow> string \<Rightarrow> string option" where
  "RepositoryName fs filename =
     (let fullname = FullName fs filename;
          project_dir = dirname fullname;
          below = (\<lambda>root_dir.
            drop (length (path_commonprefix root_dir project_dir) + 1) fullname)
      in if fs_exists fs fullname then
           if has_entry fs project_dir ''.svn'' then
             map_option below (svn_top fs project_dir (dirname project_dir))
           else
             (let root_dir = vcs_top fs (dirname fullname) in
              Some (if is_top fs root_dir then below root_dir else fullname))
         else Some fullname)"

definition Split :: "file_system \<Rightarrow> string \<Rightarrow> (string \<times> string \<times> string) option" where
  "Split fs filename =
     map_option (\<lambda>googlename. case path_split googlename of (project, rest) \<Rightarrow>
       (project, path_splitext rest)) (RepositoryName fs filename)"

definition BaseName :: "file_system \<Rightarrow> string \<Rightarrow> string option" where
  "BaseName fs filename = map_option (\<lambda>(p, b, e). b) (Split fs filename)"

definition Extension :: "file_system \<Rightarrow> string \<Rightarrow> string option" where
  "Extension fs filename = map_option (\<lambda>(p, b, e). e) (Split fs filename)"

definition NoExtension :: "file_system \<Rightarrow> string \<Rightarrow> string option" where
  "NoExtension fs filename = map_option (\<lambda>(p, b, e). py_join ''/'' [p, b]) (Split fs filename)"

definition IsSource :: "file_system \<Rightarrow> string \<Rightarrow> bool option" where
  "IsSource fs filename =
     map_option (\<lambda>e. tl e \<in> {''c'', ''cc'', ''cpp'', ''cxx''}) (Extension fs filename)"

declare vcs_top.simps [simp del]

section \<open>Classifying an include\<close>

definition COMMON_SUFFIXES :: "string list" where
  "COMMON_SUFFIXES = [''test.cc'', ''regtest.cc'', ''unittest.cc'', ''inl.h'', ''impl.h'', ''internal.h'']"

definition has_common_suffix :: "string \<Rightarrow> string \<Rightarrow> bool" where
  "has_common_suffix filename sfx \<longleftrightarrow>
     endswith filename sfx \<and> length filename > length sfx \<and>
     filename ! (length filename - length sfx - 1) \<in> {CHR ''-'', CHR ''_''}"

definition DropCommonSuffixes :: "string \<Rightarrow> string" where
  "DropCommonSuffixes filename =
     (case find (has_common_suffix filename) COMMON_SUFFIXES of
        Some sfx \<Rightarrow> take (length filename - length sfx - 1) filename
      | None \<Rightarrow> fst (path_splitext filename))"

definition IsTestFilename :: "string \<Rightarrow> bool" where
  "IsTestFilename filename \<longleftrightarrow>
     endswith filename ''_test.cc'' \<or> endswith filename ''_unittest.cc'' \<or>
     endswith filename ''_regtest.cc''"

definition RE_FIRST_COMPONENT :: string where
  "RE_FIRST_COMPONENT = ''^[^-_.]+''"

definition ClassifyInclude :: "file_system \<Rightarrow> string \<Rightarrow> string \<Rightarrow> bool \<Rightarrow> header_type option" where
  "ClassifyInclude fs filename incl is_system =
     (let is_cpp_h = incl \<in> set CPP_HEADERS in
      if is_system then Some (if is_cpp_h then CPP_SYS_HEADER else C_SYS_HEADER)
      else
        map_option (\<lambda>name.
          (let (target_dir, target_base) = path_split (DropCommonSuffixes name);
               (include_dir, include_base) = path_split (DropCommonSuffixes incl)
           in if target_base = include_base \<and>
                 (include_dir = target_dir \<or>
                  include_dir = path_normpath (target_dir @ ''/../public''))
              then LIKELY_MY_HEADER
              else
                (case (Match RE_FIRST_COMPONENT target_base, Match RE_FIRST_COMPONENT include_base) of
                   (Some target_first_component, Some include_first_component) \<Rightarrow>
                     if m_text target_first_component = m_text include_first_component
                     then POSSIBLE_MY_HEADER else OTHER_HEADER
                 | _ \<Rightarrow> OTHER_HEADER)))
          (RepositoryName fs filename))"

section \<open>\<open>CheckIncludeLine\<close>\<close>

text \<open>The check that the header is named with its directory.\<close>

definition check_include_directory :: "string \<Rightarrow> int \<Rightarrow> string \<Rightarrow> lint \<Rightarrow> lint" where
  "check_include_directory filename linenum line g =
     (case Match (raw ''#include`s*\"([^/]+`.h)\"'') line of
        Some match \<Rightarrow>
          if \<not> matches THIRD_PARTY_HEADERS_PATTERN (grp match 1) then
            Error filename linenum ''build/include'' 4 ''Include the directory when naming .h files'' g
          else g
      | None \<Rightarrow> g)"

text \<open>The part of the check for a header that is neither a duplicate nor foreign: it is
  recorded, classified and compared with the one before it.\<close>

definition record_include :: "string \<Rightarrow> int \<Rightarrow> IncludeState \<Rightarrow> IncludeState" where
  "record_include incl linenum st =
     st\<lparr>include_list := butlast (include_list st) @ [last (include_list st) @ [(incl, linenum)]]\<rparr>"

definition check_include_order ::
    "file_system \<Rightarrow> string \<Rightarrow> CleansedLines \<Rightarrow> int \<Rightarrow> string \<Rightarrow> bool \<Rightarrow> IncludeState \<Rightarrow> lint \<Rightarrow>
       (IncludeState \<times> lint) option" where
  "check_include_order fs filename clean_lines linenum incl is_system st g =
     (let st = record_include incl linenum st in
      case ClassifyInclude fs filename incl is_system of
        None \<Rightarrow> None
      | Some header_type \<Rightarrow>
          (case CheckNextIncludeOrder header_type st of
             (error_message, st) \<Rightarrow>
               (case (if error_message \<noteq> [] then
                        map_option (\<lambda>base. Error filename linenum ''build/include_order'' 4
                          (error_message @ ''. Should be: '' @ base @
                             ''.h, c system, c++ system, other.'') g) (BaseName fs filename)
                      else Some g) of
                  None \<Rightarrow> None
                | Some g \<Rightarrow>
                    (let canonical_include = CanonicalizeAlphabeticalOrder incl;
                         g = (if \<not> IsInAlphabeticalOrder clean_lines linenum canonical_include st
                              then Error filename linenum ''build/include_alpha'' 4
                                     (''Include '' @ [dquote] @ incl @ [dquote] @
                                        '' not in alphabetical order'') g
                              else g)
                     in Some (SetLastHeader canonical_include st, g)))))"

definition CheckIncludeLine ::
    "file_system \<Rightarrow> string \<Rightarrow> CleansedLines \<Rightarrow> int \<Rightarrow> IncludeState \<Rightarrow> lint \<Rightarrow>
       (IncludeState \<times> lint) option" where
  "CheckIncludeLine fs filename clean_lines linenum st g =
     (let line = py_nth (lines clean_lines) linenum;
          g = check_include_directory filename linenum line g
      in case Search RE_PATTERN_INCLUDE line of
           None \<Rightarrow> Some (st, g)
         | Some match \<Rightarrow>
             (let incl = grp match 2;
                  is_system = (grp match 1 = ''<'');
                  duplicate_line = FindHeader incl st
              in if duplicate_line \<ge> 0 then
                   Some (st, Error filename linenum ''build/include'' 4
                     ([dquote] @ incl @ [dquote] @ '' already included at '' @ filename @ '':'' @
                        str_of_int duplicate_line) g)
                 else
                   (case (if endswith incl ''.cc''
                          then map_option (\<lambda>name. dirname name \<noteq> dirname incl) (RepositoryName fs filename)
                          else Some False) of
                      None \<Rightarrow> None
                    | Some True \<Rightarrow>
                        Some (st, Error filename linenum ''build/include'' 4
                          ''Do not include .cc files from other packages'' g)
                    | Some False \<Rightarrow>
                        if \<not> matches THIRD_PARTY_HEADERS_PATTERN incl
                        then check_include_order fs filename clean_lines linenum incl is_system st g
                        else Some (st, g))))"

section \<open>\<open>FilesBelongToSameModule\<close>\<close>

definition drop_end :: "string \<Rightarrow> string \<Rightarrow> string" where
  "drop_end sfx s = take (length s - length sfx) s"

definition plain_path :: "string \<Rightarrow> string" where
  "plain_path s = py_replace ''/internal/'' ''/'' (py_replace ''/public/'' ''/'' s)"

definition FilesBelongToSameModule :: "string \<Rightarrow> string \<Rightarrow> bool \<times> string" where
  "FilesBelongToSameModule filename_cc filename_h =
     (if \<not> endswith filename_cc ''.cc'' then (False, [])
      else
        (let filename_cc = drop_end ''.cc'' filename_cc;
             filename_cc = (if endswith filename_cc ''_unittest'' then drop_end ''_unittest'' filename_cc
                            else if endswith filename_cc ''_test'' then drop_end ''_test'' filename_cc
                            else filename_cc);
             filename_cc = plain_path filename_cc
         in if \<not> endswith filename_h ''.h'' then (False, [])
            else
              (let filename_h = drop_end ''.h'' filename_h;
                   filename_h = (if endswith filename_h ''-inl'' then drop_end ''-inl'' filename_h
                                 else filename_h);
                   filename_h = plain_path filename_h;
                   same = endswith filename_cc filename_h
               in (same, if same \<and> filename_h \<noteq> [] then drop_end filename_h filename_cc else []))))"

section \<open>The order of includes\<close>

lemmas [lint_defs] = FindHeader_def ResetSection_def SetLastHeader_def record_include_def

text \<open>The messages for the headers of a file, one after the other.\<close>

fun order_run :: "header_type list \<Rightarrow> IncludeState \<Rightarrow> string list \<times> IncludeState" where
  "order_run [] st = ([], st)"
| "order_run (h # hs) st =
     (case CheckNextIncludeOrder h st of (msg, st') \<Rightarrow>
        (case order_run hs st' of (msgs, st'') \<Rightarrow> ((if msg = [] then msgs else msg # msgs), st'')))"

definition own_header :: "header_type \<Rightarrow> bool" where
  "own_header h \<longleftrightarrow> h = LIKELY_MY_HEADER \<or> h = POSSIBLE_MY_HEADER"

definition system_header :: "header_type \<Rightarrow> bool" where
  "system_header h \<longleftrightarrow> h = C_SYS_HEADER \<or> h = CPP_SYS_HEADER"

lemma CheckNext_cases:
  "fst (CheckNextIncludeOrder h st) = [] \<longleftrightarrow>
     (h = C_SYS_HEADER \<longrightarrow> include_section st \<le> C_SECTION) \<and>
     (h = CPP_SYS_HEADER \<longrightarrow> include_section st \<le> CPP_SECTION)"
  "include_section (snd (CheckNextIncludeOrder h st)) =
     (case h of
        C_SYS_HEADER \<Rightarrow> max (include_section st) C_SECTION
      | CPP_SYS_HEADER \<Rightarrow> max (include_section st) CPP_SECTION
      | OTHER_HEADER \<Rightarrow> OTHER_H_SECTION
      | _ \<Rightarrow> if include_section st \<le> MY_H_SECTION then MY_H_SECTION else OTHER_H_SECTION)"
  by (cases h, simp_all add: CheckNextIncludeOrder_def Let_def) (cases h, simp_all)

lemma order_run_append:
  "order_run (hs @ ks) st =
     (case order_run hs st of (msgs, st') \<Rightarrow>
        (case order_run ks st' of (msgs', st'') \<Rightarrow> (msgs @ msgs', st'')))"
  by (induction hs arbitrary: st) (auto split: prod.splits)

lemma order_run_Cons_Nil:
  "fst (order_run (h # hs) st) = [] \<longleftrightarrow>
     fst (CheckNextIncludeOrder h st) = [] \<and> fst (order_run hs (snd (CheckNextIncludeOrder h st))) = []"
  by (auto split: prod.splits)

lemma order_run_Cons_snd:
  "snd (order_run (h # hs) st) = snd (order_run hs (snd (CheckNextIncludeOrder h st)))"
  by (auto split: prod.splits)

text \<open>Runs of headers of one kind pass, as long as the section has not gone further.\<close>

lemma order_run_same:
  assumes "\<forall>h \<in> set hs. own_header h \<and> s = MY_H_SECTION \<or> h = C_SYS_HEADER \<and> s = C_SECTION \<or>
      h = CPP_SYS_HEADER \<and> s = CPP_SECTION"
    and "include_section st \<le> s"
  shows "fst (order_run hs st) = [] \<and> include_section (snd (order_run hs st)) \<le> s"
  using assms
proof (induction hs arbitrary: st)
  case (Cons h hs)
  have "fst (CheckNextIncludeOrder h st) = []" "include_section (snd (CheckNextIncludeOrder h st)) \<le> s"
    using Cons.prems by (auto simp: CheckNext_cases own_header_def split: header_type.split)
  with Cons show ?case unfolding order_run_Cons_Nil order_run_Cons_snd by simp
qed simp

lemma order_run_others: "\<forall>h \<in> set hs. \<not> system_header h \<Longrightarrow> fst (order_run hs st) = []"
proof (induction hs arbitrary: st)
  case (Cons h hs)
  then have "fst (CheckNextIncludeOrder h st) = []" by (auto simp: CheckNext_cases system_header_def)
  with Cons show ?case unfolding order_run_Cons_Nil by simp
qed simp

definition in_phases :: "header_type list \<Rightarrow> header_type list \<Rightarrow> header_type list \<Rightarrow> header_type list \<Rightarrow> bool" where
  "in_phases own c cpp others \<longleftrightarrow>
     (\<forall>h \<in> set own. own_header h) \<and> (\<forall>h \<in> set c. h = C_SYS_HEADER) \<and>
     (\<forall>h \<in> set cpp. h = CPP_SYS_HEADER) \<and> (\<forall>h \<in> set others. \<not> system_header h)"

lemma order_run_phases:
  assumes "fst (order_run hs st) = []" and "include_section st \<le> OTHER_H_SECTION"
  shows "\<exists>own c cpp others. hs = own @ c @ cpp @ others \<and> in_phases own c cpp others \<and>
    (include_section st > MY_H_SECTION \<longrightarrow> own = []) \<and> (include_section st > C_SECTION \<longrightarrow> c = []) \<and>
    (include_section st > CPP_SECTION \<longrightarrow> cpp = [])"
  using assms
proof (induction hs arbitrary: st)
  case Nil
  show ?case by (intro exI [of _ "[]"]) (simp add: in_phases_def)
next
  case (Cons h hs)
  let ?st = "snd (CheckNextIncludeOrder h st)"
  from Cons.prems have h: "fst (CheckNextIncludeOrder h st) = []" and r: "fst (order_run hs ?st) = []"
    unfolding order_run_Cons_Nil by auto
  have le: "include_section ?st \<le> OTHER_H_SECTION"
    using Cons.prems(2) by (auto simp: CheckNext_cases split: header_type.split)
  from Cons.IH [OF r le] obtain own c cpp others where
    d: "hs = own @ c @ cpp @ others" "in_phases own c cpp others"
    "include_section ?st > MY_H_SECTION \<longrightarrow> own = []" "include_section ?st > C_SECTION \<longrightarrow> c = []"
    "include_section ?st > CPP_SECTION \<longrightarrow> cpp = []"
    by blast
  consider "h = C_SYS_HEADER" | "h = CPP_SYS_HEADER"
    | "own_header h" "include_section st \<le> MY_H_SECTION" | "\<not> system_header h" "include_section ?st = OTHER_H_SECTION"
    by (cases h; cases "include_section st \<le> MY_H_SECTION")
      (auto simp: own_header_def system_header_def CheckNext_cases)
  then show ?case
  proof cases
    case 1
    with d h show ?thesis
      by (intro exI [of _ "[]"] exI [of _ "C_SYS_HEADER # c"] exI [of _ cpp] exI [of _ others])
        (auto simp: in_phases_def CheckNext_cases)
  next
    case 2
    with d h show ?thesis
      by (intro exI [of _ "[]"] exI [of _ "CPP_SYS_HEADER # cpp"] exI [of _ others])
        (auto simp: in_phases_def CheckNext_cases)
  next
    case 3
    with d(1,2) show ?thesis
      by (intro exI [of _ "h # own"] exI [of _ c] exI [of _ cpp] exI [of _ others])
        (simp add: in_phases_def)
  next
    case 4
    with d h show ?thesis
      by (intro exI [of _ "[]"] exI [of _ "h # others"]) (auto simp: in_phases_def)
  qed
qed


section \<open>Finding the repository\<close>

lemma svn_top_Some:
  "svn_top fs r d = Some x \<Longrightarrow>
     \<exists>n. \<not> has_entry fs (up n d) ''.svn'' \<and> x = up n r"
proof (induction rule: svn_top.raw_induct [rotated, consumes 1, case_names step])
  case (step svn_top' fs r d x)
  show ?case
  proof (cases "has_entry fs d ''.svn''")
    case True
    with step have "\<exists>n. \<not> has_entry fs (up n (dirname d)) ''.svn'' \<and> x = up n (dirname r)" by simp
    then show ?thesis by (metis up_Suc)
  next
    case False
    with step show ?thesis by (intro exI [of _ 0]) simp
  qed
qed

lemma svn_top_returns:
  "\<not> has_entry fs (up n d) ''.svn'' \<Longrightarrow> \<exists>x. svn_top fs r d = Some x"
proof (induction n arbitrary: r d)
  case 0
  then show ?case by (subst svn_top.simps) simp
next
  case (Suc n)
  then show ?case by (subst svn_top.simps) (simp add: up_Suc)
qed

text \<open>C25: \<open>RepositoryName\<close> returns unless the file is in a Subversion checkout whose
  enclosing directories, up to the root of the file system, all hold a \<open>.svn\<close> entry: then
  the loop that looks for the top of the checkout never ends.\<close>

theorem RepositoryName_returns_iff:
  "RepositoryName fs filename = None \<longleftrightarrow>
     fs_exists fs (FullName fs filename) \<and>
     (\<forall>n. has_entry fs (up n (dirname (FullName fs filename))) ''.svn'')"
proof -
  let ?d = "dirname (FullName fs filename)"
  have top: "svn_top fs ?d (dirname ?d) = None \<longleftrightarrow> (\<forall>n. has_entry fs (up n (dirname ?d)) ''.svn'')"
    using svn_top_Some [of fs ?d "dirname ?d"] svn_top_returns [of fs _ "dirname ?d" ?d]
    by (metis not_None_eq option.distinct(1))
  have "(\<forall>n. has_entry fs (up n ?d) ''.svn'') \<longleftrightarrow>
      has_entry fs ?d ''.svn'' \<and> (\<forall>n. has_entry fs (up n (dirname ?d)) ''.svn'')"
    by (metis up_0 up_Suc old.nat.exhaust)
  with top show ?thesis by (simp add: RepositoryName_def Let_def)
qed

text \<open>The name of a file in its repository is the end of its full name.\<close>

theorem RepositoryName_suffix:
  "RepositoryName fs filename = Some name \<Longrightarrow> endswith (FullName fs filename) name"
  by (auto simp: RepositoryName_def Let_def endswith_suffix suffix_drop split: if_splits)

definition example_fs :: file_system where
  "example_fs = \<lparr>fs_cwd = ''/w/src'', fs_exists = (\<lambda>p. p \<in> {''/w/src/foo/foo.cc'', ''/w/.git''})\<rparr>"

section \<open>The table of included headers\<close>

definition include_state_ok :: "IncludeState \<Rightarrow> bool" where
  "include_state_ok st \<longleftrightarrow>
     include_list st \<noteq> [] \<and> include_section st \<le> OTHER_H_SECTION \<and>
     (\<forall>f \<in> set (concat (include_list st)). 0 \<le> snd f)"

lemma include_state_ok_init: "include_state_ok IncludeState_init"
  by code_simp

lemma concat_record:
  "include_list st \<noteq> [] \<Longrightarrow>
     concat (include_list (record_include incl n st)) = concat (include_list st) @ [(incl, n)]"
  by (cases "include_list st" rule: rev_cases) (simp_all add: lint_defs)

lemma include_state_ok_record:
  "include_state_ok st \<Longrightarrow> 0 \<le> n \<Longrightarrow> include_state_ok (record_include incl n st)"
  using concat_record [of st incl n] by (auto simp: include_state_ok_def) (simp_all add: lint_defs)

lemma include_state_ok_reset: "include_state_ok st \<Longrightarrow> include_state_ok (ResetSection directive st)"
  by (cases "include_list st" rule: rev_cases) (auto simp: include_state_ok_def lint_defs Let_def)

lemma include_state_ok_next:
  "include_state_ok st \<Longrightarrow> include_state_ok (snd (CheckNextIncludeOrder h st))"
proof -
  assume ok: "include_state_ok st"
  have "include_list (snd (CheckNextIncludeOrder h st)) = include_list st"
    by (cases h) (simp_all add: CheckNextIncludeOrder_def Let_def)
  moreover have "include_section (snd (CheckNextIncludeOrder h st)) \<le> OTHER_H_SECTION"
    using ok by (cases h) (auto simp: CheckNext_cases include_state_ok_def)
  ultimately show ?thesis using ok by (simp add: include_state_ok_def)
qed

lemma find_in_set: "find P xs = Some x \<Longrightarrow> x \<in> set xs"
  by (induction xs) (auto split: if_splits)

text \<open>The table of headers: a header just recorded is found at its line, unless it was
  recorded before, and the lookups of other headers do not change.\<close>

theorem FindHeader_record:
  assumes "include_state_ok st"
  shows "FindHeader h (record_include incl n st) =
    (if h = incl \<and> FindHeader h st < 0 then n else FindHeader h st)"
proof -
  have ne: "include_list st \<noteq> []" using assms by (simp add: include_state_ok_def)
  show ?thesis
  proof (cases "find (\<lambda>f. fst f = h) (concat (include_list st))")
    case None
    then show ?thesis by (simp add: FindHeader_def concat_record [OF ne] find_append)
  next
    case (Some f)
    then have "f \<in> set (concat (include_list st))" by (rule find_in_set)
    then have "0 \<le> snd f" using assms by (auto simp: include_state_ok_def)
    with Some show ?thesis by (simp add: FindHeader_def concat_record [OF ne] find_append)
  qed
qed

lemma check_include_directory_reports: "reports g (check_include_directory filename linenum line g)"
  by (simp add: check_include_directory_def split: option.split)

lemma include_state_ok_last: "include_state_ok (SetLastHeader h st) = include_state_ok st"
  by (simp add: include_state_ok_def lint_defs)

lemma check_include_order_reports:
  assumes "check_include_order fs filename cl linenum incl is_system st g = Some (st', g')"
    and "include_state_ok st" and "0 \<le> linenum"
  shows "reports g g' \<and> include_state_ok st'"
proof -
  let ?st = "record_include incl linenum st"
  from assms(1) obtain h msg st1 where h: "CheckNextIncludeOrder h ?st = (msg, st1)"
    and "reports g g' \<and> st' = SetLastHeader (CanonicalizeAlphabeticalOrder incl) st1"
    by (auto simp: check_include_order_def Let_def split: option.splits prod.splits if_splits
        intro: reports_trans [OF Error_reports Error_reports])
  moreover have "include_state_ok st1"
    using include_state_ok_next [OF include_state_ok_record [OF assms(2,3), of incl], of h] h by simp
  ultimately show ?thesis by (simp add: include_state_ok_last)
qed

text \<open>On every path \<open>CheckIncludeLine\<close> only reports, and keeps the table of headers well
  formed, so that the lookup of a section name cannot fail.\<close>

theorem CheckIncludeLine_reports:
  assumes "CheckIncludeLine fs filename cl linenum st g = Some (st', g')"
    and "include_state_ok st" and "0 \<le> linenum"
  shows "reports g g' \<and> include_state_ok st'"
proof -
  define g1 where "g1 = check_include_directory filename linenum (py_nth (lines cl) linenum) g"
  have "reports g1 g' \<and> include_state_ok st'"
    using assms check_include_order_reports
    by (auto simp: CheckIncludeLine_def Let_def g1_def [symmetric]
        split: option.splits if_splits bool.splits)
  with check_include_directory_reports reports_trans show ?thesis unfolding g1_def by blast
qed

definition include_example :: "CleansedLines" where
  "include_example = \<lparr>elided = [[], ''#include <stdio.h>''], lines = [[], ''#include <stdio.h>''],
     raw_lines = [[], ''#include <stdio.h>''], num_lines = 2,
     lines_without_raw_strings = [[], ''#include <stdio.h>'']\<rparr>"

section \<open>Modules\<close>

text \<open>A path by its components. Replacing \<open>/name/\<close> by a slash drops the component \<open>name\<close> wherever another one
  follows it, and goes on behind the one that follows.\<close>

abbreviation path_of :: "string list \<Rightarrow> string" where
  "path_of names \<equiv> py_join ''/'' names"

fun drop_component :: "string \<Rightarrow> string list \<Rightarrow> string list" where
  "drop_component name [] = []"
| "drop_component name [n] = [n]"
| "drop_component name (n # m # names) =
     (if n = name then m # drop_component name names else n # drop_component name (m # names))"

definition module_path :: "string list \<Rightarrow> string list" where
  "module_path names = hd names # drop_component ''internal'' (drop_component ''public'' (tl names))"

abbreviation components :: "string list \<Rightarrow> bool" where
  "components names \<equiv> list_all (\<lambda>n. CHR ''/'' \<notin> set n) names"

lemma path_of_Cons: "path_of (n # names) = n @ concat (map (\<lambda>m. CHR ''/'' # m) names)"
  by (induction names arbitrary: n) auto

lemma py_replace_before:
  "c \<notin> set w \<Longrightarrow> py_replace (c # old) new (w @ s) = w @ py_replace (c # old) new s"
  by (induction w) auto

lemma startswith_component:
  assumes "CHR ''/'' \<notin> set n" "CHR ''/'' \<notin> set name"
  shows "startswith (n @ concat (map (\<lambda>m. CHR ''/'' # m) names)) (name @ ''/'') \<longleftrightarrow> n = name \<and> names \<noteq> []"
  using assms
proof (induction n arbitrary: name)
  case Nil
  then show ?case by (cases name; cases names) auto
next
  case (Cons c n)
  then show ?case by (cases name) auto
qed

lemma replace_component:
  "components names \<Longrightarrow> CHR ''/'' \<notin> set name \<Longrightarrow>
     py_replace (CHR ''/'' # name @ ''/'') ''/'' (concat (map (\<lambda>m. CHR ''/'' # m) names)) =
     concat (map (\<lambda>m. CHR ''/'' # m) (drop_component name names))"
proof (induction name names rule: drop_component.induct)
  case (3 name n m names)
  let ?rest = "concat (map (\<lambda>m. CHR ''/'' # m) (m # names))"
  have n: "CHR ''/'' \<notin> set n" "CHR ''/'' \<notin> set m" "components names" using "3.prems" by simp_all
  have start: "startswith (CHR ''/'' # n @ ?rest) (CHR ''/'' # name @ ''/'') \<longleftrightarrow> n = name"
    using startswith_component [OF n(1) "3.prems"(2), of "m # names"] by simp
  show ?case
  proof (cases "n = name")
    case True
    have "py_replace (CHR ''/'' # name @ ''/'') ''/'' (CHR ''/'' # n @ ?rest) =
        CHR ''/'' # py_replace (CHR ''/'' # name @ ''/'') ''/'' (m @ concat (map (\<lambda>m. CHR ''/'' # m) names))"
      using start True by (subst py_replace.simps) simp
    then show ?thesis using "3.IH"(1) True n "3.prems"(2) by (simp add: py_replace_before)
  next
    case False
    have "py_replace (CHR ''/'' # name @ ''/'') ''/'' (CHR ''/'' # n @ ?rest) =
        CHR ''/'' # py_replace (CHR ''/'' # name @ ''/'') ''/'' (n @ ?rest)"
      using start False by (subst py_replace.simps) simp
    also have "\<dots> = CHR ''/'' # n @ py_replace (CHR ''/'' # name @ ''/'') ''/'' ?rest"
      by (simp only: py_replace_before [OF n(1)])
    finally show ?thesis using "3.IH"(2) False "3.prems" by simp
  qed
next
  case (2 name n)
  then have "\<not> startswith (CHR ''/'' # n) (CHR ''/'' # name @ ''/'')"
    using startswith_component [of n name "[]"] by simp
  with 2 py_replace_before [of "CHR ''/''" n "name @ ''/''" "''/''" "[]"] show ?case by simp
qed simp

lemma components_drop: "components names \<Longrightarrow> components (drop_component name names)"
  by (induction name names rule: drop_component.induct) auto

lemma replace_path:
  assumes "components (n # names)" and "CHR ''/'' \<notin> set name"
  shows "py_replace (CHR ''/'' # name @ ''/'') ''/'' (path_of (n # names)) = path_of (n # drop_component name names)"
  using assms by (simp add: path_of_Cons py_replace_before replace_component)

lemma plain_path_components:
  assumes "components (n # names)"
  shows "plain_path (path_of (n # names)) = path_of (module_path (n # names))"
  using replace_path [OF assms, of "''public''"]
    replace_path [of n "drop_component ''public'' names" "''internal''"] components_drop [of names "''public''"] assms
  by (simp add: plain_path_def module_path_def)

lemma drop_end_suffix [simp]: "drop_end t (s @ t) = s"
  by (simp add: drop_end_def)

lemma endswith_append [simp]: "endswith (s @ t) t"
  by (auto simp: endswith_suffix suffix_def)

lemma source_stem:
  assumes "s1 \<in> {[], ''_test'', ''_unittest''}" and "s1 = [] \<longrightarrow> \<not> endswith x ''_test'' \<and> \<not> endswith x ''_unittest''"
  shows "(if endswith (x @ s1) ''_unittest'' then drop_end ''_unittest'' (x @ s1)
      else if endswith (x @ s1) ''_test'' then drop_end ''_test'' (x @ s1) else x @ s1) = x"
proof -
  have "\<not> endswith (x @ ''_test'') ''_unittest''"
    by (auto simp: endswith_suffix suffix_def append_eq_append_conv2 append_eq_Cons_conv)
  with assms show ?thesis by auto
qed

lemma header_stem:
  assumes "s2 \<in> {[], ''-inl''}" and "s2 = [] \<longrightarrow> \<not> endswith y ''-inl''"
  shows "(if endswith (y @ s2) ''-inl'' then drop_end ''-inl'' (y @ s2) else y @ s2) = y"
  using assms by auto



end
