(* ===== verification/Lint_Expr.thy ===== *)
theory Lint_Expr
  imports Lint_Cleanse
begin

text \<open>
  Matching brackets in \<^verbatim>\<open>build-support/cpplint.py\<close>: \<open>FindEndOfExpressionInLine\<close>,
  \<open>CloseExpression\<close> and their mirror images \<open>FindStartOfExpressionInLine\<close> and
  \<open>ReverseCloseExpression\<close>. A stack is a list with its top first. Of the pairs the scanning
  functions return, \<open>(i, None)\<close> is \<open>Closed i\<close>, \<open>(-1, None)\<close> is \<open>Mismatch\<close> and \<open>(-1, stack)\<close> is
  \<open>Pending stack\<close>. An index out of range (\<open>IndexError\<close>) is \<open>None\<close>.
\<close>

datatype scan = Closed nat | Mismatch | Pending "char list"

abbreviation openers :: "char list" where "openers \<equiv> ''([{''"
abbreviation closers :: "char list" where "closers \<equiv> '')]}''"

definition pairs :: "char \<Rightarrow> char \<Rightarrow> bool" where
  "pairs open close \<longleftrightarrow>
     open = CHR ''('' \<and> close = CHR '')'' \<or> open = CHR ''['' \<and> close = CHR '']'' \<or>
     open = CHR ''{'' \<and> close = CHR ''}''"

definition operator_pattern :: string where
  "operator_pattern = raw ''`boperator`s*$''"

section \<open>Scanning forward\<close>

definition end_step :: "string \<Rightarrow> nat \<Rightarrow> char list \<Rightarrow> scan" where
  "end_step line i stack =
     (let c = line ! i in
      if c \<in> set openers then Pending (c # stack)
      else if c = CHR ''<'' then
        if i > 0 \<and> line ! (i - 1) = CHR ''<'' then
          if stack \<noteq> [] \<and> hd stack = CHR ''<'' then
            if tl stack = [] then Mismatch else Pending (tl stack)
          else Pending stack
        else if i > 0 \<and> found operator_pattern (take i line) then Pending stack
        else Pending (CHR ''<'' # stack)
      else if c \<in> set closers then
        (let stack = dropWhile (\<lambda>d. d = CHR ''<'') stack in
         if stack = [] then Mismatch
         else if pairs (hd stack) c then
           if tl stack = [] then Closed (i + 1) else Pending (tl stack)
         else Mismatch)
      else if c = CHR ''>'' then
        if i > 0 \<and> (line ! (i - 1) = CHR ''-'' \<or> found operator_pattern (take (i - 1) line))
        then Pending stack
        else if stack \<noteq> [] \<and> hd stack = CHR ''<'' then
          if tl stack = [] then Closed (i + 1) else Pending (tl stack)
        else Pending stack
      else if c = CHR '';'' then
        (let stack = dropWhile (\<lambda>d. d = CHR ''<'') stack in
         if stack = [] then Mismatch else Pending stack)
      else Pending stack)"

fun end_scan :: "string \<Rightarrow> nat list \<Rightarrow> char list \<Rightarrow> scan" where
  "end_scan line [] stack = Pending stack"
| "end_scan line (i # is) stack =
     (case end_step line i stack of Pending stack' \<Rightarrow> end_scan line is stack' | r \<Rightarrow> r)"

definition FindEndOfExpressionInLine :: "string \<Rightarrow> nat \<Rightarrow> char list \<Rightarrow> scan" where
  "FindEndOfExpressionInLine line startpos stack = end_scan line [startpos..<length line] stack"

text \<open>The loop of \<open>CloseExpression\<close> over the lines after \<open>linenum\<close>; \<open>line\<close> is the line last
  read. The result is the line, its number and the position.\<close>

function close_lines ::
    "CleansedLines \<Rightarrow> string \<Rightarrow> nat \<Rightarrow> scan \<Rightarrow> string \<times> nat \<times> int" where
  "close_lines cl line linenum r =
     (case r of
        Closed end_pos \<Rightarrow> (line, linenum, int end_pos)
      | Mismatch \<Rightarrow> (line, NumLines cl, -1)
      | Pending stack \<Rightarrow>
          if stack \<noteq> [] \<and> linenum < NumLines cl - 1 then
            (let line = elided cl ! (linenum + 1) in
             close_lines cl line (linenum + 1) (FindEndOfExpressionInLine line 0 stack))
          else (line, NumLines cl, -1))"
  by pat_completeness auto
termination by (relation "measure (\<lambda>(cl, line, linenum, r). NumLines cl - linenum)") auto

declare close_lines.simps [simp del]

definition CloseExpression :: "CleansedLines \<Rightarrow> nat \<Rightarrow> nat \<Rightarrow> (string \<times> nat \<times> int) option" where
  "CloseExpression cl linenum pos =
     (if linenum < length (elided cl) \<and> pos < length (elided cl ! linenum) then
        (let line = elided cl ! linenum in
         if line ! pos \<notin> set ''({[<'' \<or> matches ''<[<=]'' (drop pos line)
         then Some (line, NumLines cl, -1)
         else Some (close_lines cl line linenum (FindEndOfExpressionInLine line pos [])))
      else None)"

section \<open>Scanning backward\<close>

text \<open>One step: what the scan does with the character at \<open>i\<close>, and whether it skips the
  character before it as well.\<close>

definition start_step :: "string \<Rightarrow> nat \<Rightarrow> char list \<Rightarrow> scan \<times> bool" where
  "start_step line i stack =
     (let c = line ! i in
      if c \<in> set closers then (Pending (c # stack), False)
      else if c = CHR ''>'' then
        if i > 0 \<and> (line ! (i - 1) = CHR ''-'' \<or> matches (raw ''`s>=`s'') (drop (i - 1) line) \<or>
                     found operator_pattern (take i line))
        then (Pending stack, True)
        else (Pending (CHR ''>'' # stack), False)
      else if c = CHR ''<'' then
        if i > 0 \<and> line ! (i - 1) = CHR ''<'' then (Pending stack, True)
        else if stack \<noteq> [] \<and> hd stack = CHR ''>'' then
          (if tl stack = [] then Closed i else Pending (tl stack), False)
        else (Pending stack, False)
      else if c \<in> set openers then
        (let stack = dropWhile (\<lambda>d. d = CHR ''>'') stack in
         if stack = [] then (Mismatch, False)
         else if pairs c (hd stack) then
           (if tl stack = [] then Closed i else Pending (tl stack), False)
         else (Mismatch, False))
      else if c = CHR '';'' then
        (let stack = dropWhile (\<lambda>d. d = CHR ''>'') stack in
         (if stack = [] then Mismatch else Pending stack, False))
      else (Pending stack, False))"

text \<open>The argument is the position plus one, \<open>0\<close> for the position \<open>-1\<close>.\<close>

function start_scan :: "string \<Rightarrow> nat \<Rightarrow> char list \<Rightarrow> scan" where
  "start_scan line n stack =
     (if n = 0 then Pending stack
      else (case start_step line (n - 1) stack of
              (Pending stack', skip) \<Rightarrow> start_scan line (n - (if skip then 2 else 1)) stack'
            | (r, skip) \<Rightarrow> r))"
  by pat_completeness auto
termination by (relation "measure (\<lambda>(line, n, stack). n)") auto

declare start_scan.simps [simp del]

definition FindStartOfExpressionInLine :: "string \<Rightarrow> int \<Rightarrow> char list \<Rightarrow> scan" where
  "FindStartOfExpressionInLine line endpos stack = start_scan line (nat (endpos + 1)) stack"

fun reverse_lines ::
    "CleansedLines \<Rightarrow> string \<Rightarrow> nat \<Rightarrow> scan \<Rightarrow> string \<times> nat \<times> int" where
  "reverse_lines cl line linenum (Closed start_pos) = (line, linenum, int start_pos)"
| "reverse_lines cl line linenum Mismatch = (line, 0, -1)"
| "reverse_lines cl line 0 (Pending stack) = (line, 0, -1)"
| "reverse_lines cl line (Suc linenum) (Pending stack) =
     (if stack \<noteq> [] then
        (let line = elided cl ! linenum in
         reverse_lines cl line linenum
           (FindStartOfExpressionInLine line (int (length line) - 1) stack))
      else (line, 0, -1))"

definition ReverseCloseExpression ::
    "CleansedLines \<Rightarrow> nat \<Rightarrow> nat \<Rightarrow> (string \<times> nat \<times> int) option" where
  "ReverseCloseExpression cl linenum pos =
     (if linenum < length (elided cl) \<and> pos < length (elided cl ! linenum) then
        (let line = elided cl ! linenum in
         if line ! pos \<notin> set '')}]>'' then Some (line, 0, -1)
         else Some (reverse_lines cl line linenum (FindStartOfExpressionInLine line (int pos) [])))
      else None)"

section \<open>Where an expression closes\<close>

definition cleansed_ok :: "CleansedLines \<Rightarrow> bool" where
  "cleansed_ok cl \<longleftrightarrow> length (elided cl) = num_lines cl \<and> length (lines cl) = num_lines cl \<and>
     length (raw_lines cl) = num_lines cl \<and> length (lines_without_raw_strings cl) = num_lines cl"

lemma pairs_disjoint: "pairs a c \<Longrightarrow> a \<in> set openers \<and> c \<in> set closers \<and> c \<notin> set openers"
  by (auto simp: pairs_def)

lemma last_dropWhile:
  "xs \<noteq> [] \<Longrightarrow> \<not> P (last xs) \<Longrightarrow> dropWhile P xs \<noteq> [] \<and> last (dropWhile P xs) = last xs"
  by (metis dropWhile_eq_Nil_conv last_appendR last_in_set takeWhile_dropWhile_id)

text \<open>While the bracket at the bottom of the stack is open, only its partner closes.\<close>

definition holds_bottom :: "char \<Rightarrow> char list \<Rightarrow> bool" where
  "holds_bottom a stack \<longleftrightarrow> stack \<noteq> [] \<and> last stack = a"

lemma holds_bottom_push: "holds_bottom a stack \<Longrightarrow> holds_bottom a (c # stack)"
  by (simp add: holds_bottom_def)

lemma holds_bottom_pop: "holds_bottom a stack \<Longrightarrow> tl stack \<noteq> [] \<Longrightarrow> holds_bottom a (tl stack)"
  by (cases stack) (auto simp: holds_bottom_def)

lemma holds_bottom_single: "holds_bottom a stack \<Longrightarrow> tl stack = [] \<Longrightarrow> stack = [a]"
  by (cases stack) (auto simp: holds_bottom_def)

lemma holds_bottom_drop:
  "holds_bottom a stack \<Longrightarrow> a \<noteq> d \<Longrightarrow> holds_bottom a (dropWhile (\<lambda>c. c = d) stack)"
  unfolding holds_bottom_def using last_dropWhile [of stack "\<lambda>c. c = d"] by auto

lemmas holds_bottom_rules = holds_bottom_push holds_bottom_pop holds_bottom_drop

lemma end_step_bottom:
  assumes "holds_bottom a stack" and "a \<in> set openers"
  shows "case end_step line i stack of
      Closed j \<Rightarrow> j = i + 1 \<and> pairs a (line ! i)
    | Mismatch \<Rightarrow> True
    | Pending stack' \<Rightarrow> holds_bottom a stack'"
proof -
  define dropped where "dropped = dropWhile (\<lambda>d. d = CHR ''<'') stack"
  have d: "holds_bottom a dropped" unfolding dropped_def using assms by (intro holds_bottom_drop) auto
  have "\<And>c. holds_bottom a (c # stack)" using assms(1) by (rule holds_bottom_push)
  moreover have "tl stack \<noteq> [] \<Longrightarrow> holds_bottom a (tl stack)" "tl dropped \<noteq> [] \<Longrightarrow> holds_bottom a (tl dropped)"
    using assms(1) d by (auto intro: holds_bottom_pop)
  moreover have "tl dropped = [] \<Longrightarrow> hd dropped = a" "tl stack = [] \<Longrightarrow> hd stack = a"
    using holds_bottom_single [OF d] holds_bottom_single [OF assms(1)] by auto
  moreover have "dropped \<noteq> []" "stack \<noteq> []" using d assms(1) by (simp_all add: holds_bottom_def)
  moreover have "a \<noteq> CHR ''<''" using assms(2) by auto
  ultimately show ?thesis
    using assms d unfolding end_step_def Let_def dropped_def [symmetric] by (simp split: if_split)
qed

lemma end_scan_bottom:
  assumes "holds_bottom a stack" and "a \<in> set openers"
  shows "case end_scan line is stack of
      Closed j \<Rightarrow> j - 1 \<in> set is \<and> j > 0 \<and> pairs a (line ! (j - 1))
    | Mismatch \<Rightarrow> True
    | Pending stack' \<Rightarrow> holds_bottom a stack'"
  using assms(1)
proof (induction "is" arbitrary: stack)
  case (Cons i "is")
  show ?case
  proof (cases "end_step line i stack")
    case (Pending stack')
    with end_step_bottom [OF Cons.prems assms(2), of i line] have "holds_bottom a stack'" by simp
    from Cons.IH [OF this] Pending show ?thesis by (auto split: scan.splits)
  qed (use end_step_bottom [OF Cons.prems assms(2), of i line] in auto)
qed simp

lemma end_step_Closed: "end_step line i stack = Closed j \<Longrightarrow> j = i + 1"
  by (auto simp: end_step_def Let_def split: if_splits)

lemma end_scan_Closed: "end_scan line is stack = Closed j \<Longrightarrow> j > 0 \<and> j - 1 \<in> set is"
proof (induction "is" arbitrary: stack)
  case (Cons i "is")
  then show ?case by (auto split: scan.splits dest: end_step_Closed)
qed simp

lemma FindEnd_Closed:
  "FindEndOfExpressionInLine line startpos stack = Closed j \<Longrightarrow> startpos < j \<and> j \<le> length line"
  using end_scan_Closed [of line "[startpos..<length line]" stack j]
  by (auto simp: FindEndOfExpressionInLine_def)

lemma close_lines_bounds:
  assumes "close_lines cl line n r = (line', n', p)" and "line = elided cl ! n" and "n < NumLines cl"
    and "\<forall>j. r = Closed j \<longrightarrow> 0 < j \<and> j \<le> length line"
  shows "p = -1 \<and> n' = NumLines cl \<or>
    n \<le> n' \<and> n' < NumLines cl \<and> line' = elided cl ! n' \<and> 0 < p \<and> p \<le> int (length line')"
  using assms
proof (induction cl line n r rule: close_lines.induct)
  case (1 cl line n r)
  note eq = close_lines.simps [of cl line n r]
  show ?case
  proof (cases "\<exists>stack. r = Pending stack \<and> stack \<noteq> [] \<and> n < NumLines cl - 1")
    case True
    then obtain stack where r: "r = Pending stack" "stack \<noteq> []" "n < NumLines cl - 1" by blast
    let ?line = "elided cl ! (n + 1)"
    from r 1(2) have "close_lines cl ?line (n + 1) (FindEndOfExpressionInLine ?line 0 stack) = (line', n', p)"
      unfolding eq by (simp add: Let_def)
    with 1(1) [OF r(1) _ refl] r FindEnd_Closed [of ?line 0 stack]
    show ?thesis by fastforce
  next
    case False
    with 1(2) [unfolded eq] 1(3-5) show ?thesis by (auto split: scan.splits if_splits)
  qed
qed

lemma FindEnd_pairs:
  assumes "pos < length line" and "line ! pos \<in> set openers"
  shows "case FindEndOfExpressionInLine line pos [] of
      Closed j \<Rightarrow> pairs (line ! pos) (line ! (j - 1))
    | Mismatch \<Rightarrow> True
    | Pending s \<Rightarrow> holds_bottom (line ! pos) s"
proof -
  from assms have "FindEndOfExpressionInLine line pos [] = end_scan line [Suc pos..<length line] [line ! pos]"
    by (simp add: FindEndOfExpressionInLine_def upt_conv_Cons end_step_def)
  moreover have "holds_bottom (line ! pos) [line ! pos]" by (simp add: holds_bottom_def)
  ultimately show ?thesis
    using end_scan_bottom [OF _ assms(2), of "[line ! pos]" "[Suc pos..<length line]" line]
    by (auto split: scan.splits)
qed

lemma close_lines_same_line:
  assumes "close_lines cl line n r = (line', n, int j)" and "n < NumLines cl"
  shows "r = Closed j \<and> line' = line"
proof (cases "\<exists>stack. r = Pending stack \<and> stack \<noteq> [] \<and> n < NumLines cl - 1")
  case True
  then obtain stack where r: "r = Pending stack" "stack \<noteq> []" "n < NumLines cl - 1" by blast
  let ?line = "elided cl ! (n + 1)"
  from r assms(1) have "close_lines cl ?line (n + 1) (FindEndOfExpressionInLine ?line 0 stack) = (line', n, int j)"
    unfolding close_lines.simps [of cl line n r] by (simp add: Let_def)
  from close_lines_bounds [OF this refl] r FindEnd_Closed [of ?line 0 stack] show ?thesis by fastforce
next
  case False
  with assms(1) [unfolded close_lines.simps [of cl line n r]] show ?thesis
    by (auto split: scan.splits if_splits)
qed

lemma CloseExpression_bounds:
  assumes "linenum < NumLines cl" and "CloseExpression cl linenum pos = Some (line, n, p)" and "0 \<le> p"
  shows "linenum \<le> n \<and> n < NumLines cl \<and> line = elided cl ! n \<and> p \<le> int (length line) \<and>
    (n = linenum \<longrightarrow> int pos < p)"
proof -
  let ?line = "elided cl ! linenum"
  let ?r = "FindEndOfExpressionInLine ?line pos []"
  from assms(2,3) have c: "close_lines cl ?line linenum ?r = (line, n, p)"
    by (auto simp: CloseExpression_def Let_def split: if_splits)
  have "int pos < p" if "n = linenum"
    using close_lines_same_line [of cl ?line linenum ?r line "nat p"] c that assms(1,3)
      FindEnd_Closed [of ?line pos "[]" "nat p"] by auto
  with close_lines_bounds [OF c refl assms(1)] FindEnd_Closed [of ?line pos "[]"] assms(3)
  show ?thesis by fastforce
qed

text \<open>Text in which round, square and curly brackets are properly nested, and a stack machine that
  recognises it.\<close>

inductive well_nested :: "string \<Rightarrow> bool" where
  nest_Nil: "well_nested []"
| nest_plain: "c \<notin> set openers \<Longrightarrow> c \<notin> set closers \<Longrightarrow> well_nested w \<Longrightarrow> well_nested (c # w)"
| nest_pair: "pairs a c \<Longrightarrow> well_nested u \<Longrightarrow> well_nested v \<Longrightarrow> well_nested (a # u @ c # v)"

fun read_brackets :: "char list \<Rightarrow> string \<Rightarrow> char list option" where
  "read_brackets s [] = Some s"
| "read_brackets s (c # w) =
     (if c \<in> set openers then read_brackets (c # s) w
      else if c \<in> set closers then
        (case s of [] \<Rightarrow> None | d # s' \<Rightarrow> if pairs d c then read_brackets s' w else None)
      else read_brackets s w)"

lemma read_brackets_append:
  "read_brackets s (u @ v) = (case read_brackets s u of None \<Rightarrow> None | Some s' \<Rightarrow> read_brackets s' v)"
  by (induction s u rule: read_brackets.induct) (simp_all split: list.split)

lemma well_nested_read: "well_nested w \<Longrightarrow> read_brackets s w = Some s"
proof (induction w arbitrary: s rule: well_nested.induct)
  case (nest_pair a c u v)
  then show ?case using pairs_disjoint [OF nest_pair.hyps(1)] by (simp only: read_brackets.simps read_brackets_append) simp
qed simp_all

text \<open>Text that closes the brackets of a stack from the top.\<close>

fun closes_stack :: "char list \<Rightarrow> string \<Rightarrow> bool" where
  "closes_stack [] w = well_nested w"
| "closes_stack (d # s) w = (\<exists>u c v. w = u @ c # v \<and> well_nested u \<and> pairs d c \<and> closes_stack s v)"

lemma closes_stack_plain:
  assumes "closes_stack s w" "c \<notin> set openers" "c \<notin> set closers"
  shows "closes_stack s (c # w)"
proof (cases s)
  case (Cons d s')
  with assms(1) obtain u c' v where "w = u @ c' # v" "well_nested u" "pairs d c'" "closes_stack s' v" by auto
  with nest_plain [OF assms(2,3)] Cons show ?thesis by (auto intro!: exI [of _ "c # u"])
qed (use assms nest_plain in simp)

lemma closes_stack_open:
  assumes "closes_stack (c # s) w"
  shows "closes_stack s (c # w)"
proof -
  from assms obtain u d v where w: "w = u @ d # v" "well_nested u" "pairs c d" and v: "closes_stack s v" by auto
  show ?thesis
  proof (cases s)
    case Nil
    with v w show ?thesis by (simp add: nest_pair)
  next
    case (Cons e s')
    with v obtain u' d' v' where "v = u' @ d' # v'" "well_nested u'" "pairs e d'" "closes_stack s' v'" by auto
    with w nest_pair [OF w(3,2)] Cons show ?thesis by (auto intro!: exI [of _ "c # u @ d # u'"])
  qed
qed

lemma read_closes: "read_brackets s w = Some [] \<Longrightarrow> closes_stack s w"
proof (induction s w rule: read_brackets.induct)
  case (2 s c w)
  show ?case
  proof (cases "c \<in> set closers \<and> c \<notin> set openers")
    case True
    with 2 obtain d s' where "s = d # s'" "pairs d c" "closes_stack s' w"
      by (auto split: list.splits if_splits)
    then show ?thesis using nest_Nil by fastforce
  next
    case False
    then show ?thesis
    proof (cases "c \<in> set openers")
      case True
      with 2 have "closes_stack (c # s) w" by (simp only: read_brackets.simps if_True)
      then show ?thesis by (rule closes_stack_open)
    next
      case no: False
      with False 2 have "closes_stack s w" by (simp only: read_brackets.simps if_False) simp
      then show ?thesis using no False by (intro closes_stack_plain) simp_all
    qed
  qed
qed (simp add: nest_Nil)

lemma well_nested_iff: "well_nested w \<longleftrightarrow> read_brackets [] w = Some []"
  using well_nested_read read_closes [of "[]"] by auto

text \<open>The brackets of the scan's stack, without the possible template brackets.\<close>

abbreviation brackets_of :: "char list \<Rightarrow> char list" where
  "brackets_of stack \<equiv> filter (\<lambda>d. d \<noteq> CHR ''<'') stack"

lemma brackets_of_dropWhile: "brackets_of (dropWhile (\<lambda>d. d = CHR ''<'') s) = brackets_of s"
  by (induction s) auto

lemma brackets_of_Nil: "dropWhile (\<lambda>d. d = CHR ''<'') s = [] \<longleftrightarrow> brackets_of s = []"
  by (simp add: filter_empty_conv)

lemma brackets_of_Cons:
  assumes "dropWhile (\<lambda>d. d = CHR ''<'') s = d # s'"
  shows "brackets_of s = d # brackets_of s'"
proof -
  have "d \<noteq> CHR ''<''" using hd_dropWhile [of "\<lambda>d. d = CHR ''<''" s] by (simp add: assms)
  then show ?thesis using brackets_of_dropWhile [of s, unfolded assms] by simp
qed

text \<open>One step of the scan, seen on those brackets.\<close>

lemma end_step_brackets:
  "case end_step line i stack of
     Closed j \<Rightarrow> j = i + 1 \<and>
       ((\<exists>d. dropWhile (\<lambda>d. d = CHR ''<'') stack = [d] \<and> pairs d (line ! i)) \<or>
        line ! i = CHR ''>'' \<and> stack = [CHR ''<''])
   | Mismatch \<Rightarrow> brackets_of stack = [] \<or> read_brackets (brackets_of stack) [line ! i] = None
   | Pending stack' \<Rightarrow> read_brackets (brackets_of stack) [line ! i] = Some (brackets_of stack')"
proof -
  let ?c = "line ! i"
  define dropped where "dropped = dropWhile (\<lambda>d. d = CHR ''<'') stack"
  note step = end_step_def [of line i stack, unfolded Let_def, folded dropped_def]
  have dropped_Nil: "dropped = [] \<longleftrightarrow> brackets_of stack = []" "brackets_of dropped = brackets_of stack"
    unfolding dropped_def by (rule brackets_of_Nil, rule brackets_of_dropWhile)
  have dropped_Cons: "brackets_of stack = d # brackets_of s'" if "dropped = d # s'" for d s'
    using that unfolding dropped_def by (rule brackets_of_Cons)
  have top: "brackets_of (tl stack) = brackets_of stack" if "stack \<noteq> [] \<and> hd stack = CHR ''<''"
    using that by (cases stack) auto
  have single: "stack = [CHR ''<'']" if "stack \<noteq> [] \<and> hd stack = CHR ''<''" "tl stack = []"
    using that by (cases stack) auto
  consider "?c \<in> set openers" | "?c = CHR ''<''" | "?c \<in> set closers" | "?c = CHR ''>''" | "?c = CHR '';''"
    | "?c \<notin> set openers" "?c \<notin> set closers" "?c \<noteq> CHR ''<''" "?c \<noteq> CHR ''>''" "?c \<noteq> CHR '';''"
    by blast
  then show ?thesis
  proof cases
    case 1
    then have "end_step line i stack = Pending (?c # stack)" "?c \<noteq> CHR ''<''" unfolding step by auto
    then show ?thesis using 1 by simp
  next
    case 2
    then have "end_step line i stack \<in> {Pending stack, Pending (CHR ''<'' # stack)} \<or>
        (stack \<noteq> [] \<and> hd stack = CHR ''<'') \<and>
        end_step line i stack = (if tl stack = [] then Mismatch else Pending (tl stack))"
      unfolding step by simp
    with 2 top single show ?thesis by auto
  next
    case 3
    then have c: "?c \<notin> set openers" "?c \<noteq> CHR ''<''" by auto
    show ?thesis
    proof (cases dropped)
      case Nil
      then show ?thesis unfolding step using 3 c dropped_Nil by simp
    next
      case (Cons d s')
      then show ?thesis unfolding step dropped_def [symmetric] using 3 c dropped_Cons [OF Cons] by simp
    qed
  next
    case 4
    then have "end_step line i stack = Pending stack \<or>
        (stack \<noteq> [] \<and> hd stack = CHR ''<'') \<and>
        end_step line i stack = (if tl stack = [] then Closed (i + 1) else Pending (tl stack))"
      unfolding step by simp
    with 4 top single show ?thesis by auto
  next
    case 5
    then show ?thesis unfolding step using dropped_Nil by auto
  next
    case 6
    then show ?thesis unfolding step by simp
  qed
qed

text \<open>The stack above the bracket that is to be closed decides about the end of the scan.\<close>

definition stack_above :: "char \<Rightarrow> char list \<Rightarrow> char list \<Rightarrow> bool" where
  "stack_above a t stack \<longleftrightarrow> a \<in> set openers \<and> holds_bottom a stack \<and> brackets_of stack = t @ [a]"

lemma read_brackets_above:
  "t \<noteq> [] \<or> \<not> pairs a c \<Longrightarrow> read_brackets (t @ [a]) [c] = map_option (\<lambda>t'. t' @ [a]) (read_brackets t [c])"
  by (cases t) (simp_all only: read_brackets.simps append_Cons append_Nil list.case split: if_split, simp_all)

declare read_brackets.simps(2) [simp del]

lemma above_step:
  assumes "stack_above a t stack"
  shows "if t = [] \<and> pairs a (line ! i) then end_step line i stack = Closed (i + 1)
    else case read_brackets t [line ! i] of
        None \<Rightarrow> end_step line i stack = Mismatch
      | Some t' \<Rightarrow> \<exists>stack'. end_step line i stack = Pending stack' \<and> stack_above a t' stack'"
proof -
  let ?c = "line ! i"
  from assms have a: "a \<in> set openers" "holds_bottom a stack" "brackets_of stack = t @ [a]"
    by (simp_all add: stack_above_def)
  note step = end_step_brackets [where line = line and i = i and stack = stack] and bottom = end_step_bottom [OF a(2,1), where line = line and i = i]
  have closed: "t = [] \<and> pairs a ?c" if "end_step line i stack = Closed j" for j
  proof -
    have "stack \<noteq> [CHR ''<'']" using a by auto
    with step that obtain d where "dropWhile (\<lambda>d. d = CHR ''<'') stack = [d]" "pairs d ?c" by auto
    with brackets_of_Cons [of stack d "[]"] a(3) show ?thesis by simp
  qed
  show ?thesis
  proof (cases "t = [] \<and> pairs a ?c")
    case True
    then have r: "read_brackets (brackets_of stack) [?c] = Some []"
      using pairs_disjoint [of a ?c] unfolding a(3) by (simp only: read_brackets.simps append_Nil list.case if_True if_False)
    have "end_step line i stack = Closed (i + 1)"
    proof (cases "end_step line i stack")
      case (Pending stack')
      with step r have "brackets_of stack' = []" by simp
      moreover from Pending bottom have "holds_bottom a stack'" by simp
      then have "a \<in> set stack'" unfolding holds_bottom_def using last_in_set by blast
      moreover have "a \<noteq> CHR ''<''" using a(1) by auto
      ultimately show ?thesis by (simp add: filter_empty_conv)
    next
      case Mismatch
      with step r a(3) show ?thesis by simp
    next
      case (Closed j)
      with step show ?thesis by simp
    qed
    with True show ?thesis by simp
  next
    case False
    then have r: "read_brackets (brackets_of stack) [?c] = map_option (\<lambda>t'. t' @ [a]) (read_brackets t [?c])"
      unfolding a(3) by (intro read_brackets_above) auto
    show ?thesis
    proof (cases "end_step line i stack")
      case (Closed j)
      with closed False show ?thesis by blast
    next
      case Mismatch
      with step r a(3) have "read_brackets t [?c] = None" by simp
      with Mismatch show ?thesis unfolding if_not_P [OF False] by (simp only: option.case)
    next
      case (Pending stack')
      with step r obtain t' where t': "read_brackets t [?c] = Some t'" "brackets_of stack' = t' @ [a]" by auto
      with Pending bottom a(1) show ?thesis
        unfolding if_not_P [OF False] t'(1) by (simp only: option.case stack_above_def) simp
    qed
  qed
qed

lemma above_scan:
  assumes "stack_above a t stack" and "i \<le> length line"
  shows "(end_scan line [i..<length line] stack = Closed (Suc q) \<longleftrightarrow>
      i \<le> q \<and> q < length line \<and> read_brackets t (drop i (take q line)) = Some [] \<and> pairs a (line ! q)) \<and>
    (case read_brackets t (drop i line) of
       None \<Rightarrow> \<forall>stack'. end_scan line [i..<length line] stack \<noteq> Pending stack'
     | Some t' \<Rightarrow> \<exists>stack'. end_scan line [i..<length line] stack = Pending stack' \<and> stack_above a t' stack')"
  using assms
proof (induction "length line - i" arbitrary: i t stack)
  case 0
  then show ?case by simp
next
  case (Suc n)
  let ?c = "line ! i"
  from Suc.hyps(2) have i: "i < length line" by simp
  then have d: "drop i line = ?c # drop (Suc i) line" "[i..<length line] = i # [Suc i..<length line]"
    by (simp_all add: Cons_nth_drop_Suc upt_conv_Cons)
  have dt: "drop i (take q line) = (if i < q then ?c # drop (Suc i) (take q line) else [])"
    using i by (simp add: Cons_nth_drop_Suc [symmetric])
  have read: "read_brackets t (?c # w) =
      (case read_brackets t [?c] of None \<Rightarrow> None | Some t' \<Rightarrow> read_brackets t' w)" for w
    using read_brackets_append [of t "[?c]" w] by simp
  note read1 = read [of "drop (Suc i) line"] read [of "drop (Suc i) (take q line)"]
  note step = above_step [OF Suc.prems(1), where line = line and i = i]
  show ?case
  proof (cases "t = [] \<and> pairs a ?c")
    case True
    then have "read_brackets t [?c] = None" using pairs_disjoint [of a ?c] by (simp only: read_brackets.simps) simp
    with step True i read1 show ?thesis unfolding dt d by (cases "q = i") auto
  next
    case False
    note step = step [unfolded if_not_P [OF False]]
    show ?thesis
    proof (cases "read_brackets t [?c]")
      case None
      with step False read1 show ?thesis unfolding dt d by (cases "q = i") auto
    next
      case (Some t')
      with step obtain stack' where s: "end_step line i stack = Pending stack'" "stack_above a t' stack'" by auto
      have scan: "end_scan line [i..<length line] stack = end_scan line [Suc i..<length line] stack'"
        using s(1) by (simp add: d(2))
      have "n = length line - Suc i" "Suc i \<le> length line" using Suc.hyps(2) i by simp_all
      note ih = Suc.hyps(1) [OF this(1) s(2) this(2)]
      have "read_brackets t (drop i (take q line)) = Some [] \<longleftrightarrow>
          read_brackets t' (drop (Suc i) (take q line)) = Some []" if "i < q"
        using that read1(2) Some by (simp add: dt)
      moreover have "\<not> (read_brackets t (drop i (take q line)) = Some [] \<and> pairs a (line ! q))" if "q = i"
        using that False by (auto simp: dt)
      moreover have "read_brackets t (drop i line) = read_brackets t' (drop (Suc i) line)"
        using read1(1) Some by (simp add: d(1))
      ultimately show ?thesis using ih unfolding scan by (cases "q = i") (auto simp: Suc_le_eq le_less)
    qed
  qed
qed

text \<open>The text between the character before column \<open>i\<close> of a line and column \<open>q\<close> of the same or a later line.\<close>

definition text_between :: "CleansedLines \<Rightarrow> nat \<Rightarrow> nat \<Rightarrow> nat \<Rightarrow> nat \<Rightarrow> string" where
  "text_between cl n i n' q =
     (if n' = n then drop i (take q (elided cl ! n))
      else drop i (elided cl ! n) @ concat (map ((!) (elided cl)) [Suc n..<n']) @ take q (elided cl ! n'))"

lemma text_between_next:
  "n < n' \<Longrightarrow> text_between cl n i n' q = drop i (elided cl ! n) @ text_between cl (Suc n) 0 n' q"
  by (auto simp: text_between_def upt_conv_Cons)

lemma above_lines:
  assumes "stack_above a t stack" and "n < NumLines cl" and "i \<le> length (elided cl ! n)"
  shows "close_lines cl (elided cl ! n) n (FindEndOfExpressionInLine (elided cl ! n) i stack) = (line', n', int q + 1) \<longleftrightarrow>
    line' = elided cl ! n' \<and> n \<le> n' \<and> n' < NumLines cl \<and> q < length (elided cl ! n') \<and> (n' = n \<longrightarrow> i \<le> q) \<and>
    read_brackets t (text_between cl n i n' q) = Some [] \<and> pairs a (elided cl ! n' ! q)"
  using assms
proof (induction "NumLines cl - n" arbitrary: n i t stack)
  case (Suc k)
  let ?line = "elided cl ! n"
  let ?r = "FindEndOfExpressionInLine ?line i stack"
  note eq = close_lines.simps [of cl ?line n ?r]
  note scan = above_scan [OF Suc.prems(1,3), of q, folded FindEndOfExpressionInLine_def]
  show ?case
  proof (cases "read_brackets t (drop i ?line)")
    case None
    with scan have "\<forall>stack'. ?r \<noteq> Pending stack'" by simp
    then have "close_lines cl ?line n ?r = (line', n', int q + 1) \<longleftrightarrow> ?r = Closed (Suc q) \<and> line' = ?line \<and> n' = n"
      unfolding eq by (auto split: scan.split)
    moreover have "read_brackets t (text_between cl n i n' q) = None" if "n < n'"
      using None that by (simp add: text_between_next read_brackets_append)
    ultimately show ?thesis using scan Suc.prems(2) by (auto simp: text_between_def le_less)
  next
    case (Some t')
    with scan obtain stack' where s: "?r = Pending stack'" "stack_above a t' stack'" by auto
    then have ne: "stack' \<noteq> []" by (auto simp: stack_above_def)
    have same: "\<not> (i \<le> q \<and> q < length ?line \<and> read_brackets t (text_between cl n i n q) = Some [] \<and> pairs a (?line ! q))"
      using scan s(1) by (simp add: text_between_def)
    show ?thesis
    proof (cases "n < NumLines cl - 1")
      case True
      then have "close_lines cl ?line n ?r =
          close_lines cl (elided cl ! Suc n) (Suc n) (FindEndOfExpressionInLine (elided cl ! Suc n) 0 stack')"
        unfolding eq using s(1) ne by (simp add: Let_def)
      moreover have "read_brackets t (text_between cl n i n' q) = read_brackets t' (text_between cl (Suc n) 0 n' q)"
        if "n < n'"
        using Some that by (simp add: text_between_next read_brackets_append)
      ultimately show ?thesis
        using Suc.hyps(1) [of "Suc n", OF _ s(2)] Suc.hyps(2) True same by (auto simp: Suc_le_eq le_less)
    next
      case False
      then have "close_lines cl ?line n ?r = (?line, NumLines cl, -1)" unfolding eq using s(1) by simp
      with same False show ?thesis by (auto simp: le_less)
    qed
  qed
qed simp

text \<open>A template bracket at the bottom: only \<open>>\<close> closes it, when every bracket above it is closed.\<close>

lemma holds_bottom_dropped:
  "holds_bottom a stack \<Longrightarrow> dropWhile P stack \<noteq> [] \<Longrightarrow> holds_bottom a (dropWhile P stack)"
  unfolding holds_bottom_def by (metis last_appendR takeWhile_dropWhile_id)

lemma end_step_angle:
  assumes "holds_bottom (CHR ''<'') stack" and "end_step line i stack = Pending stack'"
  shows "holds_bottom (CHR ''<'') stack'"
proof -
  define dropped where "dropped = dropWhile (\<lambda>d. d = CHR ''<'') stack"
  have "dropped \<noteq> [] \<Longrightarrow> holds_bottom (CHR ''<'') dropped"
    unfolding dropped_def by (rule holds_bottom_dropped [OF assms(1)])
  moreover from this have "dropped \<noteq> [] \<Longrightarrow> tl dropped \<noteq> [] \<Longrightarrow> holds_bottom (CHR ''<'') (tl dropped)"
    by (intro holds_bottom_pop)
  moreover have "\<And>c. holds_bottom (CHR ''<'') (c # stack)" "tl stack \<noteq> [] \<Longrightarrow> holds_bottom (CHR ''<'') (tl stack)"
    using assms(1) by (auto intro: holds_bottom_push holds_bottom_pop)
  ultimately show ?thesis
    using assms unfolding end_step_def Let_def dropped_def [symmetric] by (simp split: if_splits) blast+
qed

lemma end_step_angle_Closed:
  assumes "holds_bottom (CHR ''<'') stack" and "end_step line i stack = Closed j"
  shows "j = i + 1 \<and> line ! i = CHR ''>'' \<and> brackets_of stack = []"
proof -
  have "\<not> pairs d c" if "dropWhile (\<lambda>d. d = CHR ''<'') stack = [d]" for d c
    using holds_bottom_dropped [OF assms(1), of "\<lambda>d. d = CHR ''<''"] that
    by (auto simp: holds_bottom_def pairs_def)
  with end_step_brackets [where line = line and i = i and stack = stack] assms(2) show ?thesis by auto
qed

lemma angle_scan:
  assumes "holds_bottom (CHR ''<'') stack" and "i \<le> length line"
  shows "case end_scan line [i..<length line] stack of
      Closed j \<Rightarrow> \<exists>q. j = Suc q \<and> i \<le> q \<and> q < length line \<and> line ! q = CHR ''>'' \<and>
        read_brackets (brackets_of stack) (drop i (take q line)) = Some []
    | Mismatch \<Rightarrow> True
    | Pending stack' \<Rightarrow> holds_bottom (CHR ''<'') stack' \<and>
        read_brackets (brackets_of stack) (drop i line) = Some (brackets_of stack')"
  using assms
proof (induction "length line - i" arbitrary: i stack)
  case (Suc n)
  let ?c = "line ! i"
  from Suc.hyps(2) have i: "i < length line" by simp
  then have d: "drop i line = ?c # drop (Suc i) line" "[i..<length line] = i # [Suc i..<length line]"
    by (simp_all add: Cons_nth_drop_Suc upt_conv_Cons)
  have dt: "drop i (take q line) = ?c # drop (Suc i) (take q line)" if "i < q" for q
    using i that by (simp add: Cons_nth_drop_Suc [symmetric])
  show ?case
  proof (cases "end_step line i stack")
    case (Closed j)
    with end_step_angle_Closed [OF Suc.prems(1) Closed] i d(2) show ?thesis by simp
  next
    case Mismatch
    with d(2) show ?thesis by simp
  next
    case (Pending stack')
    have b: "holds_bottom (CHR ''<'') stack'" by (rule end_step_angle [OF Suc.prems(1) Pending])
    have r: "read_brackets (brackets_of stack) (?c # w) = read_brackets (brackets_of stack') w" for w
      using end_step_brackets [where line = line and i = i and stack = stack] Pending
        read_brackets_append [of "brackets_of stack" "[?c]" w] by simp
    have "n = length line - Suc i" "Suc i \<le> length line" using Suc.hyps(2) i by simp_all
    from Suc.hyps(1) [OF this(1) b this(2)]
    show ?thesis using Pending r by (auto simp: d dt Suc_le_eq split: scan.splits)
  qed
qed simp

lemma angle_lines:
  assumes "close_lines cl (elided cl ! n) n (FindEndOfExpressionInLine (elided cl ! n) i stack) = (line', n', p)"
    and "p \<noteq> -1" and "holds_bottom (CHR ''<'') stack" and "n < NumLines cl" and "i \<le> length (elided cl ! n)"
  shows "\<exists>q. p = int q + 1 \<and> line' = elided cl ! n' \<and> n \<le> n' \<and> n' < NumLines cl \<and> q < length line' \<and>
    (n' = n \<longrightarrow> i \<le> q) \<and> read_brackets (brackets_of stack) (text_between cl n i n' q) = Some [] \<and> line' ! q = CHR ''>''"
  using assms
proof (induction "NumLines cl - n" arbitrary: n i stack)
  case (Suc k)
  let ?line = "elided cl ! n"
  let ?r = "FindEndOfExpressionInLine ?line i stack"
  note eq = close_lines.simps [of cl ?line n ?r]
  note scan = angle_scan [OF Suc.prems(3,5), folded FindEndOfExpressionInLine_def]
  show ?case
  proof (cases ?r)
    case (Closed j)
    with Suc.prems(1) have "line' = ?line \<and> n' = n \<and> p = int j" unfolding eq by auto
    with scan Closed Suc.prems(4) show ?thesis by (auto simp: text_between_def)
  next
    case Mismatch
    with Suc.prems(1,2) show ?thesis unfolding eq by simp
  next
    case (Pending stack')
    with scan have s: "holds_bottom (CHR ''<'') stack'"
      "read_brackets (brackets_of stack) (drop i ?line) = Some (brackets_of stack')" by simp_all
    with Pending Suc.prems(1,2) have n: "n < NumLines cl - 1" and
      c: "close_lines cl (elided cl ! Suc n) (Suc n) (FindEndOfExpressionInLine (elided cl ! Suc n) 0 stack') =
        (line', n', p)"
      unfolding eq by (auto simp: Let_def split: if_splits)
    have "k = NumLines cl - Suc n" "Suc n < NumLines cl" using Suc.hyps(2) n by simp_all
    from Suc.hyps(1) [OF this(1) c Suc.prems(2) s(1) this(2)] s(2)
    show ?thesis by (auto simp: text_between_next read_brackets_append Suc_le_eq)
  qed
qed simp

text \<open>The closing bracket of the expression that opens at \<open>(linenum, pos)\<close>: behind it, inside the file, with
  nested brackets between the two.\<close>

definition closes_at :: "CleansedLines \<Rightarrow> nat \<Rightarrow> nat \<Rightarrow> nat \<Rightarrow> nat \<Rightarrow> bool" where
  "closes_at cl linenum pos n q \<longleftrightarrow>
     linenum \<le> n \<and> n < NumLines cl \<and> q < length (elided cl ! n) \<and> (n = linenum \<longrightarrow> pos < q) \<and>
     well_nested (text_between cl linenum (pos + 1) n q)"

lemma close_lines_result:
  assumes "close_lines cl (elided cl ! n) n (FindEndOfExpressionInLine (elided cl ! n) i stack) = (line', n', p)"
    and "n < NumLines cl"
  shows "p = -1 \<and> n' = NumLines cl \<or> p = int (nat p - 1) + 1"
proof -
  have "0 < p" if "\<not> (p = -1 \<and> n' = NumLines cl)"
    using that close_lines_bounds [OF assms(1) refl assms(2)] FindEnd_Closed [of "elided cl ! n" i stack]
    by fastforce
  then show ?thesis by (cases "p = -1 \<and> n' = NumLines cl") auto
qed

text \<open>A \<open><\<close> that the scan takes for the bracket of a template: not the second one of \<open><<\<close> and not the name of
  an operator.\<close>

definition template_open :: "string \<Rightarrow> nat \<Rightarrow> bool" where
  "template_open line pos \<longleftrightarrow> line ! pos = CHR ''<'' \<and>
     (pos = 0 \<or> line ! (pos - 1) \<noteq> CHR ''<'' \<and> \<not> found operator_pattern (take pos line))"

lemma FindEnd_first:
  assumes "pos < length line" and "line ! pos \<in> set openers \<or> template_open line pos"
  shows "FindEndOfExpressionInLine line pos [] = FindEndOfExpressionInLine line (pos + 1) [line ! pos]"
  using assms by (auto simp: FindEndOfExpressionInLine_def upt_conv_Cons end_step_def template_open_def)

lemma shift_bracket: "matches ''<[<=]'' s \<Longrightarrow> s \<noteq> [] \<and> hd s = CHR ''<''"
proof -
  assume "matches ''<[<=]'' s"
  then obtain m where m: "re_match ''<[<=]'' s = Some m" by auto
  have "re_compile ''<[<=]'' = Some (RCat (RChar (CHR ''<'')) (RSet False [CChar (CHR ''<''), CChar (CHR ''='')]))"
    by code_simp
  from re_match_shape [OF m this] show ?thesis by auto
qed

lemma CloseExpression_opener:
  assumes "cleansed_ok cl" and "CloseExpression cl linenum pos = Some (line, n, p)"
    and "elided cl ! linenum ! pos = a" and "a \<in> set openers"
  shows "closes_at cl linenum pos n q \<and> pairs a (elided cl ! n ! q) \<and> line = elided cl ! n \<longleftrightarrow> p = int q + 1"
    and "p = -1 \<Longrightarrow> closes_at cl linenum pos n' q \<Longrightarrow> \<not> pairs a (elided cl ! n' ! q)"
proof -
  let ?line = "elided cl ! linenum"
  have i: "linenum < length (elided cl)" "pos < length ?line"
    using assms(2) by (auto simp: CloseExpression_def split: if_splits)
  then have l: "linenum < NumLines cl" using assms(1) by (simp add: cleansed_ok_def NumLines_def)
  have no: "\<not> matches ''<[<=]'' (drop pos ?line)"
  proof
    assume "matches ''<[<=]'' (drop pos ?line)"
    with shift_bracket [of "drop pos ?line"] have "a = CHR ''<''" using i(2) assms(3) by (simp add: hd_drop_conv_nth)
    with assms(4) show False by simp
  qed
  have "close_lines cl ?line linenum (FindEndOfExpressionInLine ?line pos []) = (line, n, p)"
    using assms(2-4) i no by (auto simp: CloseExpression_def Let_def split: if_splits)
  then have c: "close_lines cl ?line linenum (FindEndOfExpressionInLine ?line (pos + 1) [a]) = (line, n, p)"
    using FindEnd_first [OF i(2) disjI1] assms(3,4) by metis
  have ab: "stack_above a [] [a]" using assms(4) by (auto simp: stack_above_def holds_bottom_def)
  have iff: "(line, n, p) = (line', n', int q' + 1) \<longleftrightarrow>
      line' = elided cl ! n' \<and> closes_at cl linenum pos n' q' \<and> pairs a (elided cl ! n' ! q')" for line' n' q'
    using above_lines [OF ab l, of "pos + 1" line' n' q'] i(2) unfolding c closes_at_def well_nested_iff
    by (auto simp: Suc_le_eq)
  show "closes_at cl linenum pos n q \<and> pairs a (elided cl ! n ! q) \<and> line = elided cl ! n \<longleftrightarrow> p = int q + 1"
    using iff [of line n q] by auto
  show "\<not> pairs a (elided cl ! n' ! q)" if "p = -1" "closes_at cl linenum pos n' q"
    using iff [of "elided cl ! n'" n' q] that by auto
qed

lemma CloseExpression_template:
  assumes "cleansed_ok cl" and "CloseExpression cl linenum pos = Some (line, n, int q + 1)"
    and "template_open (elided cl ! linenum) pos"
  shows "closes_at cl linenum pos n q \<and> line ! q = CHR ''>''"
proof -
  let ?line = "elided cl ! linenum"
  have i: "linenum < length (elided cl)" "pos < length ?line"
    using assms(2) by (auto simp: CloseExpression_def split: if_splits)
  then have l: "linenum < NumLines cl" using assms(1) by (simp add: cleansed_ok_def NumLines_def)
  have "close_lines cl ?line linenum (FindEndOfExpressionInLine ?line pos []) = (line, n, int q + 1)"
    using assms(2) by (auto simp: CloseExpression_def Let_def split: if_splits)
  then have c: "close_lines cl ?line linenum (FindEndOfExpressionInLine ?line (pos + 1) [CHR ''<'']) =
      (line, n, int q + 1)"
    using FindEnd_first [OF i(2)] assms(3) by (simp add: template_open_def)
  have "holds_bottom (CHR ''<'') ''<''" by (simp add: holds_bottom_def)
  from angle_lines [OF c _ this l] i(2) show ?thesis
    by (auto simp: closes_at_def well_nested_iff Suc_le_eq)
qed

text \<open>C12: \<open>CloseExpression\<close> finds the bracket that closes an expression, over any number of lines. For a
  round, square or curly bracket it returns the position right behind the bracket of the same kind that has
  properly nested brackets between itself and the given one, and the end of the file exactly when there is no such
  bracket, whatever \<open><\<close>, \<open>>\<close> and \<open>;\<close> stand in between. For a \<open><\<close> that is neither the second character of
  \<open><<\<close> nor the name of an operator, what it returns is right behind a \<open>>\<close> with properly nested brackets before
  it. In all cases the position is inside the file and behind the given one.\<close>

theorem CloseExpression_closes:
  assumes "cleansed_ok cl" and "CloseExpression cl linenum pos = Some (line, n, p)"
    and "a = elided cl ! linenum ! pos"
  shows "p = -1 \<and> n = NumLines cl \<and>
      (a \<in> set openers \<longrightarrow> (\<forall>n' q. closes_at cl linenum pos n' q \<longrightarrow> \<not> pairs a (elided cl ! n' ! q))) \<or>
    (\<exists>q. p = int q + 1 \<and> line = elided cl ! n \<and> linenum \<le> n \<and> n < NumLines cl \<and> q < length line \<and>
      (n = linenum \<longrightarrow> pos \<le> q) \<and>
      (a \<in> set openers \<longrightarrow> closes_at cl linenum pos n q \<and> pairs a (line ! q)) \<and>
      (template_open (elided cl ! linenum) pos \<longrightarrow> closes_at cl linenum pos n q \<and> line ! q = CHR ''>''))"
proof (cases "p = -1 \<and> n = NumLines cl")
  case True
  with CloseExpression_opener(2) [OF assms(1,2) assms(3) [symmetric]] show ?thesis by blast
next
  case False
  let ?line = "elided cl ! linenum"
  have i: "linenum < length (elided cl)" using assms(2) by (auto simp: CloseExpression_def split: if_splits)
  then have l: "linenum < NumLines cl" using assms(1) by (simp add: cleansed_ok_def NumLines_def)
  from assms(2) False have c: "close_lines cl ?line linenum (FindEndOfExpressionInLine ?line pos []) = (line, n, p)"
    by (auto simp: CloseExpression_def Let_def split: if_splits)
  define q where "q = nat p - 1"
  have p: "p = int q + 1" using close_lines_result [OF c l] False by (simp add: q_def)
  with CloseExpression_bounds [OF l assms(2)]
  have "linenum \<le> n \<and> n < NumLines cl \<and> line = elided cl ! n \<and> q < length line \<and> (n = linenum \<longrightarrow> pos \<le> q)"
    by auto
  moreover have "a \<in> set openers \<longrightarrow> closes_at cl linenum pos n q \<and> pairs a (line ! q)"
    using CloseExpression_opener(1) [OF assms(1,2) assms(3) [symmetric], of q] p by auto
  moreover have "template_open ?line pos \<longrightarrow> closes_at cl linenum pos n q \<and> line ! q = CHR ''>''"
    using CloseExpression_template [OF assms(1) assms(2) [unfolded p]] by blast
  ultimately show ?thesis using p by blast
qed

definition expr_example :: CleansedLines where
  "expr_example = \<lparr>elided = [''f(a, [b'', '']);''], lines = [''f(a, [b'', '']);''],
     raw_lines = [''f(a, [b'', '']);''], num_lines = 2, lines_without_raw_strings = [''f(a, [b'', '']);'']\<rparr>"

theorem CloseExpression_closes_witness:
  "CloseExpression expr_example 0 1 = Some ('']);'', 1, 2) \<and> closes_at expr_example 0 1 1 1"
proof -
  have "cleansed_ok expr_example" by code_simp
  moreover have c: "CloseExpression expr_example 0 1 = Some ('']);'', 1, 2)" by code_simp
  moreover have a: "CHR ''('' = elided expr_example ! 0 ! 1" by code_simp
  ultimately show ?thesis using CloseExpression_closes by fastforce
qed

section \<open>Forward and back\<close>

text \<open>Text with balanced brackets, and text that closes the brackets of a stack one by one.\<close>

definition bracket_free :: "char \<Rightarrow> bool" where
  "bracket_free c \<longleftrightarrow> c \<notin> set openers \<and> c \<notin> set closers \<and> c \<notin> set ''<>;''"

inductive balanced :: "string \<Rightarrow> bool" where
  bal_Nil: "balanced []"
| bal_plain: "bracket_free c \<Longrightarrow> balanced w \<Longrightarrow> balanced (c # w)"
| bal_nest: "pairs a c \<Longrightarrow> balanced u \<Longrightarrow> balanced v \<Longrightarrow> balanced (a # u @ c # v)"

fun closes :: "char list \<Rightarrow> string \<Rightarrow> bool" where
  "closes [] t \<longleftrightarrow> False"
| "closes [a] t \<longleftrightarrow> (\<exists>w c. t = w @ [c] \<and> balanced w \<and> pairs a c)"
| "closes (a # s) t \<longleftrightarrow> (\<exists>w c t'. t = w @ c # t' \<and> balanced w \<and> pairs a c \<and> closes s t')"

lemma closes_Cons:
  "s \<noteq> [] \<Longrightarrow> closes (a # s) t \<longleftrightarrow> (\<exists>w c t'. t = w @ c # t' \<and> balanced w \<and> pairs a c \<and> closes s t')"
  by (cases s) auto

lemma closes_plain: "bracket_free c \<Longrightarrow> closes s t \<Longrightarrow> closes s (c # t)"
  by (induction s t rule: closes.induct) (auto, (metis append_Cons bal_plain)+)

lemma closes_nest:
  assumes "closes (a # s) t" and "s \<noteq> []"
  shows "closes s (a # t)"
proof -
  from assms obtain w c t' where t: "t = w @ c # t'" "balanced w" "pairs a c" and s: "closes s t'"
    by (auto simp: closes_Cons)
  from assms(2) obtain b s' where b: "s = b # s'" by (cases s) auto
  have nest: "balanced (a # w @ c # w')" if "balanced w'" for w'
    using t that by (intro bal_nest)
  show ?thesis
  proof (cases "s' = []")
    case True
    with s b obtain w' d where "t' = w' @ [d]" "balanced w'" "pairs b d" by auto
    with nest t b True show ?thesis by (metis append.assoc append_Cons closes.simps(2))
  next
    case False
    with s b obtain w' d t'' where "t' = w' @ d # t''" "balanced w'" "pairs b d" "closes s' t''"
      by (auto simp: closes_Cons)
    with nest [of w'] t b False show ?thesis
      unfolding b closes_Cons [OF False]
      by (intro exI [of _ "a # w @ c # w'"] exI [of _ d] exI [of _ t'']) simp
  qed
qed

definition segment :: "string \<Rightarrow> nat \<Rightarrow> nat \<Rightarrow> string" where
  "segment line i j = take (j - i) (drop i line)"

lemma segment_Cons: "i < j \<Longrightarrow> j \<le> length line \<Longrightarrow> segment line i j = line ! i # segment line (Suc i) j"
  by (simp add: segment_def Cons_nth_drop_Suc [symmetric] take_Cons' Suc_diff_Suc)

lemma end_step_simple:
  assumes "line ! i \<notin> set ''<>;''" and "CHR ''<'' \<notin> set stack" and "stack \<noteq> []"
  shows "end_step line i stack =
    (if line ! i \<in> set openers then Pending (line ! i # stack)
     else if line ! i \<in> set closers then
       if pairs (hd stack) (line ! i) then if tl stack = [] then Closed (i + 1) else Pending (tl stack)
       else Mismatch
     else Pending stack)"
proof -
  have "dropWhile (\<lambda>d. d = CHR ''<'') stack = stack" using assms(2,3) by (cases stack) auto
  with assms show ?thesis by (simp add: end_step_def Let_def)
qed

lemma end_scan_closes:
  assumes "end_scan line [i..<length line] stack = Closed j"
    and "\<forall>c \<in> set (segment line i j). c \<notin> set ''<>;''" and "CHR ''<'' \<notin> set stack" and "stack \<noteq> []"
  shows "closes stack (segment line i j)"
  using assms
proof (induction "length line - i" arbitrary: i stack)
  case (Suc n)
  then have i: "i < length line" by simp
  have j: "i < j" "j \<le> length line"
    using end_scan_Closed [OF Suc.prems(1)] by auto
  note seg = segment_Cons [OF j]
  let ?c = "line ! i"
  have simple: "?c \<notin> set ''<>;''" using Suc.prems(2) by (simp add: seg)
  note step = end_step_simple [OF simple Suc.prems(3,4)]
  have go: "closes s (segment line (Suc i) j)"
    if "end_step line i stack = Pending s" "CHR ''<'' \<notin> set s" "s \<noteq> []" for s
    using Suc.hyps Suc.prems(1,2) that i by (simp add: upt_conv_Cons seg)
  consider "?c \<in> set openers" | "bracket_free ?c" | "?c \<in> set closers" "tl stack = []" | "?c \<in> set closers" "tl stack \<noteq> []"
    using simple by (auto simp: bracket_free_def)
  then show ?case
  proof cases
    case 1
    with step go [of "?c # stack"] Suc.prems(3) simple have "closes (?c # stack) (segment line (Suc i) j)"
      by auto
    then show ?thesis unfolding seg using Suc.prems(4) by (rule closes_nest)
  next
    case 2
    then show ?thesis unfolding seg using step go [of stack] Suc.prems(3,4)
      by (intro closes_plain) (auto simp: bracket_free_def)
  next
    case 3
    with step i Suc.prems(1) have "pairs (hd stack) ?c" "j = i + 1"
      by (auto simp: upt_conv_Cons split: if_splits)
    with 3 seg Suc.prems(4) show ?thesis
      by (cases stack) (auto simp: segment_def intro!: exI [of _ "[]"] bal_Nil)
  next
    case 4
    with step i Suc.prems(1) have p: "pairs (hd stack) ?c" by (auto simp: upt_conv_Cons split: if_splits)
    with 4 step go [of "tl stack"] Suc.prems(3) have "closes (tl stack) (segment line (Suc i) j)"
      by (cases stack) auto
    with p 4 show ?thesis
      unfolding seg by (cases stack) (auto simp: closes_Cons intro!: exI [of _ "[]"] bal_Nil)
  qed
qed (use end_scan_Closed in fastforce)

lemma start_scan_step:
  "start_scan line (Suc i) stack =
     (case start_step line i stack of
        (Pending stack', skip) \<Rightarrow> start_scan line (Suc i - (if skip then 2 else 1)) stack'
      | (r, skip) \<Rightarrow> r)"
  by (subst start_scan.simps) simp

lemma start_step_simple:
  assumes "CHR ''>'' \<notin> set stack"
  shows "bracket_free (line ! i) \<Longrightarrow> start_step line i stack = (Pending stack, False)"
    and "line ! i \<in> set closers \<Longrightarrow> start_step line i stack = (Pending (line ! i # stack), False)"
    and "stack \<noteq> [] \<Longrightarrow> pairs (line ! i) (hd stack) \<Longrightarrow>
      start_step line i stack = (if tl stack = [] then Closed i else Pending (tl stack), False)"
proof -
  have "stack \<noteq> [] \<Longrightarrow> dropWhile (\<lambda>d. d = CHR ''>'') stack = stack" using assms by (cases stack) auto
  moreover have "pairs (line ! i) (hd stack) \<Longrightarrow> line ! i \<in> set openers \<and> line ! i \<notin> set closers \<and>
      line ! i \<noteq> CHR ''>'' \<and> line ! i \<noteq> CHR ''<''"
    by (auto simp: pairs_def)
  ultimately show "stack \<noteq> [] \<Longrightarrow> pairs (line ! i) (hd stack) \<Longrightarrow>
      start_step line i stack = (if tl stack = [] then Closed i else Pending (tl stack), False)"
    unfolding start_step_def Let_def by simp
qed (auto simp: start_step_def bracket_free_def Let_def)

text \<open>Scanning back over balanced text leaves the stack as it was.\<close>

lemma start_scan_balanced:
  assumes "balanced w" and "drop i line = w @ rest" and "stack \<noteq> []" and "CHR ''>'' \<notin> set stack"
    and "i \<le> length line"
  shows "start_scan line (i + length w) stack = start_scan line i stack"
  using assms
proof (induction w arbitrary: i rest stack rule: balanced.induct)
  case (bal_plain c w)
  then have c: "line ! i = c" and d: "drop (Suc i) line = w @ rest"
    by (auto simp: drop_Suc nth_via_drop intro: nth_via_drop) (metis drop_Suc list.sel(3) tl_drop)
  from bal_plain.prems have "Suc i \<le> length line" by (cases "i = length line") auto
  with bal_plain.IH [OF d] bal_plain.prems have
    "start_scan line (i + length (c # w)) stack = start_scan line (Suc i) stack" by simp
  also have "\<dots> = start_scan line i stack"
    using start_step_simple(1) [OF bal_plain.prems(3), of line i] bal_plain.hyps(1) c
    by (simp add: start_scan_step)
  finally show ?case .
next
  case (bal_nest a c u v)
  let ?k = "Suc (i + length u)"
  have a: "line ! i = a" using bal_nest.prems(1) by (auto intro: nth_via_drop)
  have du: "drop (Suc i) line = u @ c # v @ rest"
    using bal_nest.prems(1) by (metis append.assoc append_Cons drop_Suc list.sel(3) tl_drop)
  have dc: "drop ?k line = c # v @ rest"
    using du by (metis add_Suc append_eq_conv_conj drop_drop add.commute)
  have c: "line ! ?k = c" using dc by (rule nth_via_drop)
  have dv: "drop (Suc ?k) line = v @ rest" using dc by (metis drop_Suc list.sel(3) tl_drop)
  have len: "Suc ?k \<le> length line" using dc by (metis drop_eq_Nil leI list.distinct(1) Suc_leI)
  have cl: "c \<in> set closers" "CHR ''>'' \<notin> set (c # stack)"
    using pairs_disjoint [OF bal_nest.hyps(1)] bal_nest.prems(3) by auto
  have "start_scan line (i + length (a # u @ c # v)) stack = start_scan line (Suc ?k + length v) stack"
    by (simp add: algebra_simps)
  also have "\<dots> = start_scan line (Suc ?k) stack"
    using bal_nest.IH(2) [OF dv bal_nest.prems(2,3) len] .
  also have "\<dots> = start_scan line (Suc i + length u) (c # stack)"
    using start_step_simple(2) [OF bal_nest.prems(3), of line ?k] cl c by (simp add: start_scan_step)
  also have "\<dots> = start_scan line (Suc i) (c # stack)"
    using bal_nest.IH(1) [OF du _ cl(2)] len by simp
  also have "\<dots> = start_scan line i stack"
    using start_step_simple(3) [OF cl(2), of line i] a bal_nest.hyps(1) bal_nest.prems(2)
    by (simp add: start_scan_step)
  finally show ?case .
qed simp

lemma FindStart_of_FindEnd:
  assumes "FindEndOfExpressionInLine line pos [] = Closed j" and "pos < length line"
    and "line ! pos \<in> set openers" and "\<forall>c \<in> set (segment line pos j). c \<notin> set ''<>;''"
  shows "FindStartOfExpressionInLine line (int j - 1) [] = Closed pos"
proof -
  let ?a = "line ! pos"
  have j: "pos < j" "j \<le> length line" using FindEnd_Closed [OF assms(1)] by auto
  from assms have scan: "end_scan line [Suc pos..<length line] [?a] = Closed j"
    by (simp add: FindEndOfExpressionInLine_def upt_conv_Cons end_step_def)
  have "closes [?a] (segment line (Suc pos) j)"
  proof (rule end_scan_closes [OF scan])
    show "\<forall>c \<in> set (segment line (Suc pos) j). c \<notin> set ''<>;''"
      using assms(4) unfolding segment_Cons [OF j] by (simp del: insert_iff)
    show "CHR ''<'' \<notin> set [?a]" using assms(3) by auto
  qed simp
  then obtain w c where w: "segment line (Suc pos) j = w @ [c]" "balanced w" "pairs ?a c" by auto
  let ?k = "Suc pos + length w"
  have "length (segment line (Suc pos) j) = j - Suc pos" using j by (simp add: segment_def)
  with w(1) j have jk: "j = Suc ?k" by simp
  have d: "drop (Suc pos) line = w @ c # drop j line"
  proof -
    have "drop (Suc pos) line = segment line (Suc pos) j @ drop (j - Suc pos) (drop (Suc pos) line)"
      unfolding segment_def by (rule append_take_drop_id [symmetric])
    then show ?thesis using w(1) j by simp
  qed
  then have c: "line ! ?k = c" by (metis append_eq_conv_conj drop_drop nth_via_drop add.commute)
  have cl: "c \<in> set closers" "CHR ''>'' \<notin> set [c]" using pairs_disjoint [OF w(3)] by auto
  have "start_scan line j [] = start_scan line ?k [c]"
    unfolding jk using start_step_simple(2) [of "[]" line ?k] c cl by (simp add: start_scan_step)
  also have "\<dots> = start_scan line (Suc pos) [c]"
    using start_scan_balanced [OF w(2) d _ cl(2)] assms(2) by simp
  also have "\<dots> = Closed pos"
    using start_step_simple(3) [OF cl(2), of line pos] w(3) by (simp add: start_scan_step)
  finally show ?thesis by (simp add: FindStartOfExpressionInLine_def)
qed

text \<open>C27: Going forward from an opening bracket to the end of its expression and back again
  from there returns to the same bracket, when the expression is on one line and has none of
  the characters \<open><\<close>, \<open>>\<close>, \<open>;\<close> that the scans treat as possible template brackets and
  ends of statements.\<close>

theorem ReverseClose_Close:
  assumes "CloseExpression cl linenum pos = Some (line, linenum, int j)" and "linenum < NumLines cl"
    and "line ! pos \<in> set openers" and "\<forall>c \<in> set (segment line pos j). c \<notin> set ''<>;''"
  shows "ReverseCloseExpression cl linenum (j - 1) = Some (line, linenum, int pos)"
proof -
  let ?line = "elided cl ! linenum"
  let ?r = "FindEndOfExpressionInLine ?line pos []"
  from assms(1) have i: "linenum < length (elided cl)" "pos < length ?line"
    and c: "close_lines cl ?line linenum ?r = (line, linenum, int j)"
    by (auto simp: CloseExpression_def Let_def split: if_splits)
  from close_lines_same_line [OF c assms(2)] have r: "?r = Closed j" and line: "line = ?line" by auto
  have j: "pos < j" "j \<le> length ?line" using FindEnd_Closed [OF r] by auto
  have start: "FindStartOfExpressionInLine ?line (int j - 1) [] = Closed pos"
    using FindStart_of_FindEnd [OF r i(2)] assms(3,4) line by simp
  have "pairs (?line ! pos) (?line ! (j - 1))"
    using FindEnd_pairs [OF i(2)] assms(3) line r by simp
  then have "?line ! (j - 1) \<in> set closers" by (simp only: pairs_disjoint)
  with i start j line show ?thesis
    by (auto simp: ReverseCloseExpression_def Let_def of_nat_diff)
qed

theorem ReverseClose_Close_witness:
  "ReverseCloseExpression (expr_example\<lparr>elided := [''f(a, [b])'', []]\<rparr>) 0 8 = Some (''f(a, [b])'', 0, 1)"
proof -
  let ?cl = "expr_example\<lparr>elided := [''f(a, [b])'', []]\<rparr>"
  have "CloseExpression ?cl 0 1 = Some (''f(a, [b])'', 0, 9)" by code_simp
  moreover have "0 < NumLines ?cl" by code_simp
  moreover have "''f(a, [b])'' ! 1 \<in> set openers" by code_simp
  moreover have "\<forall>c \<in> set (segment ''f(a, [b])'' 1 9). c \<notin> set ''<>;''" by code_simp
  ultimately show ?thesis using ReverseClose_Close [of ?cl 0 1 "''f(a, [b])''" 9] by simp
qed

end
