(* ===== verification/Lint_Checks.thy ===== *)
theory Lint_Checks
  imports Lint_Include Lint_Expr
begin

text \<open>
  The class \<open>_FunctionState\<close> and the simple checks of \<^verbatim>\<open>build-support/cpplint.py\<close>: copyright,
  header guards, the header of a source file, bad characters, the end of the file,
  comments and strings over several lines, calls that are not thread safe, \<open>VLOG\<close>, invalid
  increments. Each is shown to satisfy the contract of \<open>lint_check\<close>. A check that looks at the
  file system has \<open>None\<close> as a result when \<open>RepositoryName\<close> does not return or the root given
  on the command line is not a pattern.
\<close>

section \<open>Families of checks\<close>

locale lint_check_family =
  fixes check :: "'a \<Rightarrow> lint \<Rightarrow> lint"
  assumes family_reports: "reports g (check x g)"
begin

lemma fold_reports: "reports g (fold check xs g)"
proof (induction xs arbitrary: g)
  case (Cons x xs)
  then show ?case using family_reports reports_trans by (metis fold_simps(2))
qed simp

end

sublocale lint_check_family \<subseteq> all: lint_check "fold check xs" for xs
  by unfold_locales (rule fold_reports)

section \<open>Sequences of checks\<close>

text \<open>Statements one after the other: the body of a check is a list of steps, each of which
  passes on the state of the linter.\<close>

definition run :: "('s \<Rightarrow> 's) list \<Rightarrow> 's \<Rightarrow> 's" where
  "run steps = fold (\<lambda>step. step) steps"

text \<open>The same for steps that may end in an exception of Python, which is \<open>None\<close>.\<close>

primrec run_opt :: "('s \<Rightarrow> 's option) list \<Rightarrow> 's \<Rightarrow> 's option" where
  "run_opt [] g = Some g"
| "run_opt (step # steps) g = (case step g of None \<Rightarrow> None | Some g' \<Rightarrow> run_opt steps g')"

definition ok :: "('s \<Rightarrow> 's) \<Rightarrow> 's \<Rightarrow> 's option" where
  "ok step g = Some (step g)"

definition error_if :: "bool \<Rightarrow> string \<Rightarrow> nat \<Rightarrow> string \<Rightarrow> int \<Rightarrow> string \<Rightarrow> lint \<Rightarrow> lint" where
  "error_if b filename linenum category confidence message =
     (if b then Error filename (int linenum) category confidence message else id)"

text \<open>The contract of a check that may end in an exception.\<close>

locale partial_check =
  fixes check :: "lint \<Rightarrow> lint option"
  assumes partial_reports: "check g = Some g' \<Longrightarrow> reports g g'"
begin

lemma partial_keeps_filters: "check g = Some g' \<Longrightarrow> signed_filters g \<Longrightarrow> signed_filters g'"
  using partial_reports reports_signed by blast

lemma partial_raises_nothing: "check g = Some g' \<Longrightarrow> signed_filters g \<Longrightarrow> raised g' = raised g"
  using partial_reports by (simp add: reports_def)

end

sublocale lint_check \<subseteq> total_check: partial_check "\<lambda>g. Some (check g)"
  by unfold_locales (use check_reports in auto)

named_theorems checks \<open>the contract of the checks, for steps and their combinations\<close>

lemma run_simps [simp]: "run [] g = g" "run (f # fs) g = run fs (f g)"
  by (simp_all add: run_def)

lemma check_id [checks]: "lint_check id" "lint_check (\<lambda>g. g)"
  by (simp_all add: lint_check_def)

lemma check_Error [checks]: "lint_check (Error filename linenum category confidence message)"
  by (rule error.lint_check_axioms)

lemma check_error_if [checks]: "lint_check (error_if b filename linenum category confidence message)"
  by (simp add: error_if_def checks)

lemma check_run [checks]: "list_all lint_check fs \<Longrightarrow> lint_check (run fs)"
proof (induction fs)
  case (Cons f fs)
  then show ?case using reports_trans by (simp add: lint_check_def) blast
qed (simp add: lint_check_def)

lemma check_if [checks]: "lint_check (if b then f else h) \<longleftrightarrow> (if b then lint_check f else lint_check h)"
  by simp

lemma partial_ok [checks]: "lint_check f \<Longrightarrow> partial_check (ok f)"
  by (simp add: lint_check_def partial_check_def ok_def)

lemma partial_fail [checks]: "partial_check (\<lambda>g. None)"
  by (simp add: partial_check_def)

lemma partial_run [checks]: "list_all partial_check fs \<Longrightarrow> partial_check (run_opt fs)"
proof (induction fs)
  case (Cons f fs)
  then have step: "reports g k" if "f g = Some h" "run_opt fs h = Some k" for g h k
    using that reports_trans [of g h k] by (simp add: partial_check_def)
  then show ?case unfolding partial_check_def by (auto split: option.splits dest: step)
qed (simp add: partial_check_def)

section \<open>The class \<open>_FunctionState\<close>\<close>

abbreviation (input) NORMAL_TRIGGER :: nat where "NORMAL_TRIGGER \<equiv> 250"
abbreviation (input) TEST_TRIGGER :: nat where "TEST_TRIGGER \<equiv> 400"

record FunctionState =
  in_a_function :: bool
  lines_in_function :: nat
  current_function :: string

definition FunctionState_init :: FunctionState where
  "FunctionState_init = \<lparr>in_a_function = False, lines_in_function = 0, current_function = []\<rparr>"

definition FunctionState_Begin :: "string \<Rightarrow> FunctionState \<Rightarrow> FunctionState" where
  "FunctionState_Begin function_name st =
     st\<lparr>in_a_function := True, lines_in_function := 0, current_function := function_name\<rparr>"

definition FunctionState_Count :: "FunctionState \<Rightarrow> FunctionState" where
  "FunctionState_Count st =
     (if in_a_function st then st\<lparr>lines_in_function := lines_in_function st + 1\<rparr> else st)"

definition FunctionState_End :: "FunctionState \<Rightarrow> FunctionState" where
  "FunctionState_End st = st\<lparr>in_a_function := False\<rparr>"

text \<open>\<open>int(math.log(n, 2))\<close> for a positive integer.\<close>

fun int_log2 :: "nat \<Rightarrow> nat" where
  "int_log2 n = (if n < 2 then 0 else Suc (int_log2 (n div 2)))"

declare int_log2.simps [simp del]

text \<open>\<open>lines > base * 2**level\<close> and the integer that the message prints of the trigger; for a
  negative level the power is a fraction.\<close>

definition exceeds_trigger :: "nat \<Rightarrow> nat \<Rightarrow> int \<Rightarrow> bool" where
  "exceeds_trigger n base level =
     (if level \<ge> 0 then n > base * 2 ^ nat level else n * 2 ^ nat (- level) > base)"

definition printed_trigger :: "nat \<Rightarrow> int \<Rightarrow> nat" where
  "printed_trigger base level =
     (if level \<ge> 0 then base * 2 ^ nat level else base div 2 ^ nat (- level))"

definition size_trigger :: "string \<Rightarrow> nat" where
  "size_trigger name = (if matches ''T(EST|est)'' name then TEST_TRIGGER else NORMAL_TRIGGER)"

definition FunctionState_Check :: "string \<Rightarrow> int \<Rightarrow> FunctionState \<Rightarrow> lint \<Rightarrow> lint" where
  "FunctionState_Check filename linenum st g =
     (let base_trigger = size_trigger (current_function st);
          level = verbose_level (cpplint_state g)
      in if exceeds_trigger (lines_in_function st) base_trigger level then
           if lines_in_function st div base_trigger = 0 then
             g\<lparr>raised := Some ''ValueError: math domain error''\<rparr>
           else
             (let error_level = min 5 (int_log2 (lines_in_function st div base_trigger)) in
              Error filename linenum ''readability/fn_size'' (int error_level)
                (''Small and focused functions are preferred: '' @ current_function st @ '' has '' @
                 str_of_nat (lines_in_function st) @
                 '' non-comment lines (error triggered by exceeding '' @
                 str_of_nat (printed_trigger base_trigger level) @ '' lines).'') g)
         else g)"

section \<open>Checks of a whole file\<close>

definition lower_ascii :: "char \<Rightarrow> char" where
  "lower_ascii c = (if is_upper c then char_of ((of_char c :: nat) + 32) else c)"

definition upper_ascii :: "char \<Rightarrow> char" where
  "upper_ascii c = (if is_lower c then char_of ((of_char c :: nat) - 32) else c)"

definition mentions_copyright :: "string \<Rightarrow> bool" where
  "mentions_copyright line \<longleftrightarrow> py_find (map lower_ascii line) ''copyright'' \<noteq> None"

definition CheckForCopyright :: "string \<Rightarrow> string list \<Rightarrow> lint \<Rightarrow> lint" where
  "CheckForCopyright filename ls g =
     (if list_ex (\<lambda>i. mentions_copyright (ls ! i)) [1..<min (length ls) 11] then g
      else Error filename 0 ''legal/copyright'' 5
             (''No copyright message found.  You should have a line: '' @ [dquote] @
              ''Copyright [year] <Copyright Owner>'' @ [dquote]) g)"

definition GetIndentLevel :: "string \<Rightarrow> nat" where
  "GetIndentLevel line =
     (case Match (raw ''^( *)`S'') line of Some indent \<Rightarrow> length (grp indent 1) | None \<Rightarrow> 0)"

definition GetHeaderGuardCPPVariable :: "file_system \<Rightarrow> lint \<Rightarrow> string \<Rightarrow> string option" where
  "GetHeaderGuardCPPVariable fs g filename =
     (let filename = re_sub (raw ''_flymake`.h$'') (\<lambda>m. ''.h'') filename;
          filename = re_sub (raw ''/`.flymake/([^/]*)$'') (\<lambda>m. ''/'' @ grp m 1) filename;
          filename = py_replace ''c++'' ''cpp'' (py_replace ''C++'' ''cpp'' filename)
      in case RepositoryName fs filename of
           None \<Rightarrow> None
         | Some file_path_from_root \<Rightarrow>
             (let below = (case root g of
                             None \<Rightarrow> Some file_path_from_root
                           | Some [] \<Rightarrow> Some file_path_from_root
                           | Some r \<Rightarrow>
                               map_option (\<lambda>p. sub_at p (\<lambda>m. []) [] file_path_from_root)
                                 (re_compile (''^'' @ r @ ''/'')))
              in map_option (\<lambda>path.
                   map upper_ascii (re_sub ''[^a-zA-Z0-9]'' (\<lambda>m. ''_'') path) @ ''_'') below))"

record guard_scan =
  ifndef :: string
  ifndef_linenum :: nat
  guard_define :: string
  endif :: string
  endif_linenum :: nat

definition guard_step :: "nat \<times> string \<Rightarrow> guard_scan \<Rightarrow> guard_scan" where
  "guard_step ln s =
     (case ln of (linenum, line) \<Rightarrow>
        (let linesplit = py_split_ws line;
             s = (if length linesplit \<ge> 2 \<and> ifndef s = [] \<and> linesplit ! 0 = ''#ifndef''
                  then s\<lparr>ifndef := linesplit ! 1, ifndef_linenum := linenum\<rparr> else s);
             s = (if length linesplit \<ge> 2 \<and> guard_define s = [] \<and> linesplit ! 0 = ''#define''
                  then s\<lparr>guard_define := linesplit ! 1\<rparr> else s)
         in if startswith line ''#endif'' then s\<lparr>endif := line, endif_linenum := linenum\<rparr> else s))"

definition scan_guard :: "string list \<Rightarrow> guard_scan" where
  "scan_guard ls =
     fold guard_step (enumerate 0 ls)
       \<lparr>ifndef = [], ifndef_linenum = 0, guard_define = [], endif = [], endif_linenum = 0\<rparr>"

definition single_line_comment_pattern :: string where
  "single_line_comment_pattern =
     ''^(?:(?:'' @ [squote] @ raw ''(?:`.|[^'' @ [squote] @ '']'' @ '')*'' @ [squote] @ '')|(?:'' @
     [dquote] @ raw ''(?:`.|[^'' @ [dquote] @ '']'' @ '')*'' @ [dquote] @ '')|[^'' @ [squote, dquote] @ ''])*//''"

text \<open>The end of \<open>CheckForHeaderGuard\<close>: the comment on the \<open>#endif\<close> line.\<close>

definition check_endif_comment :: "string \<Rightarrow> string list \<Rightarrow> string \<Rightarrow> guard_scan \<Rightarrow> lint \<Rightarrow> lint" where
  "check_endif_comment filename ls cppvar s g =
     (let line_of = (\<lambda>t. ''#endif line should be '' @ [dquote] @ ''#endif  '' @ t @ [dquote]);
          report = (\<lambda>level t. Error filename (int (endif_linenum s)) ''build/header_guard'' level (line_of t))
      in case Match (raw ''#endif`s*//`s*'' @ cppvar @ raw ''(_)?`b'') (endif s) of
           Some m \<Rightarrow>
             if m_group m 1 = Some ''_'' then report 0 (''// '' @ cppvar) g else g
         | None \<Rightarrow>
             (let no_single_line_comments =
                \<not> list_ex (\<lambda>i. matches single_line_comment_pattern (ls ! i)) [1..<length ls - 1]
              in case (if no_single_line_comments
                       then Match (raw ''#endif`s*/`*`s*'' @ cppvar @ raw ''(_)?`s*`*/'') (endif s)
                       else None) of
                   Some m \<Rightarrow>
                     if m_group m 1 = Some ''_'' then report 0 (''/* '' @ cppvar @ '' */'') g else g
                 | None \<Rightarrow> report 5 (''// '' @ cppvar) g))"

definition CheckForHeaderGuard ::
    "file_system \<Rightarrow> string \<Rightarrow> CleansedLines \<Rightarrow> lint \<Rightarrow> lint option" where
  "CheckForHeaderGuard fs filename clean_lines g =
     (let ls = lines_without_raw_strings clean_lines in
      if list_ex (found (raw ''//`s*NOLINT`(build/header_guard`)'')) ls then Some g
      else
        map_option (\<lambda>cppvar.
          (let s = scan_guard ls in
           if ifndef s = [] \<or> guard_define s = [] \<or> ifndef s \<noteq> guard_define s then
             Error filename 0 ''build/header_guard'' 5
               (''No #ifndef header guard found, suggested CPP variable is: '' @ cppvar) g
           else
             (let g = (if ifndef s \<noteq> cppvar then
                         (let error_level = (if ifndef s \<noteq> cppvar @ ''_'' then 5 else 0) in
                          Error filename (int (ifndef_linenum s)) ''build/header_guard'' error_level
                            (''#ifndef header guard has wrong style, please use: '' @ cppvar)
                            (ParseNolintSuppressions filename (ls ! ifndef_linenum s)
                               (int (ifndef_linenum s)) g))
                       else g);
                  g = ParseNolintSuppressions filename (ls ! endif_linenum s) (int (endif_linenum s)) g
              in check_endif_comment filename ls cppvar s g)))
          (GetHeaderGuardCPPVariable fs g filename))"

text \<open>The loop over the included headers: \<open>None\<close> when the header is among them, otherwise the
  line of the first include.\<close>

fun header_included :: "string \<Rightarrow> int \<Rightarrow> (string \<times> int) list \<Rightarrow> int option" where
  "header_included headername first_include [] = Some first_include"
| "header_included headername first_include (f # fs) =
     (if py_find (fst f) headername \<noteq> None \<or> py_find headername (fst f) \<noteq> None then None
      else header_included headername (if first_include = 0 then snd f else first_include) fs)"

definition CheckHeaderFileIncluded ::
    "file_system \<Rightarrow> string \<Rightarrow> IncludeState \<Rightarrow> lint \<Rightarrow> lint option" where
  "CheckHeaderFileIncluded fs filename st g =
     (if endswith filename ''_test.cc'' \<or> endswith filename ''_unittest.cc'' then Some g
      else
        (let headerfile = take (length filename - 2) filename @ ''h'' in
         if \<not> fs_exists fs headerfile then Some g
         else
           (case RepositoryName fs headerfile of
              None \<Rightarrow> None
            | Some headername \<Rightarrow>
                (case header_included headername 0 (concat (include_list st)) of
                   None \<Rightarrow> Some g
                 | Some first_include \<Rightarrow>
                     map_option (\<lambda>name.
                       Error filename first_include ''build/include'' 5
                         (name @ '' should include its header file '' @ headername) g)
                       (RepositoryName fs filename)))))"

text \<open>Lines are given by their code points here, since the replacement character is one.\<close>

definition check_bad_line :: "string \<Rightarrow> nat \<times> nat list \<Rightarrow> lint \<Rightarrow> lint" where
  "check_bad_line filename ln g =
     (case ln of (linenum, line) \<Rightarrow>
        (let g = (if 0xFFFD \<in> set line then
                    Error filename (int linenum) ''readability/utf8'' 5
                      ''Line contains invalid UTF-8 (or Unicode replacement character).'' g
                  else g)
         in if 0 \<in> set line then
              Error filename (int linenum) ''readability/nul'' 5 ''Line contains NUL byte.'' g
            else g))"

definition CheckForBadCharacters :: "string \<Rightarrow> nat list list \<Rightarrow> lint \<Rightarrow> lint" where
  "CheckForBadCharacters filename ls g = fold (check_bad_line filename) (enumerate 0 ls) g"

definition CheckForNewlineAtEOF :: "string \<Rightarrow> string list \<Rightarrow> lint \<Rightarrow> lint" where
  "CheckForNewlineAtEOF filename ls g =
     (if length ls < 3 \<or> ls ! (length ls - 2) \<noteq> [] then
        Error filename (int (length ls) - 2) ''whitespace/ending_newline'' 5
          ''Could not find a newline character at the end of the file.'' g
      else g)"

section \<open>Checks of a line\<close>

definition CheckForMultilineCommentsAndStrings ::
    "string \<Rightarrow> CleansedLines \<Rightarrow> nat \<Rightarrow> lint \<Rightarrow> lint" where
  "CheckForMultilineCommentsAndStrings filename clean_lines linenum g =
     (let line = py_replace [backslash, backslash] [] (elided clean_lines ! linenum);
          g = (if py_count line ''/*'' > py_count line ''*/'' then
                 Error filename (int linenum) ''readability/multiline_comment'' 5
                   (''Complex multi-line /*...*/-style comment found. Lint may give bogus warnings.  '' @
                    ''Consider replacing these with //-style comments, with #if 0...#endif, '' @
                    ''or with more clearly structured multi-line comments.'') g
               else g)
      in if odd (int (py_count line [dquote]) - int (py_count line [backslash, dquote])) then
           Error filename (int linenum) ''readability/multiline_string'' 5
             (''Multi-line string ('' @ [dquote] @ ''...'' @ [dquote] @
              '') found.  This lint script doesn'' @ [squote] @
              ''t do well with such strings, and may give bogus warnings.  '' @
              ''Use C++11 raw strings or concatenation instead.'') g
         else g)"

definition UNSAFE_FUNC_PREFIX :: string where
  "UNSAFE_FUNC_PREFIX = raw ''(?:[-+*/=%^&|(<]`s*|>`s+)''"

text \<open>The table: the function, its safe alternative, and whether the pattern asks for
  arguments.\<close>

definition THREADING_LIST :: "(string \<times> string \<times> string) list" where
  "THREADING_LIST =
     (let with_args = (\<lambda>f. (f @ ''('', f @ ''_r('', UNSAFE_FUNC_PREFIX @ f @ raw ''`([^)]+`)''));
          no_args = (\<lambda>f. (f @ ''('', f @ ''_r('', UNSAFE_FUNC_PREFIX @ f @ raw ''`(`)''))
      in [with_args ''asctime'', with_args ''ctime'', with_args ''getgrgid'', with_args ''getgrnam'',
          no_args ''getlogin'', with_args ''getpwnam'', with_args ''getpwuid'', with_args ''gmtime'',
          with_args ''localtime'', no_args ''rand'', with_args ''strtok'', with_args ''ttyname''])"

definition check_threading :: "string \<Rightarrow> nat \<Rightarrow> string \<Rightarrow> string \<times> string \<times> string \<Rightarrow> lint \<Rightarrow> lint" where
  "check_threading filename linenum line entry g =
     (case entry of (single_thread_func, multithread_safe_func, pattern) \<Rightarrow>
        if found pattern line then
          Error filename (int linenum) ''runtime/threadsafe_fn'' 2
            (''Consider using '' @ multithread_safe_func @ ''...) instead of '' @ single_thread_func @
             ''...) for improved thread safety.'') g
        else g)"

definition CheckPosixThreading :: "string \<Rightarrow> CleansedLines \<Rightarrow> nat \<Rightarrow> lint \<Rightarrow> lint" where
  "CheckPosixThreading filename clean_lines linenum g =
     fold (check_threading filename linenum (elided clean_lines ! linenum)) THREADING_LIST g"

definition CheckVlogArguments :: "string \<Rightarrow> CleansedLines \<Rightarrow> nat \<Rightarrow> lint \<Rightarrow> lint" where
  "CheckVlogArguments filename clean_lines linenum g =
     (if found (raw ''`bVLOG`((INFO|ERROR|WARNING|DFATAL|FATAL)`)'') (elided clean_lines ! linenum) then
        Error filename (int linenum) ''runtime/vlog'' 5
          (''VLOG() should be used with numeric verbosity level.  '' @
           ''Use LOG() if you want symbolic severity levels.'') g
      else g)"

definition RE_PATTERN_INVALID_INCREMENT :: string where
  "RE_PATTERN_INVALID_INCREMENT = raw ''^`s*`*`w+(`+`+|--);''"

definition CheckInvalidIncrement :: "string \<Rightarrow> CleansedLines \<Rightarrow> nat \<Rightarrow> lint \<Rightarrow> lint" where
  "CheckInvalidIncrement filename clean_lines linenum g =
     (if matches RE_PATTERN_INVALID_INCREMENT (elided clean_lines ! linenum) then
        Error filename (int linenum) ''runtime/invalid_increment'' 5
          ''Changing pointer instead of value (or unused value of operator*).'' g
      else g)"

definition IsMacroDefinition :: "string list \<Rightarrow> nat \<Rightarrow> bool" where
  "IsMacroDefinition clean_lines linenum \<longleftrightarrow>
     found ''^#define'' (clean_lines ! linenum) \<or>
     (linenum > 0 \<and> found (raw ''``$'') (clean_lines ! (linenum - 1)))"

definition IsForwardClassDeclaration :: "string list \<Rightarrow> nat \<Rightarrow> bool" where
  "IsForwardClassDeclaration clean_lines linenum \<longleftrightarrow>
     matches (raw ''^`s*(`btemplate`b)*.*class`s+`w+;`s*$'') (clean_lines ! linenum)"

section \<open>The contract\<close>

interpretation bad_line: lint_check_family "check_bad_line filename"
  by unfold_locales (auto simp: check_bad_line_def Let_def split: prod.split
      intro: reports_trans [OF Error_reports Error_reports])

interpretation threading: lint_check_family "check_threading filename linenum line"
  by unfold_locales (auto simp: check_threading_def split: prod.split)

interpretation copyright: lint_check "CheckForCopyright filename ls"
  by unfold_locales (simp add: CheckForCopyright_def)

interpretation bad_characters: lint_check "CheckForBadCharacters filename ls"
  by unfold_locales (simp add: CheckForBadCharacters_def bad_line.fold_reports)

interpretation newline_at_eof: lint_check "CheckForNewlineAtEOF filename ls"
  by unfold_locales (simp add: CheckForNewlineAtEOF_def)

interpretation multiline: lint_check "CheckForMultilineCommentsAndStrings filename clean_lines linenum"
  by unfold_locales (auto simp: CheckForMultilineCommentsAndStrings_def Let_def
      intro: reports_trans [OF Error_reports Error_reports])

interpretation posix_threading: lint_check "CheckPosixThreading filename clean_lines linenum"
  by unfold_locales (simp add: CheckPosixThreading_def threading.fold_reports)

interpretation vlog: lint_check "CheckVlogArguments filename clean_lines linenum"
  by unfold_locales (simp add: CheckVlogArguments_def)

interpretation increment: lint_check "CheckInvalidIncrement filename clean_lines linenum"
  by unfold_locales (simp add: CheckInvalidIncrement_def)

section \<open>The size of functions\<close>

lemma int_log2_bounds: "1 \<le> n \<Longrightarrow> 2 ^ int_log2 n \<le> n \<and> n < 2 ^ Suc (int_log2 n)"
proof (induction n rule: int_log2.induct)
  case (1 n)
  show ?case
  proof (cases "n < 2")
    case True
    with 1 show ?thesis by (simp add: int_log2.simps)
  next
    case False
    with 1 have "2 ^ int_log2 (n div 2) \<le> n div 2 \<and> n div 2 < 2 ^ Suc (int_log2 (n div 2))" by simp
    then have "2 ^ Suc (int_log2 (n div 2)) \<le> n" "n < 2 ^ Suc (Suc (int_log2 (n div 2)))"
      by auto
    moreover have "int_log2 n = Suc (int_log2 (n div 2))" using False by (subst int_log2.simps) simp
    ultimately show ?thesis by simp
  qed
qed

lemma Count_iterate:
  "(FunctionState_Count ^^ n) (FunctionState_Begin name st) =
     st\<lparr>in_a_function := True, lines_in_function := n, current_function := name\<rparr>"
  by (induction n) (simp_all add: FunctionState_Begin_def FunctionState_Count_def)

text \<open>A function of \<open>n\<close> counted lines is reported exactly when \<open>n\<close> exceeds its trigger
  doubled once for each level of verbosity, with a confidence of at least that level (five at
  most), the binary logarithm of its size in units of the trigger.\<close>

theorem function_size_reported:
  fixes n :: nat
  assumes "verbose_level (cpplint_state g) = int v"
  shows "\<exists>k msg. 2 ^ k \<le> max 1 (n div size_trigger name) \<and> max 1 (n div size_trigger name) < 2 ^ Suc k \<and>
    FunctionState_Check filename linenum ((FunctionState_Count ^^ n) (FunctionState_Begin name st)) g =
      (if n > size_trigger name * 2 ^ v
       then Error filename linenum ''readability/fn_size'' (int (min 5 k)) msg g else g) \<and>
    (n > size_trigger name * 2 ^ v \<longrightarrow> min 5 v \<le> min 5 k)"
proof -
  define b where "b = size_trigger name"
  have b: "b > 0" by (simp add: b_def size_trigger_def)
  define q where "q = n div b"
  define k where "k = int_log2 (max 1 q)"
  have k: "2 ^ k \<le> max 1 q" "max 1 q < 2 ^ Suc k"
    unfolding k_def using int_log2_bounds [of "max 1 q"] by auto
  have big: "2 ^ v \<le> q \<and> v \<le> k" if "n > b * 2 ^ v"
  proof
    from that b show v: "2 ^ v \<le> q" unfolding q_def by (simp add: less_eq_div_iff_mult_less_eq mult.commute)
    with k(2) have "(2::nat) ^ v < 2 ^ Suc k" by linarith
    then have "v < Suc k" by (rule power_less_imp_less_exp [rotated]) simp
    then show "v \<le> k" by simp
  qed
  have "\<exists>msg. FunctionState_Check filename linenum
      ((FunctionState_Count ^^ n) (FunctionState_Begin name st)) g =
      (if n > b * 2 ^ v then Error filename linenum ''readability/fn_size'' (int (min 5 k)) msg g else g)"
  proof (cases "n > b * 2 ^ v")
    case True
    with big have "q \<noteq> 0" by (metis not_one_le_zero one_le_numeral one_le_power le_zero_eq)
    then have "k = int_log2 q" by (simp add: k_def max_def)
    with True \<open>q \<noteq> 0\<close> assms show ?thesis
      by (auto simp: FunctionState_Check_def Count_iterate exceeds_trigger_def Let_def q_def b_def)
  next
    case False
    with assms show ?thesis
      by (simp add: FunctionState_Check_def Count_iterate exceeds_trigger_def Let_def b_def)
  qed
  with k big show ?thesis unfolding b_def [symmetric] q_def [symmetric]
    by (metis min.mono order_refl)
qed

text \<open>With a negative verbosity, which the command line accepts, a function longer than
  the halved trigger but not than the trigger itself ends the run with a \<open>ValueError\<close>: the
  logarithm of zero is taken.\<close>

theorem function_size_negative_verbosity:
  "raised (FunctionState_Check ''a.cc'' 9
     ((FunctionState_Count ^^ 200) (FunctionState_Begin ''f'' FunctionState_init))
     (lint_init\<lparr>cpplint_state := CppLintState_init\<lparr>verbose_level := -1\<rparr>\<rparr>)) =
   Some ''ValueError: math domain error''"
proof -
  have "Match ''T(EST|est)'' ''f'' = None" by code_simp
  then show ?thesis
    by (simp add: FunctionState_Check_def Count_iterate exceeds_trigger_def Let_def size_trigger_def)
qed

section \<open>Header guards\<close>

lemma match_at_set:
  "match_at (RSet neg items) p (c # s) =
     (if in_set neg items c then Some \<lparr>m_start = length p, m_text = [c], m_rest = s, m_caps = []\<rparr> else None)"
  by (simp add: match_at_def mat_of_def)

lemma sub_at_set:
  "sub_at (RSet neg items) (\<lambda>m. w) p s = concat (map (\<lambda>c. if in_set neg items c then w else [c]) s)"
  by (induction s arbitrary: p) (simp_all add: match_at_set)

definition guard_items :: "citem list" where
  "guard_items = [CRange CHR ''a'' CHR ''z'', CRange CHR ''A'' CHR ''Z'', CRange CHR ''0'' CHR ''9'']"

lemma guard_compile: "re_compile ''[^a-zA-Z0-9]'' = Some (RSet True guard_items)"
  by code_simp

definition guard_char :: "char \<Rightarrow> bool" where
  "guard_char c \<longleftrightarrow> is_upper c \<or> is_digit c \<or> c = CHR ''_''"

lemma upper_ascii_guard:
  "\<not> in_set True guard_items c \<Longrightarrow> guard_char (upper_ascii c)"
  by (auto simp: in_set_def guard_items_def guard_char_def upper_ascii_def is_upper_def is_lower_def
      is_digit_def)

text \<open>The name suggested for a header guard has only capital letters, digits and
  underscores, and ends in an underscore, whatever the path of the file: it can stand in a
  pattern as it is.\<close>

theorem guard_variable_chars:
  assumes "GetHeaderGuardCPPVariable fs g filename = Some cppvar"
  shows "list_all guard_char cppvar \<and> last cppvar = CHR ''_''"
proof -
  from assms obtain path where
    "cppvar = map upper_ascii (re_sub ''[^a-zA-Z0-9]'' (\<lambda>m. ''_'') path) @ ''_''"
    by (auto simp: GetHeaderGuardCPPVariable_def Let_def split: option.splits)
  moreover have "guard_char (upper_ascii (CHR ''_''))" by code_simp
  ultimately show ?thesis
    by (auto simp: list_all_iff re_sub_def guard_compile sub_at_set guard_char_def split: if_splits
        dest: upper_ascii_guard [unfolded guard_char_def])
qed

lemma check_endif_comment_reports: "reports g (check_endif_comment filename ls cppvar s g)"
  by (auto simp: check_endif_comment_def Let_def split: option.split)

lemma CheckForHeaderGuard_reports:
  "CheckForHeaderGuard fs filename cl g = Some g' \<Longrightarrow> reports g g'"
  by (auto simp: CheckForHeaderGuard_def Let_def split: if_splits
      intro: reports_trans [OF ParseNolint_reports check_endif_comment_reports]
        reports_trans [OF ParseNolint_reports reports_trans [OF Error_reports
          reports_trans [OF ParseNolint_reports check_endif_comment_reports]]])

lemma CheckHeaderFileIncluded_reports:
  "CheckHeaderFileIncluded fs filename st g = Some g' \<Longrightarrow> reports g g'"
  by (auto simp: CheckHeaderFileIncluded_def Let_def split: if_splits option.splits)

end
