(* ===== verification/Lint_Nesting.thy ===== *)
theory Lint_Nesting
  imports Lint_Checks
begin

text \<open>
  The nesting of blocks in \<^verbatim>\<open>build-support/cpplint.py\<close>: the classes \<open>_BlockInfo\<close>,
  \<open>_ExternCInfo\<close>, \<open>_ClassInfo\<close>, \<open>_NamespaceInfo\<close>, \<open>_PreprocessorInfo\<close> and \<open>NestingState\<close> with its
  method \<open>Update\<close>. The derived classes are the values of the field \<open>kind\<close>. Blocks are objects,
  so each carries a number that stands for its identity: \<open>copy.deepcopy\<close> makes blocks with new
  numbers. \<open>previous_stack_top\<close> is a reference to a block that may still be in the stack; the
  model keeps the block as it was when the reference was taken, which is enough for its
  class and its identity, the only things the checks read of it. Stacks are lists with their
  top first. An \<open>IndexError\<close> is the value \<open>None\<close>.
\<close>

section \<open>Blocks\<close>

datatype asm_state = NO_ASM | INSIDE_ASM | END_ASM | BLOCK_ASM

definition MATCH_ASM :: string where
  "MATCH_ASM = raw ''^`s*(?:asm|_asm|__asm|__asm__)(?:`s+(volatile|__volatile__))?`s*[{(]''"

record ClassInfo =
  class_name :: string
  class_starting_linenum :: nat
  is_derived :: bool
  class_access :: string
  is_struct :: bool
  class_indent :: nat
  class_last_line :: nat

datatype block_kind = PlainBlock | ExternCBlock | ClassBlock ClassInfo | NamespaceBlock string nat

record BlockInfo =
  block_id :: nat
  seen_open_brace :: bool
  open_parentheses :: int
  inline_asm :: asm_state
  check_namespace_indentation :: bool
  kind :: block_kind

definition BlockInfo_init :: "nat \<Rightarrow> bool \<Rightarrow> BlockInfo" where
  "BlockInfo_init n seen =
     \<lparr>block_id = n, seen_open_brace = seen, open_parentheses = 0, inline_asm = NO_ASM,
      check_namespace_indentation = False, kind = PlainBlock\<rparr>"

definition ExternCInfo_init :: "nat \<Rightarrow> BlockInfo" where
  "ExternCInfo_init n = (BlockInfo_init n True)\<lparr>kind := ExternCBlock\<rparr>"

text \<open>The search for the end of the class.\<close>

fun find_last_line :: "CleansedLines \<Rightarrow> int \<Rightarrow> nat list \<Rightarrow> nat" where
  "find_last_line cl depth [] = 0"
| "find_last_line cl depth (i # is) =
     (let line = elided cl ! i;
          depth = depth + (int (py_count line ''{'') - int (py_count line ''}''))
      in if depth = 0 then i else find_last_line cl depth is)"

definition ClassInfo_init :: "nat \<Rightarrow> string \<Rightarrow> string \<Rightarrow> CleansedLines \<Rightarrow> nat \<Rightarrow> BlockInfo" where
  "ClassInfo_init n name class_or_struct cl linenum =
     (BlockInfo_init n False)
       \<lparr>check_namespace_indentation := True,
        kind := ClassBlock
          \<lparr>class_name = name, class_starting_linenum = linenum, is_derived = False,
           class_access = (if class_or_struct = ''struct'' then ''public'' else ''private''),
           is_struct = (class_or_struct = ''struct''),
           class_indent = GetIndentLevel (raw_lines cl ! linenum),
           class_last_line = find_last_line cl 0 [linenum..<NumLines cl]\<rparr>\<rparr>"

definition NamespaceInfo_init :: "nat \<Rightarrow> string option \<Rightarrow> nat \<Rightarrow> BlockInfo" where
  "NamespaceInfo_init n name linenum =
     (BlockInfo_init n False)
       \<lparr>check_namespace_indentation := True,
        kind := NamespaceBlock (case name of None \<Rightarrow> [] | Some s \<Rightarrow> s) linenum\<rparr>"

definition IsBlockInfo :: "BlockInfo \<Rightarrow> bool" where
  "IsBlockInfo b \<longleftrightarrow> kind b = PlainBlock"

definition update_class :: "(ClassInfo \<Rightarrow> ClassInfo) \<Rightarrow> BlockInfo \<Rightarrow> BlockInfo" where
  "update_class f b = (case kind b of ClassBlock c \<Rightarrow> b\<lparr>kind := ClassBlock (f c)\<rparr> | _ \<Rightarrow> b)"

text \<open>\<open>CheckBegin\<close>, which only does something for a class.\<close>

definition CheckBegin :: "CleansedLines \<Rightarrow> nat \<Rightarrow> BlockInfo \<Rightarrow> BlockInfo" where
  "CheckBegin cl linenum b =
     (if found ''(^|[^:]):($|[^:])'' (elided cl ! linenum)
      then update_class (\<lambda>c. c\<lparr>is_derived := True\<rparr>) b else b)"

definition class_parent :: "ClassInfo \<Rightarrow> string" where
  "class_parent c = (if is_struct c then ''struct '' else ''class '') @ class_name c"

text \<open>The loop of \<open>_ClassInfo.CheckEnd\<close> over the lines of the class, from the last.\<close>

fun disallow_loop ::
    "string \<Rightarrow> CleansedLines \<Rightarrow> string \<Rightarrow> bool \<Rightarrow> nat list \<Rightarrow> lint \<Rightarrow> lint" where
  "disallow_loop filename cl name seen_last [] g = g"
| "disallow_loop filename cl name seen_last (i # is) g =
     (case Search (raw ''`b(DISALLOW_COPY_AND_ASSIGN|DISALLOW_IMPLICIT_CONSTRUCTORS)`('' @ name @ raw ''`)'')
             (elided cl ! i) of
        Some match \<Rightarrow>
          if seen_last then
            Error filename (int i) ''readability/constructors'' 3
              (grp match 1 @ '' should be the last thing in the class'') g
          else g
      | None \<Rightarrow>
          disallow_loop filename cl name
            (if \<not> matches (raw ''^`s*$'') (elided cl ! i) then True else seen_last) is g)"

definition ClassInfo_CheckEnd :: "string \<Rightarrow> CleansedLines \<Rightarrow> nat \<Rightarrow> ClassInfo \<Rightarrow> lint \<Rightarrow> lint" where
  "ClassInfo_CheckEnd filename cl linenum c g =
     (let g = disallow_loop filename cl (class_name c) False
                (rev [class_starting_linenum c + 1..<linenum]) g
      in case Match (raw ''^( *)`}'') (elided cl ! linenum) of
           Some indent \<Rightarrow>
             if length (grp indent 1) \<noteq> class_indent c then
               Error filename (int linenum) ''whitespace/indent'' 3
                 (''Closing brace should be aligned with beginning of '' @ class_parent c) g
             else g
         | None \<Rightarrow> g)"

definition NamespaceInfo_CheckEnd ::
    "string \<Rightarrow> CleansedLines \<Rightarrow> nat \<Rightarrow> string \<Rightarrow> nat \<Rightarrow> lint \<Rightarrow> lint" where
  "NamespaceInfo_CheckEnd filename cl linenum name starting_linenum g =
     (let line = raw_lines cl ! linenum;
          report = (\<lambda>msg. Error filename (int linenum) ''readability/namespace'' 5 msg)
      in if int linenum - int starting_linenum < 10 \<and>
            \<not> matches (raw ''};*`s*(//|/`*).*`bnamespace`b'') line then g
         else if name \<noteq> [] then
           if \<not> matches (raw ''};*`s*(//|/`*).*`bnamespace`s+'' @ re_escape name @ raw ''[`*/`.```s]*$'') line
           then report (''Namespace should be terminated with '' @ [dquote] @ ''// namespace '' @ name @
                          [dquote]) g
           else g
         else if \<not> matches (raw ''};*`s*(//|/`*).*`bnamespace[`*/`.```s]*$'') line then
           (let msg = ''Anonymous namespace should be terminated with '' @ [dquote] @ ''// namespace'' @
                        [dquote]
            in if matches (raw ''}.*`b(namespace anonymous|anonymous namespace)`b'') line
               then report (msg @ '' or '' @ [dquote] @ ''// anonymous namespace'' @ [dquote]) g
               else report msg g)
         else g)"

definition CheckEnd :: "string \<Rightarrow> CleansedLines \<Rightarrow> nat \<Rightarrow> BlockInfo \<Rightarrow> lint \<Rightarrow> lint" where
  "CheckEnd filename cl linenum b g =
     (case kind b of
        ClassBlock c \<Rightarrow> ClassInfo_CheckEnd filename cl linenum c g
      | NamespaceBlock name start \<Rightarrow> NamespaceInfo_CheckEnd filename cl linenum name start g
      | _ \<Rightarrow> g)"

section \<open>The class \<open>NestingState\<close>\<close>

record PreprocessorInfo =
  stack_before_if :: "BlockInfo list"
  stack_before_else :: "BlockInfo list"
  seen_else :: bool

record NestingState =
  block_stack :: "BlockInfo list"
  previous_stack_top :: "BlockInfo option"
  pp_stack :: "PreprocessorInfo list"
  next_id :: nat

definition PreprocessorInfo_init :: "BlockInfo list \<Rightarrow> PreprocessorInfo" where
  "PreprocessorInfo_init s = \<lparr>stack_before_if = s, stack_before_else = [], seen_else = False\<rparr>"

definition NestingState_init :: NestingState where
  "NestingState_init = \<lparr>block_stack = [], previous_stack_top = None, pp_stack = [], next_id = 0\<rparr>"

definition top_is :: "(block_kind \<Rightarrow> bool) \<Rightarrow> NestingState \<Rightarrow> bool" where
  "top_is P ns \<longleftrightarrow> block_stack ns \<noteq> [] \<and> P (kind (hd (block_stack ns)))"

definition SeenOpenBrace :: "NestingState \<Rightarrow> bool" where
  "SeenOpenBrace ns \<longleftrightarrow> block_stack ns = [] \<or> seen_open_brace (hd (block_stack ns))"

definition InNamespaceBody :: "NestingState \<Rightarrow> bool" where
  "InNamespaceBody = top_is (\<lambda>k. case k of NamespaceBlock _ _ \<Rightarrow> True | _ \<Rightarrow> False)"

definition InExternC :: "NestingState \<Rightarrow> bool" where
  "InExternC = top_is (\<lambda>k. k = ExternCBlock)"

definition InClassDeclaration :: "NestingState \<Rightarrow> bool" where
  "InClassDeclaration = top_is (\<lambda>k. case k of ClassBlock _ \<Rightarrow> True | _ \<Rightarrow> False)"

definition InAsmBlock :: "NestingState \<Rightarrow> bool" where
  "InAsmBlock ns \<longleftrightarrow> block_stack ns \<noteq> [] \<and> inline_asm (hd (block_stack ns)) \<noteq> NO_ASM"

text \<open>\<open>InTemplateArgumentList\<close>. Each round moves to a later line or to a later position of the
  line.\<close>

definition template_pattern :: string where
  "template_pattern = raw ''^[^{};=`[`]`.<>]*(.)''"

definition template_re :: re where
  "template_re = RCat RBol (RCat (RRep 0 None True (RSet True [CChar CHR ''{'', CChar CHR ''}'',
     CChar CHR '';'', CChar CHR ''='', CChar CHR ''['', CChar CHR '']'', CChar CHR ''.'',
     CChar CHR ''<'', CChar CHR ''>''])) (RGroup 1 RAny))"

lemma template_compile: "re_compile template_pattern = Some template_re"
  by code_simp

lemma template_text:
  "Match template_pattern s = Some m \<Longrightarrow> m_text m \<noteq> [] \<and> length (m_text m) \<le> length s"
  using re_match_shape [OF _ template_compile] by (fastforce simp: template_re_def)

function InTemplateArgumentList :: "CleansedLines \<Rightarrow> nat \<Rightarrow> nat \<Rightarrow> bool option" where
  "InTemplateArgumentList cl linenum pos =
     (if linenum < NumLines cl then
        if linenum < length (elided cl) then
          (let line = elided cl ! linenum in
           case Match template_pattern (drop pos line) of
             None \<Rightarrow> InTemplateArgumentList cl (linenum + 1) 0
           | Some match \<Rightarrow>
               (let token = grp match 1;
                    pos = pos + length (m_text match)
                in if token \<in> {''{'', ''}'', '';''} then Some False
                   else if token \<in> {''>'', ''='', ''['', '']'', ''.''} then Some True
                   else if token \<noteq> ''<'' then
                     if pos + 1 \<ge> length line then InTemplateArgumentList cl (linenum + 1) 0
                     else InTemplateArgumentList cl linenum (pos + 1)
                   else
                     (case CloseExpression cl linenum (pos - 1) of
                        None \<Rightarrow> None
                      | Some (_, end_line, end_pos) \<Rightarrow>
                          if end_pos < 0 then Some False
                          else InTemplateArgumentList cl end_line (nat end_pos))))
        else None
      else Some False)"
  by pat_completeness auto
termination
proof (relation "measures [\<lambda>(cl, linenum, pos). NumLines cl - linenum,
    \<lambda>(cl, linenum, pos). length (elided cl ! linenum) - pos]", goal_cases)
  case (4 cl linenum pos line match token pos')
  from 4 template_text [of "drop pos line" match] show ?case by auto
next
  case (5 cl linenum pos line match token pos' r l r' end_line end_pos)
  have m: "m_text match \<noteq> []" "pos < length line"
    using 5 template_text [of "drop pos line" match] by (auto intro: ccontr)
  from 5 have "CloseExpression cl linenum (pos' - 1) = Some (l, end_line, end_pos)" "0 \<le> end_pos" by auto
  from CloseExpression_bounds [OF 5(1) this] have
    "linenum \<le> end_line" "end_line < NumLines cl" "end_line = linenum \<longrightarrow> int (pos' - 1) < end_pos"
    by auto
  moreover have "pos < pos'" using m 5(6) by (cases "m_text match") auto
  ultimately show ?case using m(2) 5(1,3,9-) by (cases "end_line = linenum") auto
qed auto

declare InTemplateArgumentList.simps [simp del]

section \<open>Preprocessor directives\<close>

text \<open>\<open>copy.deepcopy\<close> of a stack: the same blocks under new identities.\<close>

definition deepcopy :: "nat \<Rightarrow> BlockInfo list \<Rightarrow> BlockInfo list" where
  "deepcopy n s = map (\<lambda>(i, b). b\<lparr>block_id := n + i\<rparr>) (enumerate 0 s)"

datatype directive = If_Directive | Else_Directive | Endif_Directive | No_Directive

definition directive_of :: "string \<Rightarrow> directive" where
  "directive_of line =
     (if matches (raw ''^`s*#`s*(if|ifdef|ifndef)`b'') line then If_Directive
      else if matches (raw ''^`s*#`s*(else|elif)`b'') line then Else_Directive
      else if matches (raw ''^`s*#`s*endif`b'') line then Endif_Directive
      else No_Directive)"

definition pp_if :: "NestingState \<Rightarrow> NestingState" where
  "pp_if ns =
     ns\<lparr>pp_stack := PreprocessorInfo_init (deepcopy (next_id ns) (block_stack ns)) # pp_stack ns,
        next_id := next_id ns + length (block_stack ns)\<rparr>"

definition pp_else :: "NestingState \<Rightarrow> NestingState" where
  "pp_else ns =
     (case pp_stack ns of
        [] \<Rightarrow> ns
      | pp # rest \<Rightarrow>
          (let n = next_id ns;
               (pp, n) = (if \<not> seen_else pp
                          then (pp\<lparr>seen_else := True, stack_before_else := deepcopy n (block_stack ns)\<rparr>,
                                n + length (block_stack ns))
                          else (pp, n))
           in ns\<lparr>pp_stack := pp # rest, block_stack := deepcopy n (stack_before_if pp),
                 next_id := n + length (stack_before_if pp)\<rparr>))"

definition pp_endif :: "NestingState \<Rightarrow> NestingState" where
  "pp_endif ns =
     (case pp_stack ns of
        [] \<Rightarrow> ns
      | pp # rest \<Rightarrow>
          ns\<lparr>block_stack := (if seen_else pp then stack_before_else pp else block_stack ns),
             pp_stack := rest\<rparr>)"

definition UpdatePreprocessor :: "string \<Rightarrow> NestingState \<Rightarrow> NestingState" where
  "UpdatePreprocessor line ns =
     (case directive_of line of
        If_Directive \<Rightarrow> pp_if ns
      | Else_Directive \<Rightarrow> pp_else ns
      | Endif_Directive \<Rightarrow> pp_endif ns
      | No_Directive \<Rightarrow> ns)"

section \<open>\<open>Update\<close>\<close>

definition update_top :: "(BlockInfo \<Rightarrow> BlockInfo) \<Rightarrow> NestingState \<Rightarrow> NestingState" where
  "update_top f ns =
     ns\<lparr>block_stack := (case block_stack ns of [] \<Rightarrow> [] | b # s \<Rightarrow> f b # s)\<rparr>"

definition push_block :: "(nat \<Rightarrow> BlockInfo) \<Rightarrow> NestingState \<Rightarrow> NestingState" where
  "push_block mk ns =
     ns\<lparr>block_stack := mk (next_id ns) # block_stack ns, next_id := next_id ns + 1\<rparr>"

text \<open>Counting parentheses and following inline assembly.\<close>

definition count_parentheses :: "string \<Rightarrow> BlockInfo \<Rightarrow> BlockInfo" where
  "count_parentheses line b =
     (let depth_change = int (py_count line ''('') - int (py_count line '')'');
          b = b\<lparr>open_parentheses := open_parentheses b + depth_change\<rparr>
      in if inline_asm b \<in> {NO_ASM, END_ASM} then
           b\<lparr>inline_asm := (if depth_change \<noteq> 0 \<and> open_parentheses b = 1 \<and> matches MATCH_ASM line
                            then INSIDE_ASM else NO_ASM)\<rparr>
         else if inline_asm b = INSIDE_ASM \<and> open_parentheses b = 0 then b\<lparr>inline_asm := END_ASM\<rparr>
         else b)"

definition namespace_pattern :: string where
  "namespace_pattern = raw ''^`s*namespace`b`s*([:`w]+)?(.*)$''"

definition namespace_re :: re where
  "namespace_re =
     RCat RBol (RCat (RRep 0 None True (RSet False [CSpace True]))
       (RCat (RChar CHR ''n'') (RCat (RChar CHR ''a'') (RCat (RChar CHR ''m'') (RCat (RChar CHR ''e'')
       (RCat (RChar CHR ''s'') (RCat (RChar CHR ''p'') (RCat (RChar CHR ''a'') (RCat (RChar CHR ''c'')
       (RCat (RChar CHR ''e'') (RCat (RWordB True) (RCat (RRep 0 None True (RSet False [CSpace True]))
       (RCat (RRep 0 (Some 1) True (RGroup 1 (RRep 1 None True (RSet False [CChar CHR '':'', CWord True]))))
       (RCat (RGroup 2 (RRep 0 None True RAny)) REol))))))))))))))"

lemma namespace_compile: "re_compile namespace_pattern = Some namespace_re"
  by code_simp

lemma namespace_shorter: "Match namespace_pattern line = Some m \<Longrightarrow> length (grp m 2) < length line"
  using re_match_shape [OF _ namespace_compile, of line m]
  by (auto simp: namespace_re_def grp_def m_group_def)

text \<open>The loop over the namespace declarations at the start of the line.\<close>

function namespace_loop :: "nat \<Rightarrow> string \<Rightarrow> NestingState \<Rightarrow> string \<times> NestingState" where
  "namespace_loop linenum line ns =
     (case Match namespace_pattern line of
        None \<Rightarrow> (line, ns)
      | Some m \<Rightarrow>
          (let ns = push_block (\<lambda>n. NamespaceInfo_init n (m_group m 1) linenum) ns;
               line = grp m 2
           in case py_find line ''{'' of
                None \<Rightarrow> namespace_loop linenum line ns
              | Some i \<Rightarrow>
                  namespace_loop linenum (drop (i + 1) line)
                    (update_top (\<lambda>b. b\<lparr>seen_open_brace := True\<rparr>) ns)))"
  by pat_completeness auto
termination
  by (relation "measure (\<lambda>(linenum, line, ns). length line)")
    (auto dest!: namespace_shorter)

declare namespace_loop.simps [simp del]

definition class_pattern :: string where
  "class_pattern = raw ''^(`s*(?:template`s*<[`w`s<>,:]*>`s*)?(class|struct)`s+(?:[A-Z_]+`s+)*(`w+(?:::`w+)*))(.*)$''"

text \<open>The declaration of a class in what is left of the line.\<close>

definition class_declaration ::
    "CleansedLines \<Rightarrow> nat \<Rightarrow> string \<Rightarrow> NestingState \<Rightarrow> (string \<times> NestingState) option" where
  "class_declaration cl linenum line ns =
     (case Match class_pattern line of
        None \<Rightarrow> Some (line, ns)
      | Some m \<Rightarrow>
          if block_stack ns = [] \<or> open_parentheses (hd (block_stack ns)) = 0 then
            (case InTemplateArgumentList cl linenum (length (grp m 1)) of
               None \<Rightarrow> None
             | Some True \<Rightarrow> Some (line, ns)
             | Some False \<Rightarrow>
                 Some (grp m 4, push_block (\<lambda>n. ClassInfo_init n (grp m 3) (grp m 2) cl linenum) ns))
          else Some (line, ns))"

definition access_pattern :: string where
  "access_pattern = raw ''^(.*)`b(public|private|protected|signals)(`s+(?:slots`s*)?)?:(?:[^:]|$)''"

text \<open>Access control inside a class.\<close>

definition access_control ::
    "string \<Rightarrow> nat \<Rightarrow> string \<Rightarrow> NestingState \<Rightarrow> lint \<Rightarrow> NestingState \<times> lint" where
  "access_control filename linenum line ns g =
     (case block_stack ns of
        [] \<Rightarrow> (ns, g)
      | b # _ \<Rightarrow>
          (case kind b of
             ClassBlock c \<Rightarrow>
               (case Match access_pattern line of
                  None \<Rightarrow> (ns, g)
                | Some m \<Rightarrow>
                    (update_top (update_class (\<lambda>c. c\<lparr>class_access := grp m 2\<rparr>)) ns,
                     if length (grp m 1) \<noteq> class_indent c + 1 \<and> matches (raw ''^`s*$'') (grp m 1) then
                       Error filename (int linenum) ''whitespace/indent'' 3
                         (grp m 2 @ grp m 3 @ '': should be indented +1 space inside '' @ class_parent c) g
                     else g))
           | _ \<Rightarrow> (ns, g)))"

definition brace_pattern :: string where
  "brace_pattern = ''^[^{;)}]*([{;)}])(.*)$''"

definition brace_re :: re where
  "brace_re =
     (let items = [CChar CHR ''{'', CChar CHR '';'', CChar CHR '')'', CChar CHR ''}''] in
      RCat RBol (RCat (RRep 0 None True (RSet True items)) (RCat (RGroup 1 (RSet False items))
        (RCat (RGroup 2 (RRep 0 None True RAny)) REol))))"

lemma brace_compile: "re_compile brace_pattern = Some brace_re"
  by code_simp

lemma brace_shorter: "Match brace_pattern line = Some m \<Longrightarrow> length (grp m 2) < length line"
  using re_match_shape [OF _ brace_compile, of line m]
  by (auto simp: brace_re_def Let_def grp_def m_group_def)

text \<open>One round of the loop that consumes braces and semicolons.\<close>

definition brace_token ::
    "string \<Rightarrow> CleansedLines \<Rightarrow> nat \<Rightarrow> string \<Rightarrow> string \<Rightarrow> NestingState \<times> lint \<Rightarrow> NestingState \<times> lint" where
  "brace_token filename cl linenum line token nsg =
     (case nsg of (ns, g) \<Rightarrow>
        if token = ''{'' then
          (if \<not> SeenOpenBrace ns then update_top (\<lambda>b. b\<lparr>seen_open_brace := True\<rparr>) ns
           else if matches (raw ''^extern`s*\"[^\"]*\"`s*`{'') line then push_block ExternCInfo_init ns
           else
             push_block (\<lambda>n. (BlockInfo_init n True)
               \<lparr>inline_asm := (if matches MATCH_ASM line then BLOCK_ASM else NO_ASM)\<rparr>) ns, g)
        else if token = '';'' \<or> token = '')'' then
          (if \<not> SeenOpenBrace ns then ns\<lparr>block_stack := tl (block_stack ns)\<rparr> else ns, g)
        else
          (case block_stack ns of
             [] \<Rightarrow> (ns, g)
           | b # s \<Rightarrow> (ns\<lparr>block_stack := s\<rparr>, CheckEnd filename cl linenum b g)))"

function brace_loop ::
    "string \<Rightarrow> CleansedLines \<Rightarrow> nat \<Rightarrow> string \<Rightarrow> NestingState \<times> lint \<Rightarrow> NestingState \<times> lint" where
  "brace_loop filename cl linenum line nsg =
     (case Match brace_pattern line of
        None \<Rightarrow> nsg
      | Some m \<Rightarrow>
          brace_loop filename cl linenum (grp m 2)
            (brace_token filename cl linenum line (grp m 1) nsg))"
  by pat_completeness auto
termination
  by (relation "measure (\<lambda>(filename, cl, linenum, line, nsg). length line)") (auto dest: brace_shorter)

declare brace_loop.simps [simp del]

definition NestingState_Update ::
    "string \<Rightarrow> CleansedLines \<Rightarrow> nat \<Rightarrow> NestingState \<times> lint \<Rightarrow> (NestingState \<times> lint) option" where
  "NestingState_Update filename cl linenum nsg =
     (case nsg of (ns, g) \<Rightarrow>
        if linenum < length (elided cl) then
          (let line = elided cl ! linenum;
               ns = ns\<lparr>previous_stack_top :=
                          (case block_stack ns of [] \<Rightarrow> None | b # _ \<Rightarrow> Some b)\<rparr>;
               ns = UpdatePreprocessor line ns;
               ns = update_top (count_parentheses line) ns;
               (line, ns) = namespace_loop linenum line ns
           in case class_declaration cl linenum line ns of
                None \<Rightarrow> None
              | Some (line, ns) \<Rightarrow>
                  (let ns = (if \<not> SeenOpenBrace ns then update_top (CheckBegin cl linenum) ns else ns);
                       nsg = access_control filename linenum line ns g
                   in Some (brace_loop filename cl linenum line nsg)))
        else None)"

definition InnermostClass :: "NestingState \<Rightarrow> ClassInfo option" where
  "InnermostClass ns =
     (case find (\<lambda>b. case kind b of ClassBlock _ \<Rightarrow> True | _ \<Rightarrow> False) (block_stack ns) of
        Some b \<Rightarrow> (case kind b of ClassBlock c \<Rightarrow> Some c | _ \<Rightarrow> None)
      | None \<Rightarrow> None)"

definition check_completed :: "string \<Rightarrow> BlockInfo \<Rightarrow> lint \<Rightarrow> lint" where
  "check_completed filename b g =
     (case kind b of
        ClassBlock c \<Rightarrow>
          Error filename (int (class_starting_linenum c)) ''build/class'' 5
            (''Failed to find complete declaration of class '' @ class_name c) g
      | NamespaceBlock name start \<Rightarrow>
          Error filename (int start) ''build/namespaces'' 5
            (''Failed to find complete declaration of namespace '' @ name) g
      | _ \<Rightarrow> g)"

definition CheckCompletedBlocks :: "string \<Rightarrow> NestingState \<Rightarrow> lint \<Rightarrow> lint" where
  "CheckCompletedBlocks filename ns g =
     fold (check_completed filename) (rev (block_stack ns)) g"

section \<open>What \<open>Update\<close> may do\<close>

lemma disallow_loop_reports: "reports g (disallow_loop filename cl name seen is g)"
  by (induction filename cl name seen "is" g rule: disallow_loop.induct) (auto split: option.split)

lemma CheckEnd_reports: "reports g (CheckEnd filename cl linenum b g)"
proof -
  have "reports g (ClassInfo_CheckEnd filename cl linenum c g)" for c
    by (auto simp: ClassInfo_CheckEnd_def Let_def disallow_loop_reports split: option.split
        intro: reports_trans [OF disallow_loop_reports Error_reports])
  moreover have "reports g (NamespaceInfo_CheckEnd filename cl linenum name start g)" for name start
    by (simp add: NamespaceInfo_CheckEnd_def Let_def)
  ultimately show ?thesis by (simp add: CheckEnd_def split: block_kind.split)
qed

interpretation check_end: lint_check "CheckEnd filename cl linenum b"
  by unfold_locales (rule CheckEnd_reports)

interpretation completed: lint_check_family "check_completed filename"
  by unfold_locales (simp add: check_completed_def split: block_kind.split)

interpretation completed_blocks: lint_check "CheckCompletedBlocks filename ns"
  by unfold_locales (simp add: CheckCompletedBlocks_def completed.fold_reports)

lemma brace_loop_reports: "reports (snd nsg) (snd (brace_loop filename cl linenum line nsg))"
proof (induction filename cl linenum line nsg rule: brace_loop.induct)
  case (1 filename cl linenum line nsg)
  have "reports (snd nsg) (snd (brace_token filename cl linenum line token nsg))" for token
    by (auto simp: brace_token_def CheckEnd_reports split: prod.split list.split)
  with 1 show ?case
    by (subst brace_loop.simps) (auto split: option.split intro: reports_trans)
qed

lemma access_control_reports: "reports g (snd (access_control filename linenum line ns g))"
  by (auto simp: access_control_def split: list.split block_kind.split option.split)

lemma InTemplateArgumentList_total:
  "length (elided cl) = NumLines cl \<Longrightarrow> InTemplateArgumentList cl linenum pos \<noteq> None"
proof (induction cl linenum pos rule: InTemplateArgumentList.induct)
  case (1 cl linenum pos)
  let ?line = "elided cl ! linenum"
  show ?case
  proof (cases "linenum < NumLines cl")
    case True
    with 1 have len: "linenum < length (elided cl)" by simp
    show ?thesis
    proof (cases "Match template_pattern (drop pos ?line)")
      case None
      with 1(1) [OF True len refl] 1(5) True len show ?thesis
        by (subst InTemplateArgumentList.simps) (simp del: not_None_eq)
    next
      case (Some m)
      note ih = 1(2-4) [OF True len refl Some refl refl]
      have "pos + length (m_text m) - 1 < length ?line" using template_text [OF Some] by (cases "m_text m") auto
      with len obtain l n p where c: "CloseExpression cl linenum (pos + length (m_text m) - 1) = Some (l, n, p)"
        by (cases "CloseExpression cl linenum (pos + length (m_text m) - 1)")
          (auto simp: CloseExpression_def Let_def split: if_splits)
      show ?thesis
        by (subst InTemplateArgumentList.simps)
          (use ih c Some True len 1(5) in \<open>simp add: Let_def del: not_None_eq\<close>)
    qed
  qed (subst InTemplateArgumentList.simps, simp)
qed

lemma class_declaration_total:
  "length (elided cl) = NumLines cl \<Longrightarrow> \<exists>line' ns'. class_declaration cl linenum line ns = Some (line', ns')"
proof -
  assume len: "length (elided cl) = NumLines cl"
  show ?thesis
  proof (cases "Match class_pattern line")
    case (Some m)
    obtain b where "InTemplateArgumentList cl linenum (length (grp m 1)) = Some b"
      using InTemplateArgumentList_total [OF len] by fastforce
    with Some show ?thesis by (cases b) (simp_all add: class_declaration_def)
  qed (simp add: class_declaration_def)
qed

text \<open>C28: \<open>Update\<close> ends without an error on every line of a file, whatever the state and the
  text of the lines, and only reports.\<close>

theorem Update_total:
  assumes "cleansed_ok cl" and "linenum < NumLines cl"
  shows "\<exists>ns' g'. NestingState_Update filename cl linenum (ns, g) = Some (ns', g') \<and> reports g g'"
proof -
  have len: "length (elided cl) = NumLines cl" using assms by (simp add: cleansed_ok_def NumLines_def)
  define line where "line = elided cl ! linenum"
  define ns1 where "ns1 = update_top (count_parentheses line) (UpdatePreprocessor line
      (ns\<lparr>previous_stack_top := (case block_stack ns of [] \<Rightarrow> None | b # _ \<Rightarrow> Some b)\<rparr>))"
  obtain line2 ns2 where 2: "namespace_loop linenum line ns1 = (line2, ns2)" by fastforce
  from class_declaration_total [OF len] obtain line3 ns3 where
    3: "class_declaration cl linenum line2 ns2 = Some (line3, ns3)" by blast
  define ns4 where "ns4 = (if \<not> SeenOpenBrace ns3 then update_top (CheckBegin cl linenum) ns3 else ns3)"
  let ?r = "brace_loop filename cl linenum line3 (access_control filename linenum line3 ns4 g)"
  have "NestingState_Update filename cl linenum (ns, g) = Some ?r"
    using assms(2) len 2 3
    by (simp add: NestingState_Update_def Let_def line_def [symmetric] ns1_def [symmetric] ns4_def)
  moreover have "reports g (snd ?r)"
    by (rule reports_trans [OF access_control_reports brace_loop_reports])
  ultimately show ?thesis by (metis prod.collapse)
qed

theorem Update_total_witness:
  "\<exists>ns' g'. NestingState_Update ''a.cc'' expr_example 0 (NestingState_init, lint_init) = Some (ns', g') \<and>
     reports lint_init g'"
proof -
  have "cleansed_ok expr_example" by code_simp
  moreover have "0 < NumLines expr_example" by code_simp
  ultimately show ?thesis by (rule Update_total)
qed

section \<open>Conditional compilation\<close>

lemma update_top_pp [simp]: "pp_stack (update_top f ns) = pp_stack ns"
  by (simp add: update_top_def)

lemma push_block_pp [simp]: "pp_stack (push_block mk ns) = pp_stack ns"
  by (simp add: push_block_def)

lemma namespace_loop_pp: "pp_stack (snd (namespace_loop linenum line ns)) = pp_stack ns"
proof (induction linenum line ns rule: namespace_loop.induct)
  case (1 linenum line ns)
  then show ?case by (subst namespace_loop.simps) (auto simp: Let_def split: option.split)
qed

lemma class_declaration_pp:
  "class_declaration cl linenum line ns = Some (line', ns') \<Longrightarrow> pp_stack ns' = pp_stack ns"
  by (auto simp: class_declaration_def split: option.splits bool.splits if_splits)

lemma access_control_pp: "pp_stack (fst (access_control filename linenum line ns g)) = pp_stack ns"
  by (auto simp: access_control_def split: list.split block_kind.split option.split)

lemma brace_loop_pp: "pp_stack (fst (brace_loop filename cl linenum line nsg)) = pp_stack (fst nsg)"
proof (induction filename cl linenum line nsg rule: brace_loop.induct)
  case (1 filename cl linenum line nsg)
  have "pp_stack (fst (brace_token filename cl linenum line token nsg)) = pp_stack (fst nsg)" for token
    by (auto simp: brace_token_def split: prod.split list.split)
  with 1 show ?case by (subst brace_loop.simps) (auto split: option.split)
qed

lemma UpdatePreprocessor_top: "pp_stack (UpdatePreprocessor line (ns\<lparr>previous_stack_top := t\<rparr>)) =
    pp_stack (UpdatePreprocessor line ns)"
  by (auto simp: UpdatePreprocessor_def pp_if_def pp_else_def pp_endif_def Let_def
      split: directive.split list.split prod.split)

text \<open>Only the directives move the stack of conditions.\<close>

lemma Update_pp_stack:
  assumes "NestingState_Update filename cl linenum (ns, g) = Some (ns', g')"
  shows "pp_stack ns' = pp_stack (UpdatePreprocessor (elided cl ! linenum) ns)"
proof -
  let ?line = "elided cl ! linenum"
  define ns1 where "ns1 = update_top (count_parentheses ?line) (UpdatePreprocessor ?line
      (ns\<lparr>previous_stack_top := (case block_stack ns of [] \<Rightarrow> None | b # _ \<Rightarrow> Some b)\<rparr>))"
  obtain line2 ns2 where 2: "namespace_loop linenum ?line ns1 = (line2, ns2)" by fastforce
  from assms obtain line3 ns3 where 3: "class_declaration cl linenum line2 ns2 = Some (line3, ns3)"
    and r: "(ns', g') = brace_loop filename cl linenum line3 (access_control filename linenum line3
        (if \<not> SeenOpenBrace ns3 then update_top (CheckBegin cl linenum) ns3 else ns3) g)"
    by (auto simp: NestingState_Update_def Let_def ns1_def [symmetric] 2 split: if_splits option.splits)
  have "pp_stack ns' = pp_stack ns3"
    using arg_cong [OF r, of "\<lambda>x. pp_stack (fst x)"] by (simp add: brace_loop_pp access_control_pp)
  also have "\<dots> = pp_stack ns2" by (rule class_declaration_pp [OF 3])
  also have "\<dots> = pp_stack ns1" using namespace_loop_pp [of linenum ?line ns1] 2 by simp
  finally show ?thesis by (simp add: ns1_def UpdatePreprocessor_top)
qed

text \<open>Running \<open>Update\<close> over the lines from \<open>a\<close> up to \<open>b\<close>.\<close>

fun update_lines ::
    "string \<Rightarrow> CleansedLines \<Rightarrow> nat list \<Rightarrow> NestingState \<times> lint \<Rightarrow> (NestingState \<times> lint) option" where
  "update_lines filename cl [] nsg = Some nsg"
| "update_lines filename cl (i # is) nsg =
     (case NestingState_Update filename cl i nsg of
        None \<Rightarrow> None
      | Some nsg' \<Rightarrow> update_lines filename cl is nsg')"

text \<open>Lines whose conditions are balanced, inside \<open>d\<close> open conditions of their own.\<close>

fun conditions_balanced :: "nat \<Rightarrow> string list \<Rightarrow> bool" where
  "conditions_balanced d [] = (d = 0)"
| "conditions_balanced d (line # ls) =
     (case directive_of line of
        If_Directive \<Rightarrow> conditions_balanced (d + 1) ls
      | Else_Directive \<Rightarrow> d > 0 \<and> conditions_balanced d ls
      | Endif_Directive \<Rightarrow> d > 0 \<and> conditions_balanced (d - 1) ls
      | No_Directive \<Rightarrow> conditions_balanced d ls)"

lemma update_lines_pp_stack:
  assumes "update_lines filename cl is (ns, g) = Some (ns', g')"
    and "conditions_balanced (length own) (map (\<lambda>i. elided cl ! i) is)"
    and "pp_stack ns = own @ outer"
  shows "pp_stack ns' = outer"
  using assms
proof (induction "is" arbitrary: ns g own)
  case (Cons i "is")
  from Cons.prems(1) obtain ns1 g1 where u: "NestingState_Update filename cl i (ns, g) = Some (ns1, g1)"
    and r: "update_lines filename cl is (ns1, g1) = Some (ns', g')"
    by (auto split: option.splits)
  note pp = Update_pp_stack [OF u] and bal = Cons.prems(2)
  have "\<exists>own'. pp_stack ns1 = own' @ outer \<and>
      conditions_balanced (length own') (map (\<lambda>i. elided cl ! i) is)"
  proof (cases "directive_of (elided cl ! i)")
    case If_Directive
    with pp bal Cons.prems(3) show ?thesis
      by (intro exI [of _ "PreprocessorInfo_init (deepcopy (next_id ns) (block_stack ns)) # own"])
        (simp add: UpdatePreprocessor_def pp_if_def)
  next
    case Else_Directive
    with pp bal Cons.prems(3) show ?thesis
      by (cases own) (auto simp: UpdatePreprocessor_def pp_else_def Let_def
          intro!: exI [of _ "x # xs" for x xs] split: prod.splits)
  next
    case Endif_Directive
    with pp bal Cons.prems(3) show ?thesis
      by (cases own) (auto simp: UpdatePreprocessor_def pp_endif_def)
  next
    case No_Directive
    with pp bal Cons.prems(3) show ?thesis by (intro exI [of _ own]) (simp add: UpdatePreprocessor_def)
  qed
  then show ?case using Cons.IH [OF r] by blast
qed simp

text \<open>The blocks of a stack, leaving their identities aside.\<close>

definition contents :: "BlockInfo list \<Rightarrow> BlockInfo list" where
  "contents s = map (\<lambda>b. b\<lparr>block_id := 0\<rparr>) s"

lemma contents_deepcopy: "contents (deepcopy n s) = contents s"
  by (rule nth_equalityI) (simp_all add: contents_def deepcopy_def nth_enumerate_eq)

lemma update_lines_region:
  assumes "update_lines filename cl [i..<j] (ns, g) = Some (ns', g')" and "i < j"
    and "conditions_balanced 0 (map (\<lambda>k. elided cl ! k) [Suc i..<j])"
  shows "pp_stack ns' = pp_stack (UpdatePreprocessor (elided cl ! i) ns)"
proof -
  from assms(1,2) obtain ns1 g1 where u: "NestingState_Update filename cl i (ns, g) = Some (ns1, g1)"
    and r: "update_lines filename cl [Suc i..<j] (ns1, g1) = Some (ns', g')"
    by (auto simp: upt_conv_Cons split: option.splits)
  have "pp_stack ns' = pp_stack ns1"
    using update_lines_pp_stack [OF r, of "[]" "pp_stack ns1"] assms(3) by simp
  with Update_pp_stack [OF u] show ?thesis by simp
qed


definition else_example :: CleansedLines where
  "else_example =
     (let ls = [''#if A'', ''class X {'', ''#else'', ''class Y : public Z {'', ''#endif'', ''};''] in
      \<lparr>elided = ls, lines = ls, raw_lines = ls, num_lines = 6, lines_without_raw_strings = ls\<rparr>)"


end
