(* ===== verification/Lint_Spacing.thy ===== *)
theory Lint_Spacing
  imports Lint_Nesting
begin

text \<open>
  Checks of the spacing of a line in \<^verbatim>\<open>build-support/cpplint.py\<close>, from
  \<open>CheckForNonStandardConstructs\<close> to \<open>CheckBracesSpacing\<close>. A check is a list of steps (\<open>run\<close>); it
  is an option where the code reads a list or a string by an index, \<open>None\<close> for the
  \<open>IndexError\<close>.
\<close>

section \<open>Constructs that are not standard\<close>

text \<open>\<open>s.split(sep)\<close> for a separator of several characters.\<close>

function split_on :: "string \<Rightarrow> string \<Rightarrow> string list" where
  "split_on sep s =
     (case py_find s sep of
        None \<Rightarrow> [s]
      | Some i \<Rightarrow> if sep = [] then [s] else take i s # split_on sep (drop (i + length sep) s))"
  by pat_completeness auto
termination
proof (relation "measure (\<lambda>(sep, s). length s)", goal_cases)
  case (2 sep s i)
  then have "i + length sep \<le> length s" using py_find_Some by blast
  with 2 show ?case by (cases sep) auto
qed simp

declare split_on.simps [simp del]

text \<open>The loop that collapses the arguments of a constructor: an argument with more opening
  than closing brackets is joined with the next one. There may be no next one.\<close>

definition open_argument :: "string \<Rightarrow> bool" where
  "open_argument arg \<longleftrightarrow>
     py_count arg ''<'' > py_count arg ''>'' \<or> py_count arg ''('' > py_count arg '')''"

fun collapse_arg :: "string \<Rightarrow> string list \<Rightarrow> (string \<times> string list) option" where
  "collapse_arg arg [] = (if open_argument arg then None else Some (arg, []))"
| "collapse_arg arg (next_arg # args) =
     (if open_argument arg then collapse_arg (arg @ '','' @ next_arg) args
      else Some (arg, next_arg # args))"

lemma collapse_arg_shorter: "collapse_arg arg args = Some (arg', args') \<Longrightarrow> length args' \<le> length args"
  by (induction arg args rule: collapse_arg.induct) (auto split: if_splits)

function collapse_args :: "string list \<Rightarrow> string list option" where
  "collapse_args [] = Some []"
| "collapse_args (arg # args) =
     (case collapse_arg arg args of
        None \<Rightarrow> None
      | Some (arg, args) \<Rightarrow> map_option ((#) arg) (collapse_args args))"
  by pat_completeness auto
termination
  by (relation "measure length") (auto dest: collapse_arg_shorter)

definition constructor_pattern :: "string \<Rightarrow> string" where
  "constructor_pattern base_classname =
     raw ''`s+(?:inline`s+)?(explicit`s+)?(?:inline`s+)?'' @ re_escape base_classname @
     raw ''`s*`(((?:[^()]|`([^()]*`))*)`)''"

definition copy_constructor_pattern :: "string \<Rightarrow> string" where
  "copy_constructor_pattern base_classname =
     raw ''(const`s+)?'' @ re_escape base_classname @ raw ''(`s*<[^>]*>)?(`s+const)?`s*(?:<`w+>`s*)?&''"

text \<open>The part on constructors, for the arguments after collapsing.\<close>

definition check_explicit ::
    "string \<Rightarrow> nat \<Rightarrow> string \<Rightarrow> bool \<Rightarrow> string list \<Rightarrow> lint \<Rightarrow> lint" where
  "check_explicit filename linenum base_classname is_marked_explicit constructor_args =
     (let defaulted_args = filter (\<lambda>arg. CHR ''='' \<in> set arg) constructor_args;
          noarg_constructor =
            (constructor_args = [] \<or>
             length constructor_args = 1 \<and> py_strip (constructor_args ! 0) = ''void'');
          onearg_constructor =
            (length constructor_args = 1 \<and> \<not> noarg_constructor \<or>
             length constructor_args \<ge> 1 \<and> \<not> noarg_constructor \<and>
             length defaulted_args \<ge> length constructor_args - 1);
          initializer_list_constructor =
            (onearg_constructor \<and>
             found (raw ''`bstd`s*::`s*initializer_list`b'') (constructor_args ! 0));
          copy_constructor =
            (onearg_constructor \<and>
             matches (copy_constructor_pattern base_classname) (py_strip (constructor_args ! 0)));
          report = Error filename (int linenum) ''runtime/explicit''
      in if \<not> is_marked_explicit \<and> onearg_constructor \<and> \<not> initializer_list_constructor \<and>
            \<not> copy_constructor then
           if defaulted_args \<noteq> [] then
             report 5 ''Constructors callable with one argument should be marked explicit.''
           else report 5 ''Single-parameter constructors should be marked explicit.''
         else if is_marked_explicit \<and> \<not> onearg_constructor then
           if noarg_constructor then
             report 5 ''Zero-parameter constructors should not be marked explicit.''
           else report 0
             ''Constructors that require multiple arguments should not be marked explicit.''
         else id)"

definition check_constructor :: "string \<Rightarrow> nat \<Rightarrow> string \<Rightarrow> string \<Rightarrow> lint \<Rightarrow> lint option" where
  "check_constructor filename linenum line name =
     (let base_classname = last (split_on ''::'' name) in
      case Match (constructor_pattern base_classname) line of
        None \<Rightarrow> ok id
      | Some m \<Rightarrow>
          (case collapse_args (if grp m 2 = [] then [] else py_split CHR '','' (grp m 2)) of
             None \<Rightarrow> (\<lambda>g. None)
           | Some constructor_args \<Rightarrow>
               ok (check_explicit filename linenum base_classname (grp m 1 \<noteq> []) constructor_args)))"

definition innermost_class_block :: "NestingState \<Rightarrow> BlockInfo option" where
  "innermost_class_block ns =
     find (\<lambda>b. case kind b of ClassBlock _ \<Rightarrow> True | _ \<Rightarrow> False) (block_stack ns)"

definition check_nonstandard :: "string \<Rightarrow> nat \<Rightarrow> string \<Rightarrow> string \<Rightarrow> lint \<Rightarrow> lint" where
  "check_nonstandard filename linenum commented line =
     run
      [error_if (found (raw ''printf`s*`(.*'' @ [dquote] @ raw ''.*%[-+ ]?`d*q'') commented)
         filename linenum ''runtime/printf_format'' 3
         ''%q in format strings is deprecated.  Use %ll instead.'',
       error_if (found (raw ''printf`s*`(.*'' @ [dquote] @ raw ''.*%`d+`$'') commented)
         filename linenum ''runtime/printf_format'' 2
         ''%N$ formats are unconventional.  Try rewriting to avoid them.'',
       error_if (found (''('' @ [dquote] @ raw ''|`'' @ [squote] @ raw '').*``(%|`[|`(|{)'')
                  (py_replace [backslash, backslash] [] commented))
         filename linenum ''build/printf_format'' 3
         ''%, [, (, and { are undefined character escapes.  Unescape them.'',
       error_if (found (raw ''`b(const|volatile|void|char|short|int|long'' @
                        ''|float|double|signed|unsigned'' @
                        ''|schar|u?int8|u?int16|u?int32|u?int64)'' @
                        raw ''`s+(register|static|extern|typedef)`b'') line)
         filename linenum ''build/storage_class'' 5
         ''Storage class (static, extern, typedef, etc) should be first.'',
       error_if (matches (raw ''`s*#`s*endif`s*[^/`s]+'') line)
         filename linenum ''build/endif_comment'' 5
         ''Uncommented text after #endif is non-standard.  Use a comment.'',
       error_if (matches (raw ''`s*class`s+(`w+`s*::`s*)+`w+`s*;'') line)
         filename linenum ''build/forward_decl'' 5
         ''Inner-style forward declarations are invalid.  Remove this line.'',
       error_if (found (raw ''(`w+|[+-]?`d+(`.`d*)?)`s*(<|>)`?=?`s*(`w+|[+-]?`d+)(`.`d*)?'') line)
         filename linenum ''build/deprecated'' 3
         ''>? and <? (max and min) operators are non-standard and deprecated.'',
       error_if (found (raw ''^`s*const`s*string`s*&`s*`w+`s*;'') line)
         filename linenum ''runtime/member_string_references'' 2
         (''const string& members are dangerous. It is much better to use '' @
          ''alternatives, such as pointers or simple constants.'')]"

definition CheckForNonStandardConstructs ::
    "string \<Rightarrow> CleansedLines \<Rightarrow> nat \<Rightarrow> NestingState \<Rightarrow> lint \<Rightarrow> lint option" where
  "CheckForNonStandardConstructs filename clean_lines linenum nesting_state =
     run_opt
      [ok (check_nonstandard filename linenum (lines clean_lines ! linenum) (elided clean_lines ! linenum)),
       (case innermost_class_block nesting_state of
          None \<Rightarrow> ok id
        | Some b \<Rightarrow>
            if \<not> seen_open_brace b then ok id
            else (case kind b of
                    ClassBlock classinfo \<Rightarrow>
                      check_constructor filename linenum (elided clean_lines ! linenum)
                        (class_name classinfo)
                  | _ \<Rightarrow> ok id))]"

section \<open>Function calls and the length of functions\<close>

text \<open>The first pattern that is found says where to look for a call.\<close>

fun control_argument :: "string list \<Rightarrow> string \<Rightarrow> string" where
  "control_argument [] line = line"
| "control_argument (pattern # patterns) line =
     (case Search pattern line of
        Some m \<Rightarrow> grp m 1
      | None \<Rightarrow> control_argument patterns line)"

definition CheckSpacingForFunctionCall :: "string \<Rightarrow> CleansedLines \<Rightarrow> nat \<Rightarrow> lint \<Rightarrow> lint" where
  "CheckSpacingForFunctionCall filename clean_lines linenum =
     (let line = elided clean_lines ! linenum;
          fncall = control_argument
            [raw ''`bif`s*`((.*)`)`s*{'', raw ''`bfor`s*`((.*)`)`s*{'',
             raw ''`bwhile`s*`((.*)`)`s*[{;]'', raw ''`bswitch`s*`((.*)`)`s*{''] line;
          report = Error filename (int linenum) ''whitespace/parens''
      in if \<not> found (raw ''`b(if|for|while|switch|return|new|delete|catch|sizeof)`b'') fncall \<and>
            \<not> found (raw '' `([^)]+`)`([^)]*(`)|,$)'') fncall \<and>
            \<not> found (raw '' `([^)]+`)`[[^`]]+`]'') fncall then
           run
            [if found (raw ''`w`s*`(`s(?!`s*``$)'') fncall
             then report 4 ''Extra space after ( in function call''
             else if found (raw ''`(`s+(?!(`s*``)|`()'') fncall
             then report 2 ''Extra space after (''
             else id,
             if found (raw ''`w`s+`('') fncall \<and>
                \<not> found (raw ''#`s*define|typedef|using`s+`w+`s*='') fncall \<and>
                \<not> found (raw ''`w`s+`((`w+::)*`*`w+`)`('') fncall \<and>
                \<not> found (raw ''`bcase`s+`('') fncall then
               if found (raw ''`boperator_*`b'') line
               then report 0 ''Extra space before ( in function call''
               else report 4 ''Extra space before ( in function call''
             else id,
             if found (raw ''[^)]`s+`)`s*[^{`s]'') fncall then
               if found (raw ''^`s+`)'') fncall
               then report 2 ''Closing ) should be moved to the previous line''
               else report 2 ''Extra space before )''
             else id]
         else id)"

definition IsBlankLine :: "string \<Rightarrow> bool" where
  "IsBlankLine line \<longleftrightarrow> list_all py_isspace line"

text \<open>The search for the body of a function: the line where it opens and the lines up to there,
  a declaration, or neither.\<close>

datatype body = Body_Opens string | No_Body_Here | Body_Missing

fun body_loop :: "string list \<Rightarrow> string \<Rightarrow> nat list \<Rightarrow> body" where
  "body_loop ls joined_line [] = Body_Missing"
| "body_loop ls joined_line (i # is) =
     (let start_line = ls ! i;
          joined_line = joined_line @ '' '' @ py_lstrip start_line
      in if found ''(;|})'' start_line then No_Body_Here
         else if found ''{'' start_line then Body_Opens joined_line
         else body_loop ls joined_line is)"

definition starting_func :: "string \<Rightarrow> bool" where
  "starting_func line =
     (case Match (raw ''(`w(`w|::|`*|`&|`s)*)`('') line of
        None \<Rightarrow> False
      | Some m \<Rightarrow>
          (let function_name = last (py_split_ws (grp m 1)) in
           function_name = ''TEST'' \<or> function_name = ''TEST_F'' \<or>
           \<not> matches ''[A-Z_]+$'' function_name))"

definition function_label :: "string \<Rightarrow> string \<Rightarrow> string" where
  "function_label function joined_line =
     (if matches ''TEST'' function then
        (case Search (raw ''(`(.*`))'') joined_line of
           Some parameter_regexp \<Rightarrow> function @ grp parameter_regexp 1
         | None \<Rightarrow> function)
      else function @ ''()'')"

definition CheckForFunctionLengths ::
    "string \<Rightarrow> CleansedLines \<Rightarrow> nat \<Rightarrow> FunctionState \<times> lint \<Rightarrow> (FunctionState \<times> lint) option" where
  "CheckForFunctionLengths filename clean_lines linenum fg =
     (case fg of (function_state, g) \<Rightarrow>
        (let line = lines clean_lines ! linenum in
         if starting_func line then
           (case body_loop (lines clean_lines) [] [linenum..<NumLines clean_lines] of
              Body_Missing \<Rightarrow>
                Some (function_state,
                      Error filename (int linenum) ''readability/fn_size'' 5
                        ''Lint failed to find start of function body.'' g)
            | No_Body_Here \<Rightarrow> Some fg
            | Body_Opens joined_line \<Rightarrow>
                (case Search (raw ''((`w|:)*)`('') line of
                   None \<Rightarrow> None
                 | Some m \<Rightarrow>
                     Some (FunctionState_Begin (function_label (grp m 1) joined_line) function_state, g)))
         else if matches (raw ''^`}`s*$'') line then
           Some (FunctionState_End function_state,
                 FunctionState_Check filename (int linenum) function_state g)
         else if \<not> matches (raw ''^`s*$'') line then Some (FunctionState_Count function_state, g)
         else Some fg))"

section \<open>Comments and blank lines\<close>

definition RE_PATTERN_TODO :: string where
  "RE_PATTERN_TODO = raw ''^//(`s*)TODO(`(.+?`))?:?(`s|$)?''"

text \<open>\<open>commentpos >= k and line[commentpos-k] not in string.whitespace\<close>.\<close>

definition code_before :: "string \<Rightarrow> nat \<Rightarrow> nat \<Rightarrow> bool" where
  "code_before line commentpos k \<longleftrightarrow> commentpos \<ge> k \<and> \<not> re_space (line ! (commentpos - k))"

definition check_todo :: "string \<Rightarrow> nat \<Rightarrow> string \<Rightarrow> lint \<Rightarrow> lint" where
  "check_todo filename linenum comment =
     (case Match RE_PATTERN_TODO comment of
        None \<Rightarrow> id
      | Some m \<Rightarrow>
          run
           [error_if (length (grp m 1) > 1) filename linenum ''whitespace/todo'' 2
              ''Too many spaces before TODO'',
            error_if (grp m 2 = []) filename linenum ''readability/todo'' 2
              (''Missing username in TODO; it should look like '' @
               [dquote] @ ''// TODO(my_username): Stuff.'' @ [dquote]),
            error_if (m_group m 3 \<noteq> Some '' '' \<and> m_group m 3 \<noteq> Some [])
              filename linenum ''whitespace/todo'' 2
              ''TODO(my_username) should be followed by a space''])"

definition CheckComment :: "string \<Rightarrow> string \<Rightarrow> nat \<Rightarrow> nat \<Rightarrow> lint \<Rightarrow> lint" where
  "CheckComment line filename linenum next_line_start =
     (case py_find line ''//'' of
        None \<Rightarrow> id
      | Some commentpos \<Rightarrow>
          if even (int (py_count (take commentpos line) [dquote]) -
                   int (py_count (take commentpos line) [backslash, dquote])) then
            (let comment = drop commentpos line in
             run
              [error_if (\<not> (matches ''^.*{ *//'' line \<and> next_line_start = commentpos) \<and>
                         (code_before line commentpos 1 \<or> code_before line commentpos 2))
                 filename linenum ''whitespace/comments'' 2
                 ''At least two spaces is best between code and comments'',
               check_todo filename linenum comment,
               error_if (matches (raw ''//[^ ]*`w'') comment \<and>
                         \<not> matches (raw ''(///|//`!)(`s+|$)'') comment)
                 filename linenum ''whitespace/comments'' 4
                 ''Should have a space between // and comment''])
          else id)"

definition CheckAccess :: "string \<Rightarrow> CleansedLines \<Rightarrow> nat \<Rightarrow> NestingState \<Rightarrow> lint \<Rightarrow> lint" where
  "CheckAccess filename clean_lines linenum nesting_state =
     (case Match (raw ''`s*(DISALLOW_COPY_AND_ASSIGN|DISALLOW_IMPLICIT_CONSTRUCTORS)'')
             (elided clean_lines ! linenum) of
        None \<Rightarrow> id
      | Some matched \<Rightarrow>
          (case block_stack nesting_state of
             [] \<Rightarrow> id
           | b # _ \<Rightarrow>
               (case kind b of
                  ClassBlock c \<Rightarrow>
                    error_if (class_access c \<noteq> ''private'') filename linenum
                      ''readability/constructors'' 3
                      (grp matched 1 @ '' must be in the private: section'')
                | _ \<Rightarrow> id)))"

text \<open>\<open>s.rfind(c)\<close> for a character.\<close>

definition rfind_char :: "char \<Rightarrow> string \<Rightarrow> nat option" where
  "rfind_char c s =
     (if c \<in> set s then Some (length s - 1 - length (takeWhile (\<lambda>d. d \<noteq> c) (rev s))) else None)"

text \<open>The loop over an initializer list, upward from line \<open>n - 1\<close>: the number of lines up to the
  first one above the list.\<close>

fun skip_initializers :: "string list \<Rightarrow> nat \<Rightarrow> nat" where
  "skip_initializers ls 0 = 0"
| "skip_initializers ls (Suc n) =
     (if matches (raw '' {6}`w'') (ls ! n) then skip_initializers ls n else Suc n)"

definition header_before_block :: "string list \<Rightarrow> nat \<Rightarrow> string \<Rightarrow> bool" where
  "header_before_block ls linenum prev_line \<longleftrightarrow>
     (if matches (raw '' {6}`w'') prev_line then
        (let n = skip_initializers ls (linenum - 1) in
         n > 0 \<and> take 5 (ls ! (n - 1)) = ''    :'')
      else
        matches (raw '' {4}`w[^`(]*`)`s*(const`s*)?(`{`s*$|:)'') prev_line \<or>
        matches '' {4}:'' prev_line)"

definition check_blank_line ::
    "string \<Rightarrow> CleansedLines \<Rightarrow> nat \<Rightarrow> string list \<Rightarrow> lint \<Rightarrow> lint" where
  "check_blank_line filename clean_lines linenum raw_ls =
     (let prev_line = py_nth (elided clean_lines) (int linenum - 1) in
      run
       [(case rfind_char CHR ''{'' prev_line of
           None \<Rightarrow> id
         | Some prevbrace \<Rightarrow>
             error_if (CHR ''}'' \<notin> set (drop prevbrace prev_line) \<and>
                       \<not> header_before_block (elided clean_lines) linenum prev_line)
               filename linenum ''whitespace/blank_line'' 2
               ''Redundant blank line at the start of a code block should be deleted.''),
        (if linenum + 1 < NumLines clean_lines then
           (let next_line = raw_ls ! (linenum + 1) in
            error_if (next_line \<noteq> [] \<and> matches (raw ''`s*}'') next_line \<and>
                      py_find next_line ''} else '' = None)
              filename linenum ''whitespace/blank_line'' 3
              ''Redundant blank line at the end of a code block should be deleted.'')
         else id),
        (case Match (raw ''`s*(public|protected|private):'') prev_line of
           None \<Rightarrow> id
         | Some matched \<Rightarrow>
             Error filename (int linenum) ''whitespace/blank_line'' 3
               (''Do not leave a blank line after '' @ [dquote] @ grp matched 1 @ '':'' @ [dquote]))])"

definition CheckSpacing :: "string \<Rightarrow> CleansedLines \<Rightarrow> nat \<Rightarrow> NestingState \<Rightarrow> lint \<Rightarrow> lint" where
  "CheckSpacing filename clean_lines linenum nesting_state =
     (let raw_ls = lines_without_raw_strings clean_lines;
          raw_line = raw_ls ! linenum;
          next_line_start =
            (if linenum + 1 < NumLines clean_lines
             then length (raw_ls ! (linenum + 1)) - length (py_lstrip (raw_ls ! (linenum + 1)))
             else 0);
          line = elided clean_lines ! linenum
      in run
          [(if IsBlankLine raw_line \<and> \<not> InNamespaceBody nesting_state \<and> \<not> InExternC nesting_state
            then check_blank_line filename clean_lines linenum raw_ls else id),
           CheckComment raw_line filename linenum next_line_start,
           error_if (found (raw ''`w`s+`['') line \<and> \<not> found (raw ''(?:delete|return)`s+`['') line)
             filename linenum ''whitespace/braces'' 5 ''Extra space before ['',
           error_if (found (raw ''for *`(.*[^:]:[^: ]'') line \<or> found (raw ''for *`(.*[^: ]:[^:]'') line)
             filename linenum ''whitespace/forcolon'' 2
             ''Missing space around colon in range-based for loop''])"

section \<open>Operators\<close>

definition operator_name_pattern :: string where
  "operator_name_pattern = raw ''^(.*`boperator`b)(`S+)(`s*`(.*)$''"

definition operator_name_re :: re where
  "operator_name_re =
     RCat RBol (RCat
       (RGroup 1 (RCat (RRep 0 None True RAny) (RCat (RWordB True)
          (RCat (RChar CHR ''o'') (RCat (RChar CHR ''p'') (RCat (RChar CHR ''e'') (RCat (RChar CHR ''r'')
          (RCat (RChar CHR ''a'') (RCat (RChar CHR ''t'') (RCat (RChar CHR ''o'')
          (RCat (RChar CHR ''r'') (RWordB True))))))))))))
       (RCat (RGroup 2 (RRep 1 None True (RSet False [CSpace False])))
       (RCat (RGroup 3 (RCat (RRep 0 None True (RSet False [CSpace True]))
          (RCat (RChar CHR ''('') (RRep 0 None True RAny)))) REol)))"

lemma operator_name_compile: "re_compile operator_name_pattern = Some operator_name_re"
  by code_simp

lemma re_run_last:
  "t \<in> set (re_run (RCat r1 r2) st) \<Longrightarrow> \<exists>st'. t \<in> set (re_run r2 st')"
  by auto

text \<open>A match of this pattern cuts the line in three; the name of the operator, the second part,
  does not start with a character of a word.\<close>

lemma operator_name_parts:
  assumes "Match operator_name_pattern line = Some m"
  shows "\<exists>c w rest. line = grp m 1 @ (c # w) @ grp m 3 @ rest \<and> grp m 2 = c # w \<and> \<not> re_word c \<and>
     (rest = [] \<or> rest = [newline])"
proof -
  obtain r1 r2 where r: "operator_name_re = RCat RBol (RCat (RGroup 1 r1) r2)"
    and r1: "r1 = RCat (RRep 0 None True RAny) (RCat (RWordB True) (RCat (RChar CHR ''o'')
      (RCat (RChar CHR ''p'') (RCat (RChar CHR ''e'') (RCat (RChar CHR ''r'') (RCat (RChar CHR ''a'')
      (RCat (RChar CHR ''t'') (RCat (RChar CHR ''o'') (RCat (RChar CHR ''r'') (RWordB True))))))))))"
    and r2: "r2 = RCat (RGroup 2 (RRep 1 None True (RSet False [CSpace False])))
       (RCat (RGroup 3 (RCat (RRep 0 None True (RSet False [CSpace True]))
          (RCat (RChar CHR ''('') (RRep 0 None True RAny)))) REol)"
    by (auto simp: operator_name_re_def)
  from assms have "match_at operator_name_re [] line = Some m"
    by (simp add: re_match_def operator_name_compile)
  then obtain q where "(q, m_rest m, m_caps m) \<in> set (re_run operator_name_re ([], line, []))"
    by (auto elim: match_at_run)
  then have "(q, m_rest m, m_caps m) \<in> set (re_run (RCat (RGroup 1 r1) r2) ([], line, []))"
    by (simp add: r)
  then obtain p1 s1 g1 w1 where 1: "(p1, s1, g1) \<in> set (re_run (RGroup 1 r1) ([], line, []))"
    and 2: "(q, m_rest m, m_caps m) \<in> set (re_run r2 (p1, s1, g1))" and l: "line = w1 @ s1"
    by (elim re_run_catD) blast
  from 1 obtain g0 where g1: "g1 = (1, 0, w1) # g0" and 3: "(p1, s1, g0) \<in> set (re_run r1 ([], line, []))"
    by (rule re_run_groupD) (simp add: l)
  have "\<exists>st. (p1, s1, g0) \<in> set (re_run (RCat (RChar CHR ''r'') (RWordB True)) st)"
    using 3 unfolding r1 by (blast dest: re_run_last)
  then have b: "at_word_boundary p1 s1" "\<exists>p. p1 = CHR ''r'' # p"
    by (auto dest!: eatD split: if_splits)
  from re_run_shape [OF 2] obtain w2 w3 where s1: "s1 = w2 @ w3 @ m_rest m" "Suc 0 \<le> length w2"
    and caps: "grp m 3 = w3" "grp m 2 = w2" "grp m 1 = w1"
    unfolding r2 by (auto simp: g1 grp_def m_group_def)
  then obtain c w where w2: "w2 = c # w" by (cases w2) auto
  with b s1 have "\<not> re_word c" by (auto simp: at_word_boundary_def re_word_def is_lower_def)
  moreover have "\<exists>st. (q, m_rest m, m_caps m) \<in> set (re_run REol st)"
    using 2 unfolding r2 by (blast dest: re_run_last)
  then have "m_rest m = [] \<or> m_rest m = [newline]" by (auto split: if_splits)
  ultimately show ?thesis using l s1 w2 caps by auto
qed

text \<open>The loop that hides the names of operators from the checks. Each round leaves fewer
  characters that are not underscores.\<close>

function hide_operators :: "string \<Rightarrow> string" where
  "hide_operators line =
     (case Match operator_name_pattern line of
        None \<Rightarrow> line
      | Some m \<Rightarrow> hide_operators (grp m 1 @ replicate (length (grp m 2)) CHR ''_'' @ grp m 3))"
  by pat_completeness auto
termination
proof (relation "measure (\<lambda>line. length (filter (\<lambda>c. c \<noteq> CHR ''_'') line))", goal_cases)
  case (2 line m)
  from operator_name_parts [OF this] obtain c w rest where
    l: "line = grp m 1 @ (c # w) @ grp m 3 @ rest" and 2: "grp m 2 = c # w" and c: "\<not> re_word c"
    by blast
  have "c \<noteq> CHR ''_''" using c by (auto simp: re_word_def)
  then show ?case unfolding 2 in_measure by (subst l) simp
qed simp

declare hide_operators.simps [simp del]

definition left_angle_pattern :: string where
  "left_angle_pattern = raw ''^(.*[^`s<])<[^`s=<,]''"

definition right_angle_pattern :: string where
  "right_angle_pattern = raw ''^(.*[^-`s>])>[^`s=>,]''"

definition check_angle_spacing :: "string \<Rightarrow> CleansedLines \<Rightarrow> nat \<Rightarrow> string \<Rightarrow> lint \<Rightarrow> lint option" where
  "check_angle_spacing filename clean_lines linenum line =
     run_opt
      [(case Match left_angle_pattern line of
          None \<Rightarrow> ok id
        | Some m \<Rightarrow>
            (case CloseExpression clean_lines linenum (length (grp m 1)) of
               None \<Rightarrow> (\<lambda>g. None)
             | Some (_, _, end_pos) \<Rightarrow>
                 ok (error_if (end_pos \<le> -1) filename linenum ''whitespace/operators'' 3
                       ''Missing spaces around <''))),
       (case Match right_angle_pattern line of
          None \<Rightarrow> ok id
        | Some m \<Rightarrow>
            (case ReverseCloseExpression clean_lines linenum (length (grp m 1)) of
               None \<Rightarrow> (\<lambda>g. None)
             | Some (_, _, start_pos) \<Rightarrow>
                 ok (error_if (start_pos \<le> -1) filename linenum ''whitespace/operators'' 3
                       ''Missing spaces around >'')))]"

definition py_isdigit :: "string \<Rightarrow> bool" where
  "py_isdigit s \<longleftrightarrow> s \<noteq> [] \<and> list_all is_digit s"

definition CheckOperatorSpacing :: "string \<Rightarrow> CleansedLines \<Rightarrow> nat \<Rightarrow> lint \<Rightarrow> lint option" where
  "CheckOperatorSpacing filename clean_lines linenum =
     (let line = hide_operators (elided clean_lines ! linenum) in
      run_opt
       [ok (error_if ((found (raw ''[`w.]='') line \<or> found (raw ''=[`w.]'') line) \<and>
                      \<not> found (raw ''`b(if|while|for) '') line \<and>
                      \<not> found (raw ''(>=|<=|==|!=|&=|`^=|`|=|`+=|`*=|`/=|`%=)'') line \<and>
                      \<not> found ''operator='' line)
              filename linenum ''whitespace/operators'' 4 ''Missing spaces around =''),
        (case Search (raw ''[^<>=!`s](==|!=|<=|>=|`|`|)[^<>=!`s,;`)]'') line of
           Some m \<Rightarrow>
             ok (Error filename (int linenum) ''whitespace/operators'' 3
                   (''Missing spaces around '' @ grp m 1))
         | None \<Rightarrow>
             if \<not> matches ''#.*include'' line
             then check_angle_spacing filename clean_lines linenum line else ok id),
        ok (case Search (raw ''(operator|[^`s(<])(?:L|UL|ULL|l|ul|ull)?<<([^`s,=<])'') line of
              None \<Rightarrow> id
            | Some m \<Rightarrow>
                error_if (\<not> (py_isdigit (grp m 1) \<and> py_isdigit (grp m 2)) \<and>
                          \<not> (grp m 1 = ''operator'' \<and> grp m 2 = '';''))
                  filename linenum ''whitespace/operators'' 3 ''Missing spaces around <<''),
        ok (error_if (found ''>>[a-zA-Z_]'' line) filename linenum ''whitespace/operators'' 3
              ''Missing spaces around >>''),
        ok (case Search (raw ''(!`s|~`s|[`s]--[`s;]|[`s]`+`+[`s;])'') line of
              None \<Rightarrow> id
            | Some m \<Rightarrow>
                Error filename (int linenum) ''whitespace/operators'' 4
                  (''Extra space for operator '' @ grp m 1))])"

section \<open>Parentheses, commas and braces\<close>

definition CheckParenthesisSpacing :: "string \<Rightarrow> CleansedLines \<Rightarrow> nat \<Rightarrow> lint \<Rightarrow> lint" where
  "CheckParenthesisSpacing filename clean_lines linenum =
     (let line = elided clean_lines ! linenum;
          report = Error filename (int linenum) ''whitespace/parens'' 5
      in run
          [(case Search (raw '' (if`(|for`(|while`(|switch`()'') line of
              None \<Rightarrow> id
            | Some m \<Rightarrow> report (''Missing space before ( in '' @ grp m 1)),
           (case Search (raw ''`b(if|for|while|switch)`s*'' @
                         raw ''`(([ ]*)(.).*[^ ]+([ ]*)`)`s*{`s*$'') line of
              None \<Rightarrow> id
            | Some m \<Rightarrow>
                run
                 [if length (grp m 2) \<noteq> length (grp m 4) \<and>
                     \<not> (grp m 3 = '';'' \<and> length (grp m 2) = 1 + length (grp m 4) \<or>
                        grp m 2 = [] \<and> found (raw ''`bfor`s*`(.*; `)'') line)
                  then report (''Mismatching spaces inside () in '' @ grp m 1) else id,
                  if length (grp m 2) \<notin> {0, 1}
                  then report (''Should have zero or one spaces inside ( and ) in '' @ grp m 1)
                  else id])])"

definition CheckCommaSpacing :: "string \<Rightarrow> CleansedLines \<Rightarrow> nat \<Rightarrow> lint \<Rightarrow> lint" where
  "CheckCommaSpacing filename clean_lines linenum =
     (let line = elided clean_lines ! linenum in
      run
       [error_if (found (raw '',[^,`s]'') (re_sub (raw ''`boperator`s*,`s*`('') (\<lambda>m. ''F('') line) \<and>
                  found (raw '',[^,`s]'') (lines_without_raw_strings clean_lines ! linenum))
          filename linenum ''whitespace/comma'' 3 ''Missing space after ,'',
        error_if (found (raw '';[^`s};``)/]'') line)
          filename linenum ''whitespace/semicolon'' 3 ''Missing space after ;''])"

definition open_brace_pattern :: string where
  "open_brace_pattern = ''^(.*[^ ({>]){''"

definition check_brace_initialization ::
    "string \<Rightarrow> CleansedLines \<Rightarrow> nat \<Rightarrow> string \<Rightarrow> lint \<Rightarrow> lint option" where
  "check_brace_initialization filename clean_lines linenum line =
     (case Match open_brace_pattern line of
        None \<Rightarrow> ok id
      | Some m \<Rightarrow>
          (case CloseExpression clean_lines linenum (length (grp m 1)) of
             None \<Rightarrow> (\<lambda>g. None)
           | Some (endline, endlinenum, endpos) \<Rightarrow>
               (let trailing_text =
                      (if endpos > -1 then drop (nat endpos) endline else []) @
                      concat (map (\<lambda>i. elided clean_lines ! i)
                        [endlinenum + 1..<min (endlinenum + 3) (NumLines clean_lines - 1)])
                in ok (error_if (\<not> matches (raw ''^[`s}]*[{.;,)<>`]:]'') trailing_text)
                         filename linenum ''whitespace/braces'' 5 ''Missing space before {''))))"

definition CheckBracesSpacing :: "string \<Rightarrow> CleansedLines \<Rightarrow> nat \<Rightarrow> lint \<Rightarrow> lint option" where
  "CheckBracesSpacing filename clean_lines linenum =
     (let line = elided clean_lines ! linenum;
          report = Error filename (int linenum) ''whitespace/semicolon'' 5
      in run_opt
          [check_brace_initialization filename clean_lines linenum line,
           ok (error_if (found ''}else'' line) filename linenum ''whitespace/braces'' 5
                 ''Missing space before else''),
           ok (if found (raw '':`s*;`s*$'') line
               then report ''Semicolon defining empty statement. Use {} instead.''
               else if found (raw ''^`s*;`s*$'') line
               then report (''Line contains only semicolon. If this should be an empty statement, '' @
                            ''use {} instead.'')
               else if found (raw ''`s+;`s*$'') line \<and> \<not> found (raw ''`bfor`b'') line
               then report (''Extra space before last semicolon. If this should be an empty '' @
                            ''statement, use {} instead.'')
               else id)])"

section \<open>The contract\<close>

interpretation nonstandard: lint_check "check_nonstandard filename linenum commented line"
  by (simp add: check_nonstandard_def checks)

interpretation explicit: lint_check "check_explicit filename linenum base marked args"
  by (auto simp: check_explicit_def Let_def checks)

interpretation nonstandard_constructs: partial_check "CheckForNonStandardConstructs filename cl linenum ns"
proof -
  have "partial_check (check_constructor filename linenum line name)" for line name
    by (auto simp: check_constructor_def Let_def checks explicit.lint_check_axioms split: option.split)
  then show "partial_check (CheckForNonStandardConstructs filename cl linenum ns)"
    by (auto simp: CheckForNonStandardConstructs_def checks nonstandard.lint_check_axioms
        split: option.split block_kind.split)
qed

interpretation function_call: lint_check "CheckSpacingForFunctionCall filename cl linenum"
  by (auto simp: CheckSpacingForFunctionCall_def Let_def checks)

interpretation comment: lint_check "CheckComment line filename linenum start"
  by (auto simp: CheckComment_def check_todo_def Let_def checks split: option.split)

interpretation access: lint_check "CheckAccess filename cl linenum ns"
  by (auto simp: CheckAccess_def checks split: option.split list.split block_kind.split)

interpretation blank_line: lint_check "check_blank_line filename cl linenum ls"
  by (auto simp: check_blank_line_def Let_def checks split: option.split)

interpretation spacing: lint_check "CheckSpacing filename cl linenum ns"
  by (auto simp: CheckSpacing_def Let_def checks comment.lint_check_axioms blank_line.lint_check_axioms)

interpretation angle_spacing: partial_check "check_angle_spacing filename cl linenum line"
  by (auto simp: check_angle_spacing_def checks split: option.split)

interpretation operator_spacing: partial_check "CheckOperatorSpacing filename cl linenum"
  by (auto simp: CheckOperatorSpacing_def Let_def checks angle_spacing.partial_check_axioms
      split: option.split)

interpretation parenthesis_spacing: lint_check "CheckParenthesisSpacing filename cl linenum"
  by (auto simp: CheckParenthesisSpacing_def Let_def checks split: option.split)

interpretation comma_spacing: lint_check "CheckCommaSpacing filename cl linenum"
  by (simp add: CheckCommaSpacing_def Let_def checks)

interpretation braces_spacing: partial_check "CheckBracesSpacing filename cl linenum"
  by (auto simp: CheckBracesSpacing_def check_brace_initialization_def Let_def checks split: option.split)

section \<open>The checks of spacing do not fail\<close>

text \<open>Hiding the names of operators keeps every column.\<close>

lemma hide_operators_columns:
  "newline \<notin> set line \<Longrightarrow> length (hide_operators line) = length line \<and> newline \<notin> set (hide_operators line) \<and>
     (\<forall>i < length line. hide_operators line ! i \<noteq> CHR ''_'' \<longrightarrow> hide_operators line ! i = line ! i)"
proof (induction line rule: hide_operators.induct)
  case (1 line)
  show ?case
  proof (cases "Match operator_name_pattern line")
    case None
    with 1 show ?thesis by (simp add: hide_operators.simps)
  next
    case (Some m)
    define new where "new = grp m 1 @ replicate (length (grp m 2)) CHR ''_'' @ grp m 3"
    from operator_name_parts [OF Some] 1(2) obtain c w where
      l: "line = grp m 1 @ grp m 2 @ grp m 3" and 2: "grp m 2 = c # w"
      by (metis append.right_neutral in_set_conv_decomp append.assoc)
    have len: "length new = length line" by (simp add: new_def l)
    have kept: "new ! i = line ! i \<or> new ! i = CHR ''_''" if "i < length line" for i
      using that by (auto simp: new_def l nth_append)
    have "newline \<notin> set new" using 1(2) by (auto simp: new_def l)
    with 1(1) [OF Some] have IH: "length (hide_operators new) = length new"
        "newline \<notin> set (hide_operators new)"
        "\<forall>i < length new. hide_operators new ! i \<noteq> CHR ''_'' \<longrightarrow> hide_operators new ! i = new ! i"
      unfolding new_def by blast+
    have "hide_operators line = hide_operators new"
      unfolding new_def using Some by (subst hide_operators.simps) simp
    with IH len kept show ?thesis by (metis (no_types))
  qed
qed

lemma angle_before:
  "Match left_angle_pattern line = Some m \<Longrightarrow> length (grp m 1) < length line"
  "Match right_angle_pattern line = Some m \<Longrightarrow> length (grp m 1) < length line"
  "Match open_brace_pattern line = Some m \<Longrightarrow> length (grp m 1) < length line"
  by (erule head_group_shorter; code_simp)+

lemma CloseExpression_some:
  "CloseExpression cl linenum pos = None \<longleftrightarrow>
     \<not> (linenum < length (elided cl) \<and> pos < length (elided cl ! linenum))"
  "ReverseCloseExpression cl linenum pos = None \<longleftrightarrow>
     \<not> (linenum < length (elided cl) \<and> pos < length (elided cl ! linenum))"
  unfolding CloseExpression_def ReverseCloseExpression_def Let_def
  by (simp_all only: if_split_eq1 option.distinct) blast+

lemma run_opt_total: "(\<And>f g. f \<in> set fs \<Longrightarrow> f g \<noteq> None) \<Longrightarrow> run_opt fs g \<noteq> None"
  by (induction fs arbitrary: g) (auto split: option.split)

lemma CheckOperatorSpacing_total:
  assumes "cleansed_ok cl" and "linenum < NumLines cl" and "newline \<notin> set (elided cl ! linenum)"
  shows "\<exists>g'. CheckOperatorSpacing filename cl linenum g = Some g' \<and> reports g g'"
proof -
  define line where "line = hide_operators (elided cl ! linenum)"
  have n: "linenum < length (elided cl)" using assms by (simp add: cleansed_ok_def NumLines_def)
  have len: "length (elided cl ! linenum) = length line"
    using hide_operators_columns [OF assms(3)] by (simp add: line_def)
  have "check_angle_spacing filename cl linenum line h \<noteq> None" for h
    unfolding check_angle_spacing_def
    by (rule run_opt_total)
      (auto simp: ok_def CloseExpression_some n len split: option.splits dest: angle_before)
  then have "CheckOperatorSpacing filename cl linenum g \<noteq> None"
    unfolding CheckOperatorSpacing_def Let_def line_def [symmetric]
    by (intro run_opt_total) (auto simp: ok_def split: option.split)
  then show ?thesis using operator_spacing.partial_reports by auto
qed

lemma CheckBracesSpacing_total:
  assumes "cleansed_ok cl" and "linenum < NumLines cl"
  shows "\<exists>g'. CheckBracesSpacing filename cl linenum g = Some g' \<and> reports g g'"
proof -
  have n: "linenum < length (elided cl)" using assms by (simp add: cleansed_ok_def NumLines_def)
  have "check_brace_initialization filename cl linenum (elided cl ! linenum) h \<noteq> None" for h
    unfolding check_brace_initialization_def Let_def
    by (auto simp: ok_def CloseExpression_some n split: option.splits dest: angle_before)
  then have "CheckBracesSpacing filename cl linenum g \<noteq> None"
    unfolding CheckBracesSpacing_def Let_def by (intro run_opt_total) (auto simp: ok_def)
  then show ?thesis using braces_spacing.partial_reports by auto
qed

section \<open>The arguments of a constructor\<close>

lemma py_join_if: "py_join sep (x # xs) = (if xs = [] then x else x @ sep @ py_join sep xs)"
  by (cases xs) simp_all

lemma collapse_arg_join:
  "collapse_arg arg args = Some (arg', args') \<Longrightarrow>
     \<not> open_argument arg' \<and> py_join '','' (arg' # args') = py_join '','' (arg # args)"
  by (induction arg args rule: collapse_arg.induct) (auto simp: py_join_if split: if_splits)

text \<open>Collapsing only moves the borders of the arguments, and leaves no bracket open in one.\<close>

lemma collapse_args_join:
  "collapse_args args = Some args' \<Longrightarrow>
     py_join '','' args' = py_join '','' args \<and> (\<forall>arg \<in> set args'. \<not> open_argument arg)"
proof (induction args arbitrary: args' rule: collapse_args.induct)
  case (2 arg args)
  then obtain a as bs where c: "collapse_arg arg args = Some (a, as)" and b: "collapse_args as = Some bs"
    and args': "args' = a # bs" by (auto split: option.splits)
  from 2(1) [OF c refl b] have "py_join '','' bs = py_join '','' as" "\<forall>arg \<in> set bs. \<not> open_argument arg"
    by auto
  moreover have "bs = [] \<longleftrightarrow> as = []" using b by (cases as) (auto split: option.splits)
  ultimately show ?case using collapse_arg_join [OF c] args' by (simp add: py_join_if split: if_splits)
qed simp

text \<open>A default argument with a comparison leaves a bracket open to the end of the list, and the
  linter ends with an \<open>IndexError\<close>.\<close>

lemma constructor_index_error:
  "check_constructor ''a.h'' 3 ''  Foo(int a = b < c, int d);'' ''Foo'' g = None"
proof -
  have "(case Match (constructor_pattern (last (split_on ''::'' ''Foo''))) ''  Foo(int a = b < c, int d);'' of
      None \<Rightarrow> Some [] | Some m \<Rightarrow> 
        collapse_args (if grp m 2 = [] then [] else py_split CHR '','' (grp m 2))) = None"
    by code_simp
  then show ?thesis by (auto simp: check_constructor_def Let_def split: option.splits if_splits)
qed

lemmas [checks] =
  nonstandard_constructs.partial_check_axioms function_call.lint_check_axioms
  access.lint_check_axioms spacing.lint_check_axioms operator_spacing.partial_check_axioms
  parenthesis_spacing.lint_check_axioms comma_spacing.lint_check_axioms
  braces_spacing.partial_check_axioms

end
