(* ===== verification/Lint_RValue.thy ===== *)
theory Lint_RValue
  imports Lint_Spacing
begin

text \<open>
  Rvalue references in \<^verbatim>\<open>build-support/cpplint.py\<close>: from \<open>IsDecltype\<close> to \<open>CheckRValueReference\<close>.
  \<open>None\<close> is an exception of Python: the \<open>IndexError\<close> of a bracket outside the line, and for
  \<open>IsRValueType\<close> also the end of a recursion without end, which Python stops with a
  \<open>RuntimeError\<close> at the limit of its stack.
\<close>

section \<open>Types to the left of an operator\<close>

definition IsDecltype :: "CleansedLines \<Rightarrow> nat \<Rightarrow> nat \<Rightarrow> bool option" where
  "IsDecltype clean_lines linenum column =
     map_option (\<lambda>(text, _, start_col).
         start_col \<ge> 0 \<and> found (raw ''`bdecltype`s*$'') (take (nat start_col) text))
       (ReverseCloseExpression clean_lines linenum column)"

definition IsTemplateParameterList :: "CleansedLines \<Rightarrow> nat \<Rightarrow> nat \<Rightarrow> bool option" where
  "IsTemplateParameterList clean_lines linenum column =
     map_option (\<lambda>(_, startline, startpos).
         startpos > -1 \<and>
         found (raw ''`btemplate`s*$'') (take (nat startpos) (elided clean_lines ! startline)))
       (ReverseCloseExpression clean_lines linenum column)"

definition symbol_pattern :: string where
  "symbol_pattern = raw ''^(.*)([^`w`s,])[`w`s,]*$''"

text \<open>The loop that skips identifiers and commas to the left, and the lines above; the line where
  it ends and the match of the symbol.\<close>

fun find_symbol :: "CleansedLines \<Rightarrow> nat \<Rightarrow> string \<Rightarrow> (nat \<times> mat) option" where
  "find_symbol cl 0 line = map_option (Pair 0) (Match symbol_pattern line)"
| "find_symbol cl (Suc start) line =
     (case Match symbol_pattern line of
        Some m \<Rightarrow> Some (Suc start, m)
      | None \<Rightarrow> find_symbol cl start (elided cl ! start))"

text \<open>The loop for an opening brace: the answer, or the depth after the line.\<close>

fun brace_depth :: "int \<Rightarrow> string \<Rightarrow> bool + int" where
  "brace_depth depth [] = Inr depth"
| "brace_depth depth (ch # s) =
     (if ch = CHR '';'' then Inl True
      else if ch = CHR ''{'' then brace_depth (depth + 1) s
      else if ch = CHR ''}'' then
        (if depth - 1 = 0 then Inl False else brace_depth (depth - 1) s)
      else brace_depth depth s)"

fun brace_lines :: "int \<Rightarrow> string list \<Rightarrow> bool" where
  "brace_lines depth [] = False"
| "brace_lines depth (line # ls) =
     (case brace_depth depth line of Inl b \<Rightarrow> b | Inr depth \<Rightarrow> brace_lines depth ls)"

text \<open>One call of \<open>IsRValueType\<close>, up to the recursive call, for which it yields the column.\<close>

definition builtin_types :: "string list" where
  "builtin_types =
     [''char'', ''char16_t'', ''char32_t'', ''wchar_t'', ''bool'', ''short'', ''int'', ''long'',
      ''signed'', ''unsigned'', ''float'', ''double'', ''void'', ''auto'', ''>'', ''*'', ''&'']"

definition function_pattern :: string where
  "function_pattern = raw ''^(.*`S.*)`s+`w(?:`w|::)*(?:<[^<>]*>)?`s*$''"

definition rvalue_paren ::
    "NestingState \<Rightarrow> string \<Rightarrow> string \<Rightarrow> nat + bool" where
  "rvalue_paren nesting_state pre before_text =
     (if found (raw ''(?:`]|`bfor|`bsizeof|`boperator`s*`S+`s*)`s*$'') before_text then Inr True
      else if found (raw ''(?:`bif|`bwhile|[-+=%^(<!?:,&*]`s*)$'') before_text then Inr False
      else
        (case Match function_pattern before_text of
           Some match_func \<Rightarrow>
             if found (raw ''`b(?:explicit|inline)$'') (grp match_func 1) then Inr True
             else
               (case Match (raw ''`s*(`w+)`((?:const`s+)?(`w+)'') pre of
                  Some implicit_constructor \<Rightarrow>
                    if grp implicit_constructor 1 = grp implicit_constructor 2 then Inr True
                    else Inl (length (grp match_func 1))
                | None \<Rightarrow> Inl (length (grp match_func 1)))
         | None \<Rightarrow>
             Inr (\<not> (case previous_stack_top nesting_state of None \<Rightarrow> False | Some b \<Rightarrow> IsBlockInfo b))))"

definition rvalue_symbol ::
    "CleansedLines \<Rightarrow> NestingState \<Rightarrow> string \<Rightarrow> nat \<Rightarrow> mat \<Rightarrow> (nat + bool) option" where
  "rvalue_symbol clean_lines nesting_state pre start match_symbol =
     (let before_text = grp match_symbol 1; symbol = grp match_symbol 2 in
      if symbol = ''}'' then Some (Inr True)
      else if symbol = '';'' then
        Some (Inr (\<not> found (raw ''for`s*`([^{};]*$'')
          (concat (map (\<lambda>i. elided clean_lines ! i) [start - 6 + 1..<start]) @ before_text)))
      else if symbol = ''{'' then
        Some (Inr (brace_lines 1
          (take (length before_text + 1) (elided clean_lines ! start) #
           map (\<lambda>i. elided clean_lines ! i) [start + 1..<NumLines clean_lines])))
      else if symbol = ''('' then Some (rvalue_paren nesting_state pre before_text)
      else if symbol = ''>'' then
        map_option Inr (IsTemplateParameterList clean_lines start (length before_text))
      else Some (Inr False))"

definition type_pattern :: string where
  "type_pattern = raw ''^(.*)(`b`w+|[>*)&])`s*$''"

definition rvalue_step ::
    "string list \<Rightarrow> CleansedLines \<Rightarrow> NestingState \<Rightarrow> nat \<Rightarrow> nat \<Rightarrow> (nat + bool) option" where
  "rvalue_step typenames clean_lines nesting_state linenum column =
     (let pre = take column (elided clean_lines ! linenum);
          post = drop column (elided clean_lines ! linenum)
      in case Match type_pattern pre of
           None \<Rightarrow> Some (Inr False)
         | Some m \<Rightarrow>
             if matches (raw ''&&`s*(?:[>,]|`.`.`.)'') post then Some (Inr True)
             else if grp m 2 \<in> set typenames \<or> grp m 2 \<in> set builtin_types then Some (Inr True)
             else if grp m 2 = '')'' then
               map_option Inr
                 (IsDecltype clean_lines linenum (length (grp m 1) + length (grp m 2) - 1))
             else if found (raw ''`b(?:const_cast`s*<|static_cast`s*<|dynamic_cast`s*<|'' @
                            raw ''reinterpret_cast`s*<|`w+`s)`s*$'') (grp m 1) then Some (Inr True)
             else
               (case find_symbol clean_lines linenum (grp m 1) of
                  None \<Rightarrow> Some (Inr True)
                | Some (start, match_symbol) \<Rightarrow>
                    rvalue_symbol clean_lines nesting_state pre start match_symbol))"

partial_function (option) IsRValueType ::
    "string list \<Rightarrow> CleansedLines \<Rightarrow> NestingState \<Rightarrow> nat \<Rightarrow> nat \<Rightarrow> bool option" where
  "IsRValueType typenames clean_lines nesting_state linenum column =
     (case rvalue_step typenames clean_lines nesting_state linenum column of
        None \<Rightarrow> None
      | Some (Inr b) \<Rightarrow> Some b
      | Some (Inl column') \<Rightarrow> IsRValueType typenames clean_lines nesting_state linenum column')"

section \<open>Where rvalue references are allowed\<close>

definition IsDeletedOrDefault :: "CleansedLines \<Rightarrow> nat \<Rightarrow> bool option" where
  "IsDeletedOrDefault clean_lines linenum =
     (case py_find (elided clean_lines ! linenum) ''('' of
        None \<Rightarrow> Some False
      | Some open_paren \<Rightarrow>
          map_option (\<lambda>(close_line, _, close_paren).
              close_paren \<ge> 0 \<and>
              matches (raw ''`s*=`s*(?:delete|default)`b'') (drop (nat close_paren) close_line))
            (CloseExpression clean_lines linenum open_paren))"

text \<open>The loop over the lines above for the macros that mark a region.\<close>

definition region_macro :: "string \<Rightarrow> bool" where
  "region_macro line \<longleftrightarrow> matches ''GOOGLE_ALLOW_RVALUE_REFERENCES_(?:PUSH|POP)'' line"

fun rvalue_region :: "CleansedLines \<Rightarrow> nat \<Rightarrow> nat list \<Rightarrow> bool option" where
  "rvalue_region cl linenum [] = None"
| "rvalue_region cl linenum (i # is) =
     (if region_macro (elided cl ! i) then
        if \<not> endswith (elided cl ! i) ''PUSH'' then Some False
        else (case find (\<lambda>j. region_macro (elided cl ! j)) [linenum..<NumLines cl] of
                Some j \<Rightarrow> Some (endswith (elided cl ! j) ''POP'')
              | None \<Rightarrow> rvalue_region cl linenum is)
      else rvalue_region cl linenum is)"

definition and_pattern :: string where
  "and_pattern = raw ''^.*?(`w+)`s*&&(.*)$''"

lemma and_shorter: "Match and_pattern line = Some m \<Longrightarrow> length (grp m 2) < length line"
  by (erule tail_group_shorter) (code_simp, simp)

function rvalue_types_allowed :: "string list \<Rightarrow> string \<Rightarrow> bool" where
  "rvalue_types_allowed typenames line =
     (if line = [] then py_find line ''&&'' = None
      else
        (case Match and_pattern line of
           None \<Rightarrow> py_find line ''&&'' = None
         | Some m \<Rightarrow> grp m 1 \<in> set typenames \<and> rvalue_types_allowed typenames (grp m 2)))"
  by pat_completeness auto
termination
  by (relation "measure (\<lambda>(typenames, line). length line)") (auto dest: and_shorter)

declare rvalue_types_allowed.simps [simp del]

definition constructor_or_assignment :: "CleansedLines \<Rightarrow> nat \<Rightarrow> string \<Rightarrow> bool" where
  "constructor_or_assignment clean_lines linenum line \<longleftrightarrow>
     found (raw ''`boperator`s*=`s*`('') line \<or>
     (case Match (raw ''`s*(?:[`w<>]+::)*([`w<>]+)`s*::`s*([`w<>]+)`s*`('') line of
        None \<Rightarrow> False | Some m \<Rightarrow> grp m 1 = grp m 2) \<or>
     found (raw ''`b(?:explicit|inline)`s+[`w<>]+`s*`('') line \<or>
     matches (raw ''`s*[`w<>]+`s*`('') line \<and>
     (let previous_line = (if linenum > 0 then elided clean_lines ! (linenum - 1) else ''ReturnType'')
      in matches (raw ''^`s*$'') previous_line \<or> found (raw ''[{}:;]`s*$'') previous_line)"

definition IsRValueAllowed :: "CleansedLines \<Rightarrow> nat \<Rightarrow> string list \<Rightarrow> bool option" where
  "IsRValueAllowed clean_lines linenum typenames =
     (case rvalue_region clean_lines linenum (rev [1..<linenum + 1]) of
        Some b \<Rightarrow> Some b
      | None \<Rightarrow>
          (let line = elided clean_lines ! linenum in
           if constructor_or_assignment clean_lines linenum line
           then IsDeletedOrDefault clean_lines linenum
           else Some (rvalue_types_allowed typenames line)))"

section \<open>Template arguments\<close>

text \<open>The loop to the start of the function; \<open>None\<close> when the code returns the empty set.\<close>

fun func_start :: "CleansedLines \<Rightarrow> nat \<Rightarrow> nat option" where
  "func_start cl 0 = None"
| "func_start cl (Suc n) =
     (if matches (raw ''^`s*$'') (elided cl ! Suc n) then None
      else if CHR ''('' \<in> set (elided cl ! Suc n) then Some (Suc n)
      else func_start cl n)"

definition template_argument_list :: "CleansedLines \<Rightarrow> nat \<Rightarrow> string option" where
  "template_argument_list cl func_line =
     (let line = elided cl ! func_line in
      case Match (raw ''^(`s*template`s*)<'') line of
        Some m \<Rightarrow>
          (let start_col = length (grp m 1) in
           map_option (\<lambda>(_, end_line, end_col).
               if end_col > -1 \<and> end_line = func_line
               then drop (start_col + 1) (take (nat end_col) line) else [])
             (CloseExpression cl func_line start_col))
      | None \<Rightarrow>
          if func_line > 1 then
            (case Match (raw ''^(.*)>`s*$'') (elided cl ! (func_line - 1)) of
               None \<Rightarrow> Some []
             | Some m \<Rightarrow>
                 (let end_col = length (grp m 1);
                      last_line = elided cl ! (func_line - 1)
                  in map_option (\<lambda>(_, start_line, start_col).
                         if start_col > -1 then
                           if start_line < func_line - 1 then
                             drop (nat start_col + 1) (elided cl ! start_line) @
                             concat (map (\<lambda>i. elided cl ! i) [start_line + 1..<func_line - 1]) @
                             take end_col last_line
                           else drop (nat start_col + 1) (take end_col last_line)
                         else [])
                       (ReverseCloseExpression cl (func_line - 1) end_col)))
          else Some [])"

definition typename_pattern :: string where
  "typename_pattern = raw ''^[,`s]*(?:typename|class)(?:`.`.`.)?`s+(`w+)(.*)$''"

lemma typename_shorter: "Match typename_pattern line = Some m \<Longrightarrow> length (grp m 2) < length line"
  by (erule tail_group_shorter) (code_simp, simp)

function typenames_of :: "string \<Rightarrow> string list" where
  "typenames_of argument_list =
     (case Match typename_pattern argument_list of
        None \<Rightarrow> []
      | Some m \<Rightarrow> grp m 1 # typenames_of (grp m 2))"
  by pat_completeness auto
termination
  by (relation "measure length") (auto dest: typename_shorter)

declare typenames_of.simps [simp del]

definition GetTemplateArgs :: "CleansedLines \<Rightarrow> nat \<Rightarrow> string list option" where
  "GetTemplateArgs clean_lines linenum =
     (case func_start clean_lines linenum of
        None \<Rightarrow> Some []
      | Some func_line \<Rightarrow>
          map_option (\<lambda>argument_list. if argument_list = [] then [] else typenames_of argument_list)
            (template_argument_list clean_lines func_line))"

definition and_match :: "string \<Rightarrow> mat option" where
  "and_match line =
     (case Match (raw ''^(.*`S)&&'') line of
        Some m \<Rightarrow> Some m
      | None \<Rightarrow> Match (raw ''(.*)&&`S'') line)"

definition CheckRValueReference ::
    "string \<Rightarrow> CleansedLines \<Rightarrow> nat \<Rightarrow> NestingState \<Rightarrow> lint \<Rightarrow> lint option" where
  "CheckRValueReference filename clean_lines linenum nesting_state =
     (let line = elided clean_lines ! linenum in
      case and_match line of
        None \<Rightarrow> ok id
      | Some m \<Rightarrow>
          if py_find line ''(&&)'' \<noteq> None \<or> found (raw ''`boperator`s*$'') (grp m 1) then ok id
          else
            (case GetTemplateArgs clean_lines linenum of
               None \<Rightarrow> (\<lambda>g. None)
             | Some typenames \<Rightarrow>
                 (case IsRValueType typenames clean_lines nesting_state linenum (length (grp m 1)) of
                    None \<Rightarrow> (\<lambda>g. None)
                  | Some True \<Rightarrow>
                      (case IsRValueAllowed clean_lines linenum typenames of
                         None \<Rightarrow> (\<lambda>g. None)
                       | Some allowed \<Rightarrow>
                           ok (error_if (\<not> allowed) filename linenum ''build/c++11'' 3
                                 ''RValue references are an unapproved C++ feature.''))
                  | Some False \<Rightarrow>
                      ok (Error filename (int linenum) ''whitespace/operators'' 3
                            ''Missing spaces around &&''))))"

interpretation rvalue_reference: partial_check "CheckRValueReference filename cl linenum ns"
  by (auto simp: CheckRValueReference_def Let_def checks split: option.split bool.split)

lemmas [checks] = rvalue_reference.partial_check_axioms

section \<open>The recursion of \<open>IsRValueType\<close>\<close>

text \<open>The columns that the recursive calls go through.\<close>

inductive rvalue_calls ::
    "string list \<Rightarrow> CleansedLines \<Rightarrow> NestingState \<Rightarrow> nat \<Rightarrow> nat \<Rightarrow> nat \<Rightarrow> bool"
  for typenames cl ns linenum where
  here: "rvalue_calls typenames cl ns linenum c c"
| further: "rvalue_step typenames cl ns linenum c = Some (Inl c') \<Longrightarrow>
    rvalue_calls typenames cl ns linenum c' d \<Longrightarrow> rvalue_calls typenames cl ns linenum c d"

lemma IsRValueType_result:
  "IsRValueType typenames cl ns linenum c = Some b \<Longrightarrow>
     \<exists>d. rvalue_calls typenames cl ns linenum c d \<and> rvalue_step typenames cl ns linenum d = Some (Inr b)"
proof (induction typenames cl ns linenum c b
    rule: IsRValueType.raw_induct [rotated, consumes 1, case_names step])
  case (step rec typenames cl ns linenum c b)
  then show ?case
    by (fastforce split: option.splits sum.splits intro: rvalue_calls.intros)
qed

lemma rvalue_calls_cycle:
  "rvalue_calls typenames cl ns linenum a d \<Longrightarrow> a = c \<Longrightarrow>
     rvalue_step typenames cl ns linenum c = Some (Inl c) \<Longrightarrow> d = c"
  by (induction rule: rvalue_calls.induct) simp_all

lemma IsRValueType_cycle:
  assumes "rvalue_step typenames cl ns linenum c = Some (Inl c)"
  shows "IsRValueType typenames cl ns linenum c = None"
proof (cases "IsRValueType typenames cl ns linenum c")
  case (Some b)
  then obtain d where "rvalue_calls typenames cl ns linenum c d"
    and "rvalue_step typenames cl ns linenum d = Some (Inr b)"
    using IsRValueType_result by blast
  with rvalue_calls_cycle [OF _ refl assms] assms show ?thesis by fastforce
qed

text \<open>The column of the recursive call is that of the line with the parenthesis, but the call is
  made for the line with the reference: on a declaration with its parameters on the next line
  the calls go on for ever.\<close>

definition rvalue_example :: CleansedLines where
  "rvalue_example =
     (let ls = [''//'', ''F f('', ''B&&b''] in
      \<lparr>elided = ls, lines = ls, raw_lines = ls, num_lines = 3, lines_without_raw_strings = ls\<rparr>)"

lemma rvalue_declaration_recursion:
  "CheckRValueReference ''a.cc'' rvalue_example 2 NestingState_init g = None"
proof -
  have c: "rvalue_step [] rvalue_example NestingState_init 2 1 = Some (Inl 1)" by code_simp
  from IsRValueType_cycle [OF c] have "IsRValueType [] rvalue_example NestingState_init 2 1 = None" .
  moreover have "map_option (\<lambda>m. length (grp m 1)) (and_match (elided rvalue_example ! 2)) = Some 1"
    by code_simp
  moreover have "py_find (elided rvalue_example ! 2) ''(&&)'' = None" by code_simp
  moreover have "(case and_match (elided rvalue_example ! 2) of
      None \<Rightarrow> True | Some m \<Rightarrow> \<not> found (raw ''`boperator`s*$'') (grp m 1))" by code_simp
  moreover have "GetTemplateArgs rvalue_example 2 = Some []" by code_simp
  ultimately show ?thesis
    unfolding CheckRValueReference_def Let_def by (auto split: option.splits)
qed

text \<open>The groups end before the text does.\<close>

lemma symbol_shorter: "Match symbol_pattern line = Some m \<Longrightarrow> length (grp m 1) < length line"
  by (erule head_group_shorter) (code_simp, simp)

lemma type_shorter: "Match type_pattern pre = Some m \<Longrightarrow> length (grp m 1) < length pre"
  by (erule head_group_shorter) (code_simp, simp)

lemma function_shorter: "Match function_pattern s = Some m \<Longrightarrow> length (grp m 1) < length s"
  by (erule head_group_shorter) (code_simp, simp)

text \<open>The symbol is on the given line, or what the search on the lines above finds.\<close>

lemma find_symbol_cases:
  assumes "find_symbol cl n line = Some (start, m)"
  obtains "start = n" "Match symbol_pattern line = Some m"
  | "n > 0" "find_symbol cl (n - 1) (elided cl ! (n - 1)) = Some (start, m)"
  using assms by (cases n) (auto split: option.splits)

lemma find_symbol_range:
  "find_symbol cl n (elided cl ! n) = Some (start, m) \<Longrightarrow>
     start \<le> n \<and> length (grp m 1) < length (elided cl ! start)"
proof (induction n)
  case (Suc n)
  then show ?case using symbol_shorter [of "elided cl ! Suc n"] by (auto split: option.splits)
qed (use symbol_shorter in auto)

text \<open>Whether the first symbol above a line is an opening parenthesis.\<close>

definition paren_above :: "CleansedLines \<Rightarrow> nat \<Rightarrow> bool" where
  "paren_above cl linenum =
     (linenum > 0 \<and>
      (case find_symbol cl (linenum - 1) (elided cl ! (linenum - 1)) of
         None \<Rightarrow> False
       | Some (start, m) \<Rightarrow> grp m 2 = ''(''))"

lemma ReverseClose_defined:
  "linenum < length (elided cl) \<Longrightarrow> pos < length (elided cl ! linenum) \<Longrightarrow>
     \<exists>r. ReverseCloseExpression cl linenum pos = Some r"
  unfolding ReverseCloseExpression_def Let_def by (simp only: if_True split: if_split) blast

lemma rvalue_symbol_defined:
  assumes "start < length (elided cl)" and "length (grp m 1) < length (elided cl ! start)"
  shows "\<exists>r. rvalue_symbol cl ns pre start m = Some r"
  using ReverseClose_defined [OF assms]
  by (auto simp: rvalue_symbol_def Let_def IsTemplateParameterList_def)

lemma rvalue_symbol_call:
  assumes "rvalue_symbol cl ns pre start m = Some (Inl c)"
  shows "grp m 2 = ''('' \<and> c < length (grp m 1)"
proof -
  from assms have p: "grp m 2 = ''(''" "rvalue_paren ns pre (grp m 1) = Inl c"
    by (auto simp: rvalue_symbol_def Let_def split: if_splits)
  from p(2) show ?thesis
    using p(1) function_shorter [of "grp m 1"] by (auto simp: rvalue_paren_def split: if_splits option.splits)
qed

text \<open>One call is defined, and the recursive call is for a column further to the left.\<close>

lemma found_symbol_progress:
  assumes "linenum < length (elided cl)" and "\<not> paren_above cl linenum"
    and "length text < length (elided cl ! linenum)" and "find_symbol cl linenum text = Some (start, m)"
  shows "\<exists>r. rvalue_symbol cl ns pre start m = Some r \<and> (\<forall>c. r = Inl c \<longrightarrow> c < length text)"
  using assms(4)
proof (cases rule: find_symbol_cases)
  case 1
  from symbol_shorter [OF 1(2)] have "length (grp m 1) < length text" .
  with rvalue_symbol_defined [of start cl m ns pre] rvalue_symbol_call [of cl ns pre start m] assms(1,3) 1(1)
  show ?thesis by fastforce
next
  case 2
  from find_symbol_range [OF 2(2)] assms(1)
  obtain r where "rvalue_symbol cl ns pre start m = Some r"
    using rvalue_symbol_defined [of start cl m ns pre] by fastforce
  moreover have "grp m 2 \<noteq> ''(''" using 2 assms(2) by (simp add: paren_above_def)
  ultimately show ?thesis using rvalue_symbol_call [of cl ns pre start m] by auto
qed

lemma rvalue_step_progress:
  assumes "linenum < length (elided cl)" and "\<not> paren_above cl linenum"
  shows "\<exists>r. rvalue_step typenames cl ns linenum column = Some r \<and> (\<forall>c. r = Inl c \<longrightarrow> c < column)"
proof -
  let ?line = "elided cl ! linenum" and ?pre = "take column (elided cl ! linenum)"
  show ?thesis
  proof (cases "Match type_pattern ?pre")
    case None
    then show ?thesis by (simp add: rvalue_step_def)
  next
    case (Some m)
    from type_shorter [OF Some] have g: "length (grp m 1) < length ?line" "length (grp m 1) < column" by simp_all
    have decl: "\<exists>b. IsDecltype cl linenum (length (grp m 1)) = Some b"
      using ReverseClose_defined [OF assms(1) g(1)] by (auto simp: IsDecltype_def)
    have sym: "\<exists>r. rvalue_symbol cl ns ?pre start ms = Some r \<and> (\<forall>c. r = Inl c \<longrightarrow> c < column)"
      if "find_symbol cl linenum (grp m 1) = Some (start, ms)" for start ms
      using found_symbol_progress [OF assms g(1) that] g(2) by fastforce
    show ?thesis
      using Some decl sym unfolding rvalue_step_def Let_def by (auto split: option.split)
  qed
qed

text \<open>C31: \<open>IsRValueType\<close> returns for every line and column, unless the first symbol on the lines above is an
  opening parenthesis: each recursive call is for a column further to the left, and no bracket is looked for outside
  a line. With an opening parenthesis above it may call itself for ever, as in the example.\<close>

theorem IsRValueType_returns:
  assumes "linenum < length (elided cl)" and "\<not> paren_above cl linenum"
  shows "\<exists>b. IsRValueType typenames cl ns linenum column = Some b"
proof (induction column rule: less_induct)
  case (less column)
  from rvalue_step_progress [OF assms, of typenames ns column] less.IH show ?case
    by (subst IsRValueType.simps) (auto split: sum.split)
qed

definition rvalue_ends :: CleansedLines where
  "rvalue_ends =
     (let ls = [''int a = 1;'', ''F f(B&&b''] in
      \<lparr>elided = ls, lines = ls, raw_lines = ls, num_lines = 2, lines_without_raw_strings = ls\<rparr>)"

theorem IsRValueType_returns_witness: "\<exists>b. IsRValueType [] rvalue_ends NestingState_init 1 5 = Some b"
proof -
  have "1 < length (elided rvalue_ends)" "\<not> paren_above rvalue_ends 1" by code_simp+
  then show ?thesis by (rule IsRValueType_returns)
qed

end
