(* ===== verification/Lint_Blocks.thy ===== *)
theory Lint_Blocks
  imports Lint_RValue
begin

text \<open>
  Braces, bodies, assertion macros and the lines of a file in \<^verbatim>\<open>build-support/cpplint.py\<close>: from
  \<open>CheckSectionSpacing\<close> to \<open>CheckStyle\<close>, which calls the checks of spacing. \<open>None\<close> is an exception of
  Python, as in \<open>Lint_Spacing\<close>.
\<close>

section \<open>Sections and blank lines\<close>

definition CheckSectionSpacing ::
    "string \<Rightarrow> CleansedLines \<Rightarrow> ClassInfo \<Rightarrow> nat \<Rightarrow> lint \<Rightarrow> lint" where
  "CheckSectionSpacing filename clean_lines class_info linenum =
     (if int (class_last_line class_info) - int (class_starting_linenum class_info) \<le> 24 \<or>
         linenum \<le> class_starting_linenum class_info then id
      else
        (case Match (raw ''`s*(public|protected|private):'') (lines clean_lines ! linenum) of
           None \<Rightarrow> id
         | Some matched \<Rightarrow>
             (let prev_line = lines clean_lines ! (linenum - 1) in
              if \<not> IsBlankLine prev_line \<and> \<not> found (raw ''`b(class|struct)`b'') prev_line \<and>
                 \<not> found (raw ''``$'') prev_line then
                (let end_class_head =
                   (case find (\<lambda>i. found (raw ''`{`s*$'') (lines clean_lines ! i))
                           [class_starting_linenum class_info..<linenum] of
                      Some i \<Rightarrow> i
                    | None \<Rightarrow> class_starting_linenum class_info)
                 in error_if (end_class_head < linenum - 1) filename linenum ''whitespace/blank_line'' 3
                      ([dquote] @ grp matched 1 @ '':'' @ [dquote] @ '' should be preceded by a blank line''))
              else id)))"

text \<open>The line and its number plus one, \<open>0\<close> for the number \<open>-1\<close>.\<close>

fun previous_nonblank :: "CleansedLines \<Rightarrow> nat \<Rightarrow> string \<times> nat" where
  "previous_nonblank cl 0 = ([], 0)"
| "previous_nonblank cl (Suc n) =
     (if \<not> IsBlankLine (elided cl ! n) then (elided cl ! n, Suc n) else previous_nonblank cl n)"

definition GetPreviousNonBlankLine :: "CleansedLines \<Rightarrow> nat \<Rightarrow> string \<times> int" where
  "GetPreviousNonBlankLine clean_lines linenum =
     (case previous_nonblank clean_lines linenum of (prevline, n) \<Rightarrow> (prevline, int n - 1))"

section \<open>Braces\<close>

text \<open>\<open>s[i:]\<close>: a negative index counts from the end.\<close>

definition slice_from :: "string \<Rightarrow> int \<Rightarrow> string" where
  "slice_from s i = (if i < 0 then drop (nat (int (length s) + i)) s else drop (nat i) s)"

definition m_end :: "mat \<Rightarrow> nat" where
  "m_end m = m_start m + length (m_text m)"

definition check_brace_lines :: "string \<Rightarrow> CleansedLines \<Rightarrow> nat \<Rightarrow> string \<Rightarrow> lint \<Rightarrow> lint" where
  "check_brace_lines filename clean_lines linenum line =
     (let prevline = fst (GetPreviousNonBlankLine clean_lines linenum) in
      run
       [error_if (matches (raw ''`s*{`s*$'') line \<and>
                  \<not> found (raw ''[,;:}{(]`s*$'') prevline \<and> \<not> matches (raw ''`s*#'') prevline)
          filename linenum ''whitespace/braces'' 4
          ''{ should almost always be at the end of the previous line'',
        error_if (matches (raw ''`s*else`b`s*(?:if`b|`{|$)'') line \<and> matches (raw ''`s*}`s*$'') prevline)
          filename linenum ''whitespace/newline'' 4
          ''An else should appear on the same line as the preceding }''])"

definition else_brace_message :: string where
  "else_brace_message = ''If an else has a brace on one side, it should have it on both''"

definition check_else_braces :: "string \<Rightarrow> CleansedLines \<Rightarrow> nat \<Rightarrow> string \<Rightarrow> lint \<Rightarrow> lint option" where
  "check_else_braces filename clean_lines linenum line =
     (if found (raw ''else if`s*`('') line then
        (let brace_on_left = found (raw ''}`s*else if`s*`('') line in
         case py_find line ''else if'' of
           None \<Rightarrow> ok id
         | Some p \<Rightarrow>
             (case py_find (drop p line) ''('' of
                None \<Rightarrow> ok id
              | Some q \<Rightarrow>
                  if p + q > 0 then
                    (case CloseExpression clean_lines linenum (p + q) of
                       None \<Rightarrow> (\<lambda>g. None)
                     | Some (endline, _, endpos) \<Rightarrow>
                         (let brace_on_right = (CHR ''{'' \<in> set (slice_from endline endpos)) in
                          ok (error_if (brace_on_left \<noteq> brace_on_right) filename linenum
                                ''readability/braces'' 5 else_brace_message)))
                  else ok id))
      else
        ok (error_if (found (raw ''}`s*else[^{]*$'') line \<or> matches (raw ''[^}]*else`s*{'') line)
              filename linenum ''readability/braces'' 5 else_brace_message))"

text \<open>The loop to the first semicolon after a condition.\<close>

function find_semicolon :: "string list \<Rightarrow> nat \<Rightarrow> int \<Rightarrow> nat" where
  "find_semicolon ls endlinenum endpos =
     (if endlinenum < length ls \<and> CHR '';'' \<notin> set (slice_from (ls ! endlinenum) endpos)
      then find_semicolon ls (endlinenum + 1) 0 else endlinenum)"
  by pat_completeness auto
termination by (relation "measure (\<lambda>(ls, n, k). length ls - n)") auto

declare find_semicolon.simps [simp del]

text \<open>The end of \<open>CheckBraces\<close>: a body without braces after a condition that ends at the given place.\<close>

definition check_single_statement ::
    "string \<Rightarrow> CleansedLines \<Rightarrow> nat \<Rightarrow> nat \<Rightarrow> bool \<Rightarrow> string \<times> nat \<times> int \<Rightarrow> lint \<Rightarrow> lint" where
  "check_single_statement filename clean_lines linenum if_indent if_match place =
     (case place of (endline, endlinenum, endpos) \<Rightarrow>
        (let ls = elided clean_lines;
             after = slice_from endline endpos;
             report = Error filename (int linenum) ''readability/braces'' 4
         in if \<not> matches (raw ''`s*{'') after \<and>
               \<not> (matches (raw ''`s*$'') after \<and> endlinenum < length ls - 1 \<and>
                  matches (raw ''`s*{'') (ls ! (endlinenum + 1))) then
              (let n = find_semicolon ls endlinenum endpos in
               if n < length ls then
                 (let endline = ls ! n;
                      statement_end = (case py_find endline '';'' of
                                         Some k \<Rightarrow> drop k endline | None \<Rightarrow> slice_from endline (-1))
                  in if \<not> matches (raw '';[`s}]*(``?)$'') statement_end then
                       (if \<not> matches (raw ''^[^{};]*`[[^`[`]]*`][^{}]*`{[^{}]*`}`s*`)*[;,]`s*$'') endline
                        then report ''If/else bodies with multiple statements require braces'' else id)
                     else if n < length ls - 1 then
                       (let next_line = ls ! (n + 1);
                            next_indent = GetIndentLevel next_line
                        in if if_match \<and> matches (raw ''`s*else`b'') next_line \<and> next_indent \<noteq> if_indent
                           then report (''Else clause should be indented at the same level as if. '' @
                                        ''Ambiguous nested if/else chains require braces.'')
                           else if next_indent > if_indent
                           then report ''If/else bodies with multiple statements require braces''
                           else id)
                     else id)
               else id)
            else id))"

definition check_if_body :: "string \<Rightarrow> CleansedLines \<Rightarrow> nat \<Rightarrow> string \<Rightarrow> lint \<Rightarrow> lint option" where
  "check_if_body filename clean_lines linenum line =
     (case Search (raw ''`b(if`s*`(|else`b)'') line of
        None \<Rightarrow> ok id
      | Some if_else_match \<Rightarrow>
          if matches (raw ''`s*#'') line then ok id
          else
            (let body = check_single_statement filename clean_lines linenum (GetIndentLevel line) in
             case Search (raw ''`bif`s*`('') line of
               None \<Rightarrow> ok (body False (line, linenum, int (m_end if_else_match)))
             | Some if_match \<Rightarrow>
                 (case CloseExpression clean_lines linenum (m_end if_match - 1) of
                    None \<Rightarrow> (\<lambda>g. None)
                  | Some place \<Rightarrow> ok (body True place))))"

definition CheckBraces :: "string \<Rightarrow> CleansedLines \<Rightarrow> nat \<Rightarrow> lint \<Rightarrow> lint option" where
  "CheckBraces filename clean_lines linenum =
     (let line = elided clean_lines ! linenum in
      run_opt
       [ok (check_brace_lines filename clean_lines linenum line),
        check_else_braces filename clean_lines linenum line,
        ok (error_if (found (raw ''`belse [^`s{]'') line \<and> \<not> found (raw ''`belse if`b'') line)
              filename linenum ''whitespace/newline'' 4
              ''Else clause should never be on same line as else (use 2 lines)''),
        ok (error_if (matches (raw ''`s*do [^`s{]'') line) filename linenum ''whitespace/newline'' 4
              ''do/while clauses should not be on a single line''),
        check_if_body filename clean_lines linenum line])"

section \<open>Semicolons and empty bodies\<close>

definition warned_macros :: "string list" where
  "warned_macros =
     [''TEST'', ''TEST_F'', ''MATCHER'', ''MATCHER_P'', ''TYPED_TEST'', ''EXCLUSIVE_LOCKS_REQUIRED'',
      ''SHARED_LOCKS_REQUIRED'', ''LOCKS_EXCLUDED'', ''INTERFACE_DEF'']"

definition line_prefix_excluded :: "string \<Rightarrow> bool" where
  "line_prefix_excluded line_prefix \<longleftrightarrow>
     (case Search (raw ''`b([A-Z_]+)`s*$'') line_prefix of
        None \<Rightarrow> False | Some macro \<Rightarrow> grp macro 1 \<notin> set warned_macros) \<or>
     (case Match (raw ''^(.*`])`s*$'') line_prefix of
        None \<Rightarrow> False | Some func \<Rightarrow> \<not> found (raw ''`boperator`s*`[`s*`]'') (grp func 1)) \<or>
     found (raw ''`b(?:struct|union)`s+alignas`s*$'') line_prefix \<or>
     found (raw ''`s+=`s*$'') line_prefix"

text \<open>The block whose end is looked at: the length of what stands before its brace.\<close>

definition semicolon_block :: "CleansedLines \<Rightarrow> nat \<Rightarrow> string \<Rightarrow> nat option option" where
  "semicolon_block clean_lines linenum line =
     (case Match (raw ''^(.*`)`s*)`{'') line of
        Some m \<Rightarrow>
          (case rfind_char CHR '')'' (grp m 1) of
             None \<Rightarrow> None
           | Some closing_brace_pos \<Rightarrow>
               map_option (\<lambda>(text, startline, startpos).
                   if startpos > -1 \<and> line_prefix_excluded (take (nat startpos) text) \<or>
                      startline > 1 \<and> found (raw ''`]`s*$'') (elided clean_lines ! (startline - 1))
                   then None else Some (length (grp m 1)))
                 (ReverseCloseExpression clean_lines linenum closing_brace_pos))
      | None \<Rightarrow>
          (case Match (raw ''^(.*(?:else|`)`s*const)`s*)`{'') line of
             Some m \<Rightarrow> Some (Some (length (grp m 1)))
           | None \<Rightarrow>
               (let prevline = fst (GetPreviousNonBlankLine clean_lines linenum) in
                if prevline \<noteq> [] \<and> found (raw ''[;{}]`s*$'') prevline
                then Some (map_option (\<lambda>m. length (grp m 1)) (Match (raw ''^(`s*)`{'') line))
                else Some None)))"

definition CheckTrailingSemicolon :: "string \<Rightarrow> CleansedLines \<Rightarrow> nat \<Rightarrow> lint \<Rightarrow> lint option" where
  "CheckTrailingSemicolon filename clean_lines linenum =
     (case semicolon_block clean_lines linenum (elided clean_lines ! linenum) of
        None \<Rightarrow> (\<lambda>g. None)
      | Some None \<Rightarrow> ok id
      | Some (Some pos) \<Rightarrow>
          (case CloseExpression clean_lines linenum pos of
             None \<Rightarrow> (\<lambda>g. None)
           | Some (endline, endlinenum, endpos) \<Rightarrow>
               ok (error_if (endpos > -1 \<and> matches (raw ''^`s*;'') (drop (nat endpos) endline))
                     filename endlinenum ''readability/braces'' 4
                     (''You don'' @ [squote] @ ''t need a ; after a }''))))"

definition CheckEmptyBlockBody :: "string \<Rightarrow> CleansedLines \<Rightarrow> nat \<Rightarrow> lint \<Rightarrow> lint option" where
  "CheckEmptyBlockBody filename clean_lines linenum =
     (let line = elided clean_lines ! linenum in
      case Match (raw ''`s*(for|while|if)`s*`('') line of
        None \<Rightarrow> ok id
      | Some matched \<Rightarrow>
          (case py_find line ''('' of
             None \<Rightarrow> (\<lambda>g. None)
           | Some p \<Rightarrow>
               (case CloseExpression clean_lines linenum p of
                  None \<Rightarrow> (\<lambda>g. None)
                | Some (end_line, end_linenum, end_pos) \<Rightarrow>
                    ok (if end_pos \<ge> 0 \<and> matches '';'' (drop (nat end_pos) end_line) then
                          if grp matched 1 = ''if'' then
                            Error filename (int end_linenum) ''whitespace/empty_conditional_body'' 5
                              ''Empty conditional bodies should use {}''
                          else
                            Error filename (int end_linenum) ''whitespace/empty_loop_body'' 5
                              ''Empty loop bodies should use {} or continue''
                        else id))))"

section \<open>Assertion macros\<close>

definition CHECK_MACROS :: "string list" where
  "CHECK_MACROS =
     [''DCHECK'', ''CHECK'', ''EXPECT_TRUE_M'', ''EXPECT_TRUE'', ''ASSERT_TRUE_M'', ''ASSERT_TRUE'',
      ''EXPECT_FALSE_M'', ''EXPECT_FALSE'', ''ASSERT_FALSE_M'', ''ASSERT_FALSE'']"

text \<open>\<open>_CHECK_REPLACEMENT[macro][op]\<close>, the dictionary that the loops over the operators fill.\<close>

definition replacement_names :: "(string \<times> string) list" where
  "replacement_names =
     [(''=='', ''EQ''), (''!='', ''NE''), (''>='', ''GE''), (''>'', ''GT''), (''<='', ''LE''), (''<'', ''LT'')]"

definition inv_replacement_names :: "(string \<times> string) list" where
  "inv_replacement_names =
     [(''=='', ''NE''), (''!='', ''EQ''), (''>='', ''LT''), (''>'', ''LE''), (''<='', ''GT''), (''<'', ''GE'')]"

text \<open>For a macro: whether the loop over the inverse names fills its entry, and what stands before
  and after the name.\<close>

definition replacement_affixes :: "(string \<times> bool \<times> string \<times> string) list" where
  "replacement_affixes =
     [(''DCHECK'', False, ''DCHECK_'', []), (''CHECK'', False, ''CHECK_'', []),
      (''EXPECT_TRUE'', False, ''EXPECT_'', []), (''ASSERT_TRUE'', False, ''ASSERT_'', []),
      (''EXPECT_TRUE_M'', False, ''EXPECT_'', ''_M''), (''ASSERT_TRUE_M'', False, ''ASSERT_'', ''_M''),
      (''EXPECT_FALSE'', True, ''EXPECT_'', []), (''ASSERT_FALSE'', True, ''ASSERT_'', []),
      (''EXPECT_FALSE_M'', True, ''EXPECT_'', ''_M''), (''ASSERT_FALSE_M'', True, ''ASSERT_'', ''_M'')]"

definition CHECK_REPLACEMENT :: "string \<Rightarrow> string \<Rightarrow> string option" where
  "CHECK_REPLACEMENT check_macro op =
     (case map_of replacement_affixes check_macro of
        None \<Rightarrow> None
      | Some (inv_macro, pre, post) \<Rightarrow>
          map_option (\<lambda>name. pre @ name @ post)
            (map_of (if inv_macro then inv_replacement_names else replacement_names) op))"

definition macro_pattern :: "string \<Rightarrow> string" where
  "macro_pattern check_macro = raw ''^(.*`b'' @ check_macro @ raw ''`s*)`(''"

fun find_macro :: "string \<Rightarrow> string list \<Rightarrow> (string \<times> nat) option" where
  "find_macro line [] = None"
| "find_macro line (m # ms) =
     (if py_find line m = None then find_macro line ms
      else (case Match (macro_pattern m) line of
              None \<Rightarrow> find_macro line ms
            | Some matched \<Rightarrow> Some (m, length (grp matched 1))))"

definition FindCheckMacro :: "string \<Rightarrow> (string \<times> nat) option" where
  "FindCheckMacro line = find_macro line CHECK_MACROS"

text \<open>The loop that parses the argument: \<open>None\<close> when the code returns from \<open>CheckCheck\<close>, otherwise the
  left operand, the operator if one was found, and the right operand.\<close>

definition check_token_pattern :: string where
  "check_token_pattern =
     raw ''^`s*(<<|<<=|>>|>>=|->`*|->|&&|`|`||'' @ raw ''==|!=|>=|>|<=|<|`()(.*)$''"

definition operand_pattern :: string where
  "operand_pattern = ''^([^-=!<>()&|]+)(.*)$''"

definition operand_char_pattern :: string where
  "operand_char_pattern = raw ''^(`s*`S)(.*)$''"

definition operand_match :: "string \<Rightarrow> mat option" where
  "operand_match expression =
     (case Match operand_pattern expression of
        Some m \<Rightarrow> Some m
      | None \<Rightarrow> Match operand_char_pattern expression)"

lemma check_token_shorter: "Match check_token_pattern s = Some m \<Longrightarrow> length (grp m 2) < length s"
  by (erule tail_group_shorter; code_simp)

lemma operand_shorter: "operand_match s = Some m \<Longrightarrow> length (grp m 2) < length s"
proof -
  have "length (grp m 2) < length s" if "Match operand_pattern s = Some m"
    using that by (rule tail_group_shorter; code_simp)
  moreover have "length (grp m 2) < length s" if "Match operand_char_pattern s = Some m"
    using that by (rule tail_group_shorter; code_simp)
  moreover assume "operand_match s = Some m"
  ultimately show ?thesis by (auto simp: operand_match_def split: option.splits)
qed

function parse_check :: "string \<Rightarrow> string \<Rightarrow> (string \<times> string option \<times> string) option" where
  "parse_check lhs expression =
     (if expression = [] then Some (lhs, None, [])
      else
        (case Match check_token_pattern expression of
           Some matched \<Rightarrow>
             (let token = grp matched 1; rest = grp matched 2 in
              if token = ''('' then
                (case FindEndOfExpressionInLine rest 0 ''('' of
                   Closed e \<Rightarrow> parse_check (lhs @ ''('' @ take e rest) (drop e rest)
                 | _ \<Rightarrow> None)
              else if token = ''&&'' \<or> token = ''||'' then None
              else if token \<in> set [''<<'', ''<<='', ''>>'', ''>>='', ''->*'', ''->'']
              then parse_check (lhs @ token) rest
              else Some (lhs, Some token, rest))
         | None \<Rightarrow>
             (case operand_match expression of
                None \<Rightarrow> Some (lhs, None, [])
              | Some matched \<Rightarrow> parse_check (lhs @ grp matched 1) (grp matched 2))))"
  by pat_completeness auto
termination
  by (relation "measure (\<lambda>(lhs, expression). length expression)")
    (auto dest!: check_token_shorter operand_shorter)

declare parse_check.simps [simp del]

definition match_constant :: string where
  "match_constant =
     raw ''^([-+]?(`d+|0[xX][0-9a-fA-F]+)[lLuU]{0,3}|'' @ [dquote] @ ''.*'' @ [dquote] @ ''|'' @
     raw ''`'' @ [squote] @ ''.*'' @ raw ''`'' @ [squote] @ '')$''"

definition check_expression ::
    "CleansedLines \<Rightarrow> nat \<Rightarrow> nat \<Rightarrow> string \<Rightarrow> nat \<Rightarrow> int \<Rightarrow> string" where
  "check_expression clean_lines linenum start_pos last_line end_line end_pos =
     (let line = elided clean_lines ! linenum in
      if linenum = end_line then drop (start_pos + 1) (take (nat (end_pos - 1)) line)
      else drop (start_pos + 1) line @
           concat (map (\<lambda>i. elided clean_lines ! i) [linenum + 1..<end_line]) @
           take (nat (end_pos - 1)) last_line)"

definition CheckCheck :: "string \<Rightarrow> CleansedLines \<Rightarrow> nat \<Rightarrow> lint \<Rightarrow> lint option" where
  "CheckCheck filename clean_lines linenum =
     (case FindCheckMacro (elided clean_lines ! linenum) of
        None \<Rightarrow> ok id
      | Some (check_macro, start_pos) \<Rightarrow>
          (case CloseExpression clean_lines linenum start_pos of
             None \<Rightarrow> (\<lambda>g. None)
           | Some (last_line, end_line, end_pos) \<Rightarrow>
               if end_pos < 0 \<or> \<not> matches (raw ''`s*;'') (drop (nat end_pos) last_line) then ok id
               else
                 (case parse_check []
                         (check_expression clean_lines linenum start_pos last_line end_line end_pos) of
                    Some (lhs, Some op, rhs) \<Rightarrow>
                      if lhs = [] \<or> rhs = [] \<or> py_find rhs ''&&'' \<noteq> None \<or> py_find rhs ''||'' \<noteq> None
                      then ok id
                      else if matches match_constant (py_strip lhs) \<or> matches match_constant (py_strip rhs)
                      then
                        (case CHECK_REPLACEMENT check_macro op of
                           None \<Rightarrow> (\<lambda>g. None)
                         | Some r \<Rightarrow>
                             ok (Error filename (int linenum) ''readability/check'' 2
                                   (''Consider using '' @ r @ '' instead of '' @ check_macro @ ''(a '' @
                                    op @ '' b)'')))
                      else ok id
                  | _ \<Rightarrow> ok id)))"

section \<open>Alternative tokens\<close>

definition ALT_TOKEN_REPLACEMENT :: "(string \<times> string) list" where
  "ALT_TOKEN_REPLACEMENT =
     [(''and'', ''&&''), (''bitor'', ''|''), (''or'', ''||''), (''xor'', ''^''), (''compl'', ''~''),
      (''bitand'', ''&''), (''and_eq'', ''&=''), (''or_eq'', ''|=''), (''xor_eq'', ''^=''),
      (''not'', ''!''), (''not_eq'', ''!='')]"

text \<open>What follows a keyword decides which alternative matches, so the order of the keys of the
  dictionary does not matter.\<close>

definition ALT_TOKEN_REPLACEMENT_PATTERN :: string where
  "ALT_TOKEN_REPLACEMENT_PATTERN =
     ''[ =()]('' @ py_join ''|'' (map fst ALT_TOKEN_REPLACEMENT) @ '')(?=[ (]|$)''"

text \<open>\<open>finditer\<close>, for a pattern that does not match the empty text.\<close>

function all_matches :: "re \<Rightarrow> string \<Rightarrow> string \<Rightarrow> mat list" where
  "all_matches r p [] = []"
| "all_matches r p (c # s) =
     (case match_at r p (c # s) of
        Some m \<Rightarrow>
          if m_text m = [] then all_matches r (c # p) s
          else m # all_matches r (rev (m_text m) @ p) (drop (length (m_text m)) (c # s))
      | None \<Rightarrow> all_matches r (c # p) s)"
  by pat_completeness auto
termination
proof (relation "measure (\<lambda>(r, p, s). length s)", goal_cases)
  case (3 r p c s m)
  then show ?case by (cases "m_text m") auto
qed auto

definition re_finditer :: "string \<Rightarrow> string \<Rightarrow> mat list" where
  "re_finditer pat s = (case re_compile pat of None \<Rightarrow> [] | Some r \<Rightarrow> all_matches r [] s)"

definition alt_token_error :: "string \<Rightarrow> nat \<Rightarrow> mat \<Rightarrow> lint \<Rightarrow> lint option" where
  "alt_token_error filename linenum m =
     (case map_of ALT_TOKEN_REPLACEMENT (grp m 1) of
        None \<Rightarrow> (\<lambda>g. None)
      | Some r \<Rightarrow>
          ok (Error filename (int linenum) ''readability/alt_tokens'' 2
                (''Use operator '' @ r @ '' instead of '' @ grp m 1)))"

definition CheckAltTokens :: "string \<Rightarrow> CleansedLines \<Rightarrow> nat \<Rightarrow> lint \<Rightarrow> lint option" where
  "CheckAltTokens filename clean_lines linenum =
     (let line = elided clean_lines ! linenum in
      if matches (raw ''^`s*#'') line \<or> py_find line ''/*'' \<noteq> None \<or> py_find line ''*/'' \<noteq> None then ok id
      else run_opt (map (alt_token_error filename linenum)
                      (re_finditer ALT_TOKEN_REPLACEMENT_PATTERN line)))"

section \<open>The width of a line\<close>

text \<open>The parts of \<open>unicodedata\<close> that the code uses, for texts given by their code points.\<close>

record unicode_data =
  normalize_nfc :: "nat list \<Rightarrow> nat list"
  east_asian_width :: "nat \<Rightarrow> string"
  combining :: "nat \<Rightarrow> nat"

definition GetLineWidth_unicode :: "unicode_data \<Rightarrow> nat list \<Rightarrow> nat" where
  "GetLineWidth_unicode u line =
     sum_list (map (\<lambda>uc. if east_asian_width u uc \<in> {''W'', ''F''} then 2
                         else if combining u uc = 0 then 1 else 0)
                (normalize_nfc u line))"

text \<open>The characters of the linter's texts are those of Latin-1, for which the width is the length.\<close>

definition GetLineWidth :: "string \<Rightarrow> nat" where
  "GetLineWidth line = length line"

definition latin1_data :: "unicode_data \<Rightarrow> bool" where
  "latin1_data u \<longleftrightarrow>
     (\<forall>ucs. (\<forall>uc \<in> set ucs. uc < 256) \<longrightarrow> normalize_nfc u ucs = ucs) \<and>
     (\<forall>uc < 256. east_asian_width u uc \<notin> {''W'', ''F''} \<and> combining u uc = 0)"

lemma GetLineWidth_correct:
  assumes "latin1_data u"
  shows "GetLineWidth_unicode u (map of_char line) = GetLineWidth line"
proof -
  have "(of_char c :: nat) < 256" for c :: char using nat_of_char_less_256 [of c] by simp
  with assms have "normalize_nfc u (map of_char line) = map of_char line"
    and "east_asian_width u (of_char c) \<notin> {''W'', ''F''} \<and> combining u (of_char c) = 0" for c :: char
    unfolding latin1_data_def by (auto simp del: insert_iff)
  moreover from this(2) have "sum_list (map (\<lambda>uc. if east_asian_width u uc \<in> {''W'', ''F''} then 2
      else if combining u uc = 0 then 1 else 0) (map of_char line)) = length line"
    by (induction line) (auto simp del: insert_iff)
  ultimately show ?thesis by (simp add: GetLineWidth_unicode_def GetLineWidth_def)
qed

section \<open>\<open>CheckStyle\<close>\<close>

text \<open>\<open>int(n * 1.25)\<close>.\<close>

definition extended_length :: "int \<Rightarrow> int" where
  "extended_length n = (if n \<ge> 0 then 5 * n div 4 else - (- 5 * n div 4))"

definition check_line_start :: "string \<Rightarrow> CleansedLines \<Rightarrow> nat \<Rightarrow> string \<Rightarrow> lint \<Rightarrow> lint" where
  "check_line_start filename clean_lines linenum line =
     (let cleansed_line = elided clean_lines ! linenum;
          initial_spaces = length (takeWhile (\<lambda>c. c = CHR '' '') line)
      in run
          [error_if (CHR 0x09 \<in> set line) filename linenum ''whitespace/tab'' 1
             ''Tab found; better to use spaces'',
           (if line \<noteq> [] \<and> py_isspace (last line) then
              Error filename (int linenum) ''whitespace/end_of_line'' 4
                ''Line ends in whitespace.  Consider deleting these extra spaces.''
            else
              error_if ((initial_spaces = 1 \<or> initial_spaces = 3) \<and>
                        \<not> matches (raw ''`s*`w+`s*:`s*``?$'') cleansed_line \<and>
                        \<not> (raw_lines clean_lines ! linenum \<noteq> line \<and>
                           matches (raw ''^`s*'' @ [dquote, dquote]) line))
                filename linenum ''whitespace/indent'' 3
                (''Weird number of spaces at line-start.  '' @
                 ''Are you using a 2-space indent?''))])"

definition is_header_guard :: "string \<Rightarrow> string \<Rightarrow> bool" where
  "is_header_guard cppvar line \<longleftrightarrow>
     startswith line (''#ifndef '' @ cppvar) \<or> startswith line (''#define '' @ cppvar) \<or>
     startswith line (''#endif  // '' @ cppvar)"

definition check_line_length :: "string \<Rightarrow> nat \<Rightarrow> string \<Rightarrow> bool \<Rightarrow> lint \<Rightarrow> lint" where
  "check_line_length filename linenum line header_guard g =
     (if \<not> startswith line ''#include'' \<and> \<not> header_guard \<and>
         \<not> matches (raw ''^`s*//.*http(s?)://`S*$'') line \<and>
         \<not> matches (raw ''^// `$Id:.*#[0-9]+ `$$'') line then
        if int (GetLineWidth line) > extended_length (line_length g) then
          Error filename (int linenum) ''whitespace/line_length'' 4
            (''Lines should very rarely be longer than '' @ str_of_int (extended_length (line_length g)) @
             '' characters'') g
        else if int (GetLineWidth line) > line_length g then
          Error filename (int linenum) ''whitespace/line_length'' 2
            (''Lines should be <= '' @ str_of_int (line_length g) @ '' characters long'') g
        else g
      else g)"

definition check_length_of_line ::
    "file_system \<Rightarrow> string \<Rightarrow> nat \<Rightarrow> string \<Rightarrow> string \<Rightarrow> lint \<Rightarrow> lint option" where
  "check_length_of_line fs filename linenum file_extension line g =
     (if file_extension = ''h'' then
        map_option (\<lambda>cppvar. check_line_length filename linenum line (is_header_guard cppvar line) g)
          (GetHeaderGuardCPPVariable fs g filename)
      else Some (check_line_length filename linenum line False g))"

definition check_one_command :: "string \<Rightarrow> CleansedLines \<Rightarrow> nat \<Rightarrow> lint \<Rightarrow> lint" where
  "check_one_command filename clean_lines linenum =
     (let cleansed_line = elided clean_lines ! linenum;
          prevline = fst (GetPreviousNonBlankLine clean_lines linenum)
      in error_if (py_count cleansed_line '';'' > 1 \<and> py_find cleansed_line ''for'' = None \<and>
                   (py_find prevline ''for'' = None \<or> py_find prevline '';'' \<noteq> None) \<and>
                   \<not> ((py_find cleansed_line ''case '' \<noteq> None \<or> py_find cleansed_line ''default:'' \<noteq> None) \<and>
                      py_find cleansed_line ''break;'' \<noteq> None))
           filename linenum ''whitespace/newline'' 0 ''More than one command on the same line'')"

definition CheckStyle ::
    "file_system \<Rightarrow> string \<Rightarrow> CleansedLines \<Rightarrow> nat \<Rightarrow> string \<Rightarrow> NestingState \<Rightarrow> lint \<Rightarrow> lint option" where
  "CheckStyle fs filename clean_lines linenum file_extension nesting_state =
     (let line = lines_without_raw_strings clean_lines ! linenum in
      run_opt
       [ok (check_line_start filename clean_lines linenum line),
        check_length_of_line fs filename linenum file_extension line,
        ok (check_one_command filename clean_lines linenum),
        CheckBraces filename clean_lines linenum,
        CheckTrailingSemicolon filename clean_lines linenum,
        CheckEmptyBlockBody filename clean_lines linenum,
        ok (CheckAccess filename clean_lines linenum nesting_state),
        ok (CheckSpacing filename clean_lines linenum nesting_state),
        CheckOperatorSpacing filename clean_lines linenum,
        ok (CheckParenthesisSpacing filename clean_lines linenum),
        ok (CheckCommaSpacing filename clean_lines linenum),
        CheckBracesSpacing filename clean_lines linenum,
        ok (CheckSpacingForFunctionCall filename clean_lines linenum),
        CheckRValueReference filename clean_lines linenum nesting_state,
        CheckCheck filename clean_lines linenum,
        CheckAltTokens filename clean_lines linenum,
        ok (case InnermostClass nesting_state of
              None \<Rightarrow> id
            | Some classinfo \<Rightarrow> CheckSectionSpacing filename clean_lines classinfo linenum)])"

section \<open>The contract\<close>

interpretation section_spacing: lint_check "CheckSectionSpacing filename cl c linenum"
  by (auto simp: CheckSectionSpacing_def Let_def checks split: option.split)

interpretation braces: partial_check "CheckBraces filename cl linenum"
proof -
  have "lint_check (check_single_statement filename cl linenum n b place)" for n b place
    by (auto simp: check_single_statement_def Let_def checks split: prod.split)
  then have "partial_check (check_if_body filename cl linenum line)" for line
    by (auto simp: check_if_body_def Let_def checks split: option.split)
  moreover have "partial_check (check_else_braces filename cl linenum line)" for line
    by (auto simp: check_else_braces_def Let_def checks split: option.split)
  ultimately show "partial_check (CheckBraces filename cl linenum)"
    by (simp add: CheckBraces_def check_brace_lines_def Let_def checks)
qed

interpretation trailing_semicolon: partial_check "CheckTrailingSemicolon filename cl linenum"
  by (auto simp: CheckTrailingSemicolon_def checks split: option.split)

interpretation empty_body: partial_check "CheckEmptyBlockBody filename cl linenum"
  by (auto simp: CheckEmptyBlockBody_def Let_def checks split: option.split)

interpretation check_check: partial_check "CheckCheck filename cl linenum"
  by (auto simp: CheckCheck_def checks split: option.split prod.split)

interpretation alt_tokens: partial_check "CheckAltTokens filename cl linenum"
  by (auto simp: CheckAltTokens_def Let_def alt_token_error_def checks list_all_iff split: option.split)

interpretation line_start: lint_check "check_line_start filename cl linenum line"
  by (simp add: check_line_start_def Let_def checks)

interpretation length_of_line: partial_check "check_length_of_line fs filename linenum ext line"
proof -
  have "reports g (check_line_length filename linenum line guard g)" for guard g
    by (simp add: check_line_length_def)
  then show "partial_check (check_length_of_line fs filename linenum ext line)"
    by (auto simp: partial_check_def check_length_of_line_def split: if_splits)
qed

lemmas [checks] =
  section_spacing.lint_check_axioms braces.partial_check_axioms trailing_semicolon.partial_check_axioms
  empty_body.partial_check_axioms check_check.partial_check_axioms alt_tokens.partial_check_axioms
  line_start.lint_check_axioms length_of_line.partial_check_axioms

interpretation style: partial_check "CheckStyle fs filename cl linenum ext ns"
  by (auto simp: CheckStyle_def check_one_command_def Let_def checks split: option.split)

lemmas [checks] = style.partial_check_axioms

section \<open>What \<open>CheckCheck\<close> suggests\<close>

definition check_tokens :: "string list" where
  "check_tokens =
     [''<<'', ''<<='', ''>>'', ''>>='', ''->*'', ''->'', ''&&'', ''||'', ''=='', ''!='', ''>='', ''>'', ''<='', ''<'', ''('']"

lemma check_token_compile:
  "re_compile check_token_pattern =
     Some (RCat RBol (RCat (RRep 0 None True (RSet False [CSpace True]))
       (RCat (RGroup 1 (alts (map lit check_tokens))) (RCat (RGroup 2 (RRep 0 None True RAny)) REol))))"
  by code_simp

definition solid :: "string \<Rightarrow> string" where
  "solid s = filter (\<lambda>c. \<not> re_space c) s"

lemma solid_append [simp]: "solid (s @ t) = solid s @ solid t"
  by (simp add: solid_def)

lemma solid_space: "(\<forall>c \<in> set s. re_space c) \<Longrightarrow> solid s = []"
  by (simp add: solid_def filter_empty_conv)

lemma solid_newline [simp]: "solid [] = []" "solid [newline] = []"
  by (simp_all add: solid_def re_space_def)

lemma check_token_parts:
  assumes "Match check_token_pattern e = Some m"
  shows "solid e = solid (grp m 1 @ grp m 2) \<and> grp m 1 \<in> set check_tokens"
proof -
  have "check_tokens \<noteq> []" by (simp add: check_tokens_def)
  with re_match_shape [OF assms check_token_compile] obtain ws where
    "e = ws @ grp m 1 @ grp m 2 @ m_rest m" "\<forall>c \<in> set ws. re_space c" "grp m 1 \<in> set check_tokens"
    by (auto simp: group_simps)
  with re_match_ends_eol [OF assms check_token_compile] show ?thesis
    by (auto simp: solid_space)
qed

lemma operand_parts:
  assumes "operand_match e = Some m"
  shows "solid e = solid (grp m 1 @ grp m 2)"
proof -
  have c: "re_compile operand_pattern = Some (RCat RBol (RCat (RGroup 1 (RRep 1 None True (RSet True
      (map CChar ''-=!<>()&|'')))) (RCat (RGroup 2 (RRep 0 None True RAny)) REol)))"
    "re_compile operand_char_pattern = Some (RCat RBol (RCat (RGroup 1 (RCat
      (RRep 0 None True (RSet False [CSpace True])) (RSet False [CSpace False])))
      (RCat (RGroup 2 (RRep 0 None True RAny)) REol)))"
    by code_simp+
  have "solid e = solid (grp m 1 @ grp m 2)" if "Match operand_pattern e = Some m"
    using re_match_shape [OF that c(1)] re_match_ends_eol [OF that c(1)]
    by (auto simp: grp_def m_group_def)
  moreover have "solid e = solid (grp m 1 @ grp m 2)" if "Match operand_char_pattern e = Some m"
    using re_match_shape [OF that c(2)] re_match_ends_eol [OF that c(2)]
    by (auto simp: grp_def m_group_def solid_def re_space_def)
  ultimately show ?thesis using assms by (auto simp: operand_match_def split: option.splits)
qed

text \<open>Up to white space, the operands and the operator are the expression.\<close>

lemma parse_check_parts:
  "parse_check lhs e = Some (l, Some op, r) \<Longrightarrow>
     solid (l @ op @ r) = solid (lhs @ e) \<and> op \<in> set (map fst replacement_names)"
proof (induction lhs e rule: parse_check.induct)
  case (1 lhs e)
  show ?case
  proof (cases "Match check_token_pattern e")
    case None
    with 1(4) obtain m where m: "operand_match e = Some m"
      and "parse_check (lhs @ grp m 1) (grp m 2) = Some (l, Some op, r)" and "e \<noteq> []"
      by (subst (asm) parse_check.simps) (auto split: if_splits option.splits)
    with 1(1) [OF _ None m] operand_parts [OF m] show ?thesis by simp
  next
    case (Some m)
    note parts = check_token_parts [OF Some]
    define tok rest where "tok = grp m 1" and "rest = grp m 2"
    have e: "e \<noteq> []" using 1(4) by (subst (asm) parse_check.simps) (auto split: if_splits)
    let ?plain = "[''<<'', ''<<='', ''>>'', ''>>='', ''->*'', ''->'']"
    have step: "parse_check lhs e =
        (if tok = ''('' then
           (case FindEndOfExpressionInLine rest 0 ''('' of
              Closed k \<Rightarrow> parse_check (lhs @ ''('' @ take k rest) (drop k rest) | _ \<Rightarrow> None)
         else if tok = ''&&'' \<or> tok = ''||'' then None
         else if tok \<in> set ?plain then parse_check (lhs @ tok) rest
         else Some (lhs, Some tok, rest))"
      by (subst parse_check.simps) (simp only: e Some Let_def tok_def rest_def option.case if_False)
    consider (paren) k where "tok = ''(''" "FindEndOfExpressionInLine rest 0 ''('' = Closed k"
        "parse_check (lhs @ ''('' @ take k rest) (drop k rest) = Some (l, Some op, r)"
      | (shift) "tok \<in> set ?plain" "tok \<noteq> ''(''" "\<not> (tok = ''&&'' \<or> tok = ''||'')"
        "parse_check (lhs @ tok) rest = Some (l, Some op, r)"
      | (relation) "tok \<noteq> ''(''" "\<not> (tok = ''&&'' \<or> tok = ''||'')" "tok \<notin> set ?plain"
        "l = lhs" "op = tok" "r = rest"
      using 1(4) unfolding step by (cases "FindEndOfExpressionInLine rest 0 ''(''") (simp_all only: scan.case
        split: if_splits, simp_all)
    then show ?thesis
    proof cases
      case paren
      from 1(2) [OF e Some tok_def rest_def paren(1) paren(2) paren(3)]
      have "solid (l @ op @ r) = solid (lhs @ tok @ take k rest @ drop k rest) \<and>
          op \<in> set (map fst replacement_names)"
        by (simp add: paren(1))
      moreover have "solid (take k rest) @ solid (drop k rest) = solid rest"
        by (metis append_take_drop_id solid_append)
      ultimately show ?thesis using parts by (simp add: tok_def rest_def)
    next
      case shift
      from 1(3) [OF e Some tok_def rest_def shift(2,3,1,4)] parts show ?thesis
        by (simp add: tok_def rest_def)
    next
      case relation
      with parts have "tok \<in> set (map fst replacement_names)"
        by (auto simp: check_tokens_def replacement_names_def tok_def)
      with relation parts show ?thesis by (simp add: tok_def rest_def)
    qed
  qed
qed

text \<open>What the operators and the names of the macros mean.\<close>

definition op_holds :: "string \<Rightarrow> int \<Rightarrow> int \<Rightarrow> bool" where
  "op_holds op a b =
     (if op = ''=='' then a = b else if op = ''!='' then a \<noteq> b else if op = ''>='' then a \<ge> b
      else if op = ''>'' then a > b else if op = ''<='' then a \<le> b else op = ''<'' \<and> a < b)"

definition name_holds :: "string \<Rightarrow> int \<Rightarrow> int \<Rightarrow> bool" where
  "name_holds name a b =
     (if name = ''EQ'' then a = b else if name = ''NE'' then a \<noteq> b else if name = ''GE'' then a \<ge> b
      else if name = ''GT'' then a > b else if name = ''LE'' then a \<le> b else name = ''LT'' \<and> a < b)"

definition asserts_false :: "string \<Rightarrow> bool" where
  "asserts_false check_macro \<longleftrightarrow>
     check_macro \<in> set [''EXPECT_FALSE_M'', ''EXPECT_FALSE'', ''ASSERT_FALSE_M'', ''ASSERT_FALSE'']"

lemma replacement_meaning:
  "list_all (\<lambda>(op, name). \<forall>a b. name_holds name a b = op_holds op a b) replacement_names"
  "list_all (\<lambda>(op, name). \<forall>a b. name_holds name a b = (\<not> op_holds op a b)) inv_replacement_names"
  by (auto simp: replacement_names_def inv_replacement_names_def name_holds_def op_holds_def)

lemma replacement_defined:
  assumes "op \<in> set (map fst replacement_names)"
  shows "\<exists>name. map_of replacement_names op = Some name \<and> (\<forall>a b. name_holds name a b = op_holds op a b)"
    and "\<exists>name. map_of inv_replacement_names op = Some name \<and> (\<forall>a b. name_holds name a b = (\<not> op_holds op a b))"
proof -
  have "op \<in> set (map fst inv_replacement_names)"
    using assms by (simp add: replacement_names_def inv_replacement_names_def)
  with assms obtain n k where "map_of replacement_names op = Some n" "map_of inv_replacement_names op = Some k"
    by (metis list.set_map map_of_eq_None_iff not_None_eq)
  with replacement_meaning show
    "\<exists>name. map_of replacement_names op = Some name \<and> (\<forall>a b. name_holds name a b = op_holds op a b)"
    "\<exists>name. map_of inv_replacement_names op = Some name \<and> (\<forall>a b. name_holds name a b = (\<not> op_holds op a b))"
    by (auto simp: list_all_iff dest!: map_of_SomeD)
qed

lemma affixes_macros:
  "list_all (\<lambda>m. case map_of replacement_affixes m of
     None \<Rightarrow> False | Some (inv_macro, _) \<Rightarrow> inv_macro = asserts_false m) CHECK_MACROS"
  by code_simp

text \<open>C32: The operands and the operator that \<open>CheckCheck\<close> finds make up the checked expression, up to
  white space, and the macro it suggests instead exists for every assertion macro and
  asserts the same comparison: the inverse one for the macros that assert that something is false.\<close>

theorem parse_check_suggestion:
  assumes "parse_check [] e = Some (lhs, Some op, rhs)" and "check_macro \<in> set CHECK_MACROS"
  shows "solid (lhs @ op @ rhs) = solid e \<and>
     (\<exists>pre name post. CHECK_REPLACEMENT check_macro op = Some (pre @ name @ post) \<and>
        (\<forall>a b. name_holds name a b = (op_holds op a b \<noteq> asserts_false check_macro)))"
proof -
  from parse_check_parts [OF assms(1)] have "solid (lhs @ op @ rhs) = solid e"
    and op: "op \<in> set (map fst replacement_names)" by simp_all
  moreover from affixes_macros assms(2) obtain neg pre post where
    a: "map_of replacement_affixes check_macro = Some (neg, pre, post)" "neg = asserts_false check_macro"
    by (auto simp: list_all_iff split: option.splits)
  with replacement_defined [OF op]
  have "\<exists>name. CHECK_REPLACEMENT check_macro op = Some (pre @ name @ post) \<and>
      (\<forall>a b. name_holds name a b = (op_holds op a b \<noteq> asserts_false check_macro))"
    by (cases neg) (auto simp: CHECK_REPLACEMENT_def)
  ultimately show ?thesis by blast
qed

theorem parse_check_suggestion_witness:
  "\<exists>pre name post. CHECK_REPLACEMENT ''EXPECT_FALSE'' ''<='' = Some (pre @ name @ post) \<and>
     (\<forall>a b. name_holds name a b = (op_holds ''<='' a b \<noteq> asserts_false ''EXPECT_FALSE''))"
proof -
  have "parse_check [] ''x <= 42'' = Some (''x '', Some ''<='', '' 42'')" by code_simp
  moreover have "''EXPECT_FALSE'' \<in> set CHECK_MACROS" by code_simp
  ultimately show ?thesis using parse_check_suggestion by blast
qed

end
