(* ===== verification/Lint_Language.thy ===== *)
theory Lint_Language
  imports Lint_Blocks
begin

text \<open>
  The rules on the language in \<^verbatim>\<open>build-support/cpplint.py\<close>: from \<open>_GetTextInside\<close> to
  \<open>ExpectingFunctionArgs\<close>. \<open>None\<close> is an exception of Python, as in \<open>Lint_Spacing\<close>. A search that ignores
  case is a search in the text in small letters, for the patterns it is used with.
\<close>

section \<open>Text inside parentheses\<close>

definition search_ignorecase :: "string \<Rightarrow> string \<Rightarrow> mat option" where
  "search_ignorecase pat s = Search pat (map lower_ascii s)"

definition matching_punctuation :: "char \<Rightarrow> char option" where
  "matching_punctuation c =
     (if c = CHR ''('' then Some CHR '')'' else if c = CHR ''{'' then Some CHR ''}''
      else if c = CHR ''['' then Some CHR '']'' else None)"

text \<open>The loop: how many characters it passes until the stack is empty.\<close>

fun punctuation_loop :: "string \<Rightarrow> string \<Rightarrow> nat option" where
  "punctuation_loop [] text = Some 0"
| "punctuation_loop (expected # punctuation_stack) [] = None"
| "punctuation_loop (expected # punctuation_stack) (c # text) =
     map_option Suc
       (if c = expected then punctuation_loop punctuation_stack text
        else if c \<in> set closers then None
        else (case matching_punctuation c of
                Some d \<Rightarrow> punctuation_loop (d # expected # punctuation_stack) text
              | None \<Rightarrow> punctuation_loop (expected # punctuation_stack) text))"

text \<open>The result of the search is given; the outer \<open>None\<close> is a failed assertion.\<close>

definition GetTextInside :: "string \<Rightarrow> mat option \<Rightarrow> string option option" where
  "GetTextInside text match =
     (case match of
        None \<Rightarrow> Some None
      | Some m \<Rightarrow>
          (let start_position = m_end m in
           if start_position = 0 then None
           else
             (case matching_punctuation (text ! (start_position - 1)) of
                None \<Rightarrow> None
              | Some closing \<Rightarrow>
                  Some (map_option (\<lambda>n. take (n - 1) (drop start_position text))
                    (punctuation_loop [closing] (drop start_position text))))))"

section \<open>Global objects and \<open>printf\<close>\<close>

text \<open>\<open>\b([A-Za-z0-9_]*_)\(\1\)\<close>: the group ends where the word ends, because a parenthesis
  follows it.\<close>

definition self_initialization :: "string \<Rightarrow> bool" where
  "self_initialization line =
     list_ex (\<lambda>i.
        (let word = takeWhile re_word (drop i line) in
         at_word_boundary (rev (take i line)) (drop i line) \<and> word \<noteq> [] \<and> last word = CHR ''_'' \<and>
         startswith (drop (i + length word) line) (''('' @ word @ '')'')))
       [0..<length line]"

definition CheckGlobalStatic :: "string \<Rightarrow> CleansedLines \<Rightarrow> nat \<Rightarrow> lint \<Rightarrow> lint" where
  "CheckGlobalStatic filename clean_lines linenum =
     (let line = elided clean_lines ! linenum;
          line = (if linenum + 1 < NumLines clean_lines \<and> \<not> found ''[;({]'' line
                  then line @ py_strip (elided clean_lines ! (linenum + 1)) else line)
      in run
          [(case Match (raw ''((?:|static +)(?:|const +))string +([a-zA-Z0-9_:]+)`b(.*)'') line of
              None \<Rightarrow> id
            | Some m \<Rightarrow>
                error_if (\<not> found (raw ''`bstring`b(`s+const)?`s*`*`s*(const`s+)?`w'') line \<and>
                          \<not> found (raw ''`boperator`W'') line \<and>
                          \<not> matches (raw ''`s*(<.*>)?(::[a-zA-Z0-9_]+)*`s*`(([^'' @ [dquote] @ '']|$)'')
                              (grp m 3))
                  filename linenum ''runtime/string'' 4
                  (''For a static/global string constant, use a C style string instead: '' @
                   [dquote] @ grp m 1 @ ''char '' @ grp m 2 @ ''[]'' @ [dquote] @ ''.'')),
           error_if (self_initialization line) filename linenum ''runtime/init'' 4
             ''You seem to be initializing a member variable with itself.''])"

definition CheckPrintf :: "string \<Rightarrow> CleansedLines \<Rightarrow> nat \<Rightarrow> lint \<Rightarrow> lint" where
  "CheckPrintf filename clean_lines linenum =
     (let line = elided clean_lines ! linenum in
      run
       [(case Search (raw ''snprintf`s*`(([^,]*),`s*([0-9]*)`s*,'') line of
           None \<Rightarrow> id
         | Some m \<Rightarrow>
             error_if (grp m 2 \<noteq> ''0'') filename linenum ''runtime/printf'' 3
               (''If you can, use sizeof('' @ grp m 1 @ '') instead of '' @ grp m 2 @
                '' as the 2nd arg to snprintf.'')),
        error_if (found (raw ''`bsprintf`s*`('') line) filename linenum ''runtime/printf'' 5
          ''Never use sprintf. Use snprintf instead.'',
        (case Search (raw ''`b(strcpy|strcat)`s*`('') line of
           None \<Rightarrow> id
         | Some m \<Rightarrow>
             Error filename (int linenum) ''runtime/printf'' 4
               (''Almost always, snprintf is better than '' @ grp m 1))])"

section \<open>References\<close>

text \<open>The loops back to the start of a function, over at most ten lines.\<close>

definition function_head_pattern :: string where
  "function_head_pattern = raw ''^([^()]*`w+)`(''"

definition function_head :: "CleansedLines \<Rightarrow> nat \<Rightarrow> (nat \<times> nat) option" where
  "function_head cl linenum =
     map_option (\<lambda>i. (i, case Match function_head_pattern (elided cl ! i) of
                            Some m \<Rightarrow> length (grp m 1) | None \<Rightarrow> 0))
       (find (\<lambda>i. matches function_head_pattern (elided cl ! i)) (rev [linenum - 9..<linenum + 1]))"

definition IsDerivedFunction :: "CleansedLines \<Rightarrow> nat \<Rightarrow> bool option" where
  "IsDerivedFunction clean_lines linenum =
     (case function_head clean_lines linenum of
        None \<Rightarrow> Some False
      | Some (i, pos) \<Rightarrow>
          map_option (\<lambda>(line, _, closing_paren).
              closing_paren \<ge> 0 \<and> found (raw ''`boverride`b'') (drop (nat closing_paren) line))
            (CloseExpression clean_lines i pos))"

definition IsOutOfLineMethodDefinition :: "CleansedLines \<Rightarrow> nat \<Rightarrow> bool" where
  "IsOutOfLineMethodDefinition clean_lines linenum =
     (case function_head clean_lines linenum of
        None \<Rightarrow> False
      | Some (i, _) \<Rightarrow> matches (raw ''^[^()]*`w+::`w+`('') (elided clean_lines ! i))"

fun initializer_loop :: "CleansedLines \<Rightarrow> nat \<Rightarrow> nat list \<Rightarrow> bool" where
  "initializer_loop cl linenum [] = False"
| "initializer_loop cl linenum (i # is) =
     (let line = elided cl ! i;
          line = (if i = linenum
                  then (case Match (raw ''^(.*)`{`s*$'') line of Some m \<Rightarrow> grp m 1 | None \<Rightarrow> line)
                  else line)
      in if found (raw ''`s:`s*`w+[({]'') line \<or> found (raw ''`}`s*,`s*$'') line then True
         else if found (raw ''[{};]`s*$'') line then False
         else initializer_loop cl linenum is)"

definition IsInitializerList :: "CleansedLines \<Rightarrow> nat \<Rightarrow> bool" where
  "IsInitializerList clean_lines linenum = initializer_loop clean_lines linenum (rev [2..<linenum + 1])"

definition RE_PATTERN_IDENT :: string where
  "RE_PATTERN_IDENT = raw ''[_a-zA-Z]`w*''"

definition RE_PATTERN_TYPE :: string where
  "RE_PATTERN_TYPE =
     raw ''(?:const`s+)?(?:typename`s+|class`s+|struct`s+|union`s+|enum`s+)?'' @
     raw ''(?:`w|'' @ raw ''`s*<(?:<(?:<[^<>]*>|[^<>])*>|[^<>])*>|'' @ ''::)+''"

definition RE_PATTERN_REF_PARAM :: string where
  "RE_PATTERN_REF_PARAM =
     ''('' @ RE_PATTERN_TYPE @ raw ''(?:`s*(?:`bconst`b|[*]))*`s*'' @
     raw ''&`s*'' @ RE_PATTERN_IDENT @ raw '')`s*(?:=[^,()]+)?[,)]''"

definition RE_PATTERN_CONST_REF_PARAM :: string where
  "RE_PATTERN_CONST_REF_PARAM =
     raw ''(?:.*`s*`bconst`s*&`s*'' @ RE_PATTERN_IDENT @
     raw ''|const`s+'' @ RE_PATTERN_TYPE @ raw ''`s*&`s*'' @ RE_PATTERN_IDENT @ '')''"

text \<open>The line with what was broken off onto the lines above.\<close>

definition joined_reference_line :: "CleansedLines \<Rightarrow> nat \<Rightarrow> string \<Rightarrow> string option" where
  "joined_reference_line clean_lines linenum line =
     (if linenum > 1 then
        (let above = elided clean_lines ! (linenum - 1);
             previous =
               (if matches (raw ''`s*::(?:[`w<>]|::)+`s*&`s*`S'') line
                then Search (raw ''`b((?:const`s*)?(?:[`w<>]|::)+[`w<>])`s*$'') above
                else if matches (raw ''`s*[a-zA-Z_]([`w<>]|::)+`s*&`s*`S'') line
                then Search (raw ''`b((?:const`s*)?(?:[`w<>]|::)+::)`s*$'') above
                else None)
         in case previous of
              Some m \<Rightarrow> Some (grp m 1 @ py_lstrip line)
            | None \<Rightarrow>
                (case rfind_char CHR ''>'' line of
                   None \<Rightarrow> Some line
                 | Some endpos \<Rightarrow>
                     map_option (\<lambda>(_, startline, startpos).
                         if startpos > -1 \<and> startline < linenum
                         then concat (map (\<lambda>i. py_strip (elided clean_lines ! i)) [startline..<linenum + 1])
                         else line)
                       (ReverseCloseExpression clean_lines linenum endpos)))
      else Some line)"

text \<open>The loop over the lines above that may belong to an initializer list.\<close>

fun initializer_above :: "CleansedLines \<Rightarrow> nat list \<Rightarrow> bool" where
  "initializer_above cl [] = False"
| "initializer_above cl (i # is) =
     (if \<not> found (raw ''[),]`s*$'') (elided cl ! i) then False
      else if matches (raw ''^`s*:`s+`S'') (elided cl ! i) then True
      else initializer_above cl is)"

definition whitelisted_functions :: string where
  "whitelisted_functions =
     raw ''(?:[sS]wap(?:<`w:+>)?|'' @ raw ''operator`s*[<>][<>]|'' @ ''static_assert|COMPILE_ASSERT'' @
     raw '')`s*`(''"

definition whitelisted :: "CleansedLines \<Rightarrow> nat \<Rightarrow> string \<Rightarrow> bool" where
  "whitelisted clean_lines linenum line \<longleftrightarrow>
     found whitelisted_functions line \<or>
     \<not> found (raw ''`S+`([^)]*$'') line \<and>
     list_ex (\<lambda>i. linenum > i \<and> found whitelisted_functions (elided clean_lines ! (linenum - i - 1))) [0, 1]"

definition inside_function_body :: "NestingState \<Rightarrow> bool" where
  "inside_function_body nesting_state =
     (case previous_stack_top nesting_state of
        None \<Rightarrow> False
      | Some b \<Rightarrow> (case kind b of ClassBlock _ \<Rightarrow> False | NamespaceBlock _ _ \<Rightarrow> False | _ \<Rightarrow> True))"

definition check_parameters :: "string \<Rightarrow> nat \<Rightarrow> string \<Rightarrow> lint \<Rightarrow> lint" where
  "check_parameters filename linenum line =
     run (map (\<lambda>m.
            error_if (\<not> matches RE_PATTERN_CONST_REF_PARAM (grp m 1)) filename linenum
              ''runtime/references'' 2
              (''Is this a non-const reference? '' @ ''If so, make const or use a pointer: '' @
               re_sub '' *<'' (\<lambda>m. ''<'') (grp m 1)))
           (re_finditer RE_PATTERN_REF_PARAM (re_sub ''{[^}]*}'' (\<lambda>m. '' '') line)))"

definition CheckForNonConstReference ::
    "string \<Rightarrow> CleansedLines \<Rightarrow> nat \<Rightarrow> NestingState \<Rightarrow> lint \<Rightarrow> lint option" where
  "CheckForNonConstReference filename clean_lines linenum nesting_state =
     (if CHR ''&'' \<notin> set (elided clean_lines ! linenum) then ok id
      else
        (case IsDerivedFunction clean_lines linenum of
           None \<Rightarrow> (\<lambda>g. None)
         | Some derived \<Rightarrow>
             if derived \<or> IsOutOfLineMethodDefinition clean_lines linenum then ok id
             else
               (case joined_reference_line clean_lines linenum (elided clean_lines ! linenum) of
                  None \<Rightarrow> (\<lambda>g. None)
                | Some line \<Rightarrow>
                    if inside_function_body nesting_state \<or>
                       linenum > 0 \<and> initializer_above clean_lines (rev [linenum - 10 + 1..<linenum]) \<or>
                       found (raw ''```s*$'') line \<or>
                       IsInitializerList clean_lines linenum \<or>
                       whitelisted clean_lines linenum line
                    then ok id
                    else ok (check_parameters filename linenum line))))"

section \<open>Casts\<close>

definition ExpectingFunctionArgs :: "CleansedLines \<Rightarrow> nat \<Rightarrow> bool" where
  "ExpectingFunctionArgs clean_lines linenum \<longleftrightarrow>
     matches (raw ''^`s*MOCK_(CONST_)?METHOD`d+(_T)?`('') (elided clean_lines ! linenum) \<or>
     linenum \<ge> 2 \<and>
     (matches (raw ''^`s*MOCK_(?:CONST_)?METHOD`d+(?:_T)?`((?:`S+,)?`s*$'')
        (elided clean_lines ! (linenum - 1)) \<or>
      matches (raw ''^`s*MOCK_(?:CONST_)?METHOD`d+(?:_T)?`(`s*$'') (elided clean_lines ! (linenum - 2)) \<or>
      found (raw ''`bstd::m?function`s*`<`s*$'') (elided clean_lines ! (linenum - 1)))"

text \<open>\<open>match.start(n)\<close>.\<close>

definition m_group_start :: "mat \<Rightarrow> nat \<Rightarrow> nat" where
  "m_group_start m n = (case map_of (m_caps m) n of Some (k, _) \<Rightarrow> k | None \<Rightarrow> 0)"

definition cast_excluded :: "CleansedLines \<Rightarrow> nat \<Rightarrow> string \<Rightarrow> bool" where
  "cast_excluded clean_lines linenum context0 \<longleftrightarrow>
     matches (raw ''.*`b(?:sizeof|alignof|alignas|[_A-Z][_A-Z0-9]*)`s*$'') context0 \<or>
     (let wide = concat (map (\<lambda>i. elided clean_lines ! i) [linenum - 5 + 1..<linenum]) @ context0 in
      matches (raw ''.*`b[_A-Z][_A-Z0-9]*`s*`((?:`([^()]*`)|[^()])*$'') wide \<or>
      endswith wide '' operator++'' \<or> endswith wide '' operator--'')"

definition unnamed_parameter :: "string \<Rightarrow> bool" where
  "unnamed_parameter remainder =
     matches (raw ''^`s*(?:;|const`b|throw`b|final`b|override`b|[=>{),]|->)'') remainder"

definition unnamed_allowed :: "string \<Rightarrow> string \<Rightarrow> string \<Rightarrow> bool" where
  "unnamed_allowed remainder before source_line \<longleftrightarrow>
     matches (raw ''^`s*>'') remainder \<or>
     (case Match (raw ''^`s=`s*(`S+)`s*;'') remainder of
        None \<Rightarrow> False | Some matched_zero \<Rightarrow> grp matched_zero 1 \<noteq> ''0'') \<or>
     matches (raw ''.*`)`s*$'') before \<or>
     py_find source_line ''/*'' \<noteq> None"

text \<open>Whether an error was emitted, and what it does to the state.\<close>

definition CheckCStyleCast ::
    "string \<Rightarrow> CleansedLines \<Rightarrow> nat \<Rightarrow> string \<Rightarrow> string \<Rightarrow> bool \<times> (lint \<Rightarrow> lint)" where
  "CheckCStyleCast filename clean_lines linenum cast_type pattern =
     (let line = elided clean_lines ! linenum in
      case Search pattern line of
        None \<Rightarrow> (False, id)
      | Some m \<Rightarrow>
          if cast_excluded clean_lines linenum (take (m_group_start m 1 - 1) line) then (False, id)
          else
            (let remainder = drop (m_end m) line in
             if unnamed_parameter remainder then
               if unnamed_allowed remainder (take (m_start m) line) (raw_lines clean_lines ! linenum)
               then (False, id)
               else (True, Error filename (int linenum) ''readability/function'' 3
                             ''All parameters should be named in a function'')
             else (True, Error filename (int linenum) ''readability/casting'' 4
                           (''Using C-style cast.  Use '' @ cast_type @ ''<'' @ grp m 1 @
                            ''>(...) instead''))))"

definition check_function_cast ::
    "string \<Rightarrow> nat \<Rightarrow> string \<Rightarrow> mat \<Rightarrow> lint \<Rightarrow> lint" where
  "check_function_cast filename linenum line m =
     (let matched_type = grp m 2; matched_funcptr = grp m 3 in
      error_if (m_group m 1 = None \<and>
                \<not> (matched_funcptr \<noteq> [] \<and>
                   (matches (raw ''`((?:[^() ]+::`s*`*`s*)?[^() ]+`)`s*`('') matched_funcptr \<or>
                    startswith matched_funcptr ''(*)'')) \<and>
                \<not> matches (raw ''`s*using`s+`S+`s*=`s*'' @ matched_type) line \<and>
                \<not> found (raw ''new`(`S+`)`s*'' @ matched_type) line)
        filename linenum ''readability/casting'' 4
        (''Using deprecated casting style.  Use static_cast<'' @ matched_type @ ''>(...) instead''))"

text \<open>The better message for the address of something dereferenced from a cast. The index of the
  character after the closing bracket may be outside the line.\<close>

definition address_pattern :: string where
  "address_pattern = raw ''^(.*&(?:static|dynamic|down|reinterpret)_cast`b)<''"

definition parenthesis_error :: "CleansedLines \<Rightarrow> nat \<Rightarrow> string \<Rightarrow> bool option" where
  "parenthesis_error clean_lines linenum line =
     (case Match address_pattern line of
        None \<Rightarrow> Some False
      | Some m \<Rightarrow>
          (case CloseExpression clean_lines linenum (length (grp m 1)) of
             None \<Rightarrow> None
           | Some (_, y1, x1) \<Rightarrow>
               if x1 < 0 then Some False
               else if nat x1 \<ge> length (elided clean_lines ! y1) then None
               else if elided clean_lines ! y1 ! nat x1 = CHR ''('' then
                 map_option (\<lambda>(_, y2, x2).
                     x2 \<ge> 0 \<and>
                     matches (raw ''`s*(?:->|`[)'')
                       (drop (nat x2) (elided clean_lines ! y2) @
                        (if y2 < NumLines clean_lines - 1 then elided clean_lines ! (y2 + 1) else [])))
                   (CloseExpression clean_lines y1 (nat x1))
               else Some False))"

definition check_address_of_cast :: "string \<Rightarrow> CleansedLines \<Rightarrow> nat \<Rightarrow> string \<Rightarrow> lint \<Rightarrow> lint option" where
  "check_address_of_cast filename clean_lines linenum line =
     (if found (raw ''(?:[^`w]&`(([^)*][^)]*)`)[`w(])|'' @
                raw ''(?:[^`w]&(static|dynamic|down|reinterpret)_cast`b)'') line then
        (case parenthesis_error clean_lines linenum line of
           None \<Rightarrow> (\<lambda>g. None)
         | Some True \<Rightarrow>
             ok (Error filename (int linenum) ''readability/casting'' 4
                   (''Are you taking an address of something dereferenced '' @
                    ''from a cast?  Wrapping the dereferenced expression in '' @
                    ''parentheses will make the binding more obvious''))
         | Some False \<Rightarrow>
             ok (Error filename (int linenum) ''runtime/casting'' 4
                   (''Are you taking an address of a cast?  '' @
                    ''This is dangerous: could be a temp var.  '' @
                    ''Take the address before doing the cast, rather than after'')))
      else ok id)"

definition function_cast_pattern :: string where
  "function_cast_pattern =
     raw ''(`bnew`s+|`S<`s*(?:const`s+)?)?`b'' @
     ''(int|float|double|bool|char|int32|uint32|int64|uint64)'' @ raw ''(`([^)].*)''"

text \<open>The code returns from the whole check when the type is followed by an array.\<close>

definition array_after_type :: "mat option \<Rightarrow> bool \<Rightarrow> bool" where
  "array_after_type match expecting_function \<longleftrightarrow>
     (case match of
        None \<Rightarrow> False
      | Some m \<Rightarrow> \<not> expecting_function \<and> matches (raw ''`([^()]+`)`s*`['') (grp m 3))"

definition CheckCasts :: "string \<Rightarrow> CleansedLines \<Rightarrow> nat \<Rightarrow> lint \<Rightarrow> lint option" where
  "CheckCasts filename clean_lines linenum =
     (let line = elided clean_lines ! linenum;
          match = Search function_cast_pattern line;
          expecting_function = ExpectingFunctionArgs clean_lines linenum;
          cast = CheckCStyleCast filename clean_lines linenum;
          const_cast = cast ''const_cast'' (raw ''`((char`s?`*+`s?)`)`s*'' @ [dquote])
      in if array_after_type match expecting_function then ok id
         else
           run_opt
            [ok (case match of
                   None \<Rightarrow> id
                 | Some m \<Rightarrow>
                     if expecting_function then id else check_function_cast filename linenum line m),
             ok (if expecting_function then id
                 else snd (cast ''static_cast''
                             (raw ''`((int|float|double|bool|char|u?int(16|32|64))`)''))),
             ok (snd const_cast),
             ok (if fst const_cast then id
                 else snd (cast ''reinterpret_cast'' (raw ''`((`w+`s?`*+`s?)`)''))),
             check_address_of_cast filename clean_lines linenum line])"

section \<open>\<open>CheckLanguage\<close>\<close>

text \<open>\<open>re.split\<close>, for a pattern that does not match the empty text.\<close>

function split_at :: "re \<Rightarrow> string \<Rightarrow> string \<Rightarrow> string \<Rightarrow> string list" where
  "split_at r p piece [] = [piece]"
| "split_at r p piece (c # s) =
     (case match_at r p (c # s) of
        Some m \<Rightarrow>
          if m_text m = [] then split_at r (c # p) (piece @ [c]) s
          else piece # split_at r (rev (m_text m) @ p) [] (drop (length (m_text m)) (c # s))
      | None \<Rightarrow> split_at r (c # p) (piece @ [c]) s)"
  by pat_completeness auto
termination
proof (relation "measure (\<lambda>(r, p, piece, s). length s)", goal_cases)
  case (3 r p piece c s m)
  then show ?case by (cases "m_text m") auto
qed auto

definition re_split :: "string \<Rightarrow> string \<Rightarrow> string list" where
  "re_split pat s = (case re_compile pat of None \<Rightarrow> [s] | Some r \<Rightarrow> split_at r [] [] s)"

definition constant_token :: "string \<Rightarrow> bool" where
  "constant_token tok \<longleftrightarrow>
     tok = [] \<or> matches (raw ''`d+'') tok \<or> matches ''0[xX][0-9a-fA-F]+'' tok \<or>
     matches (raw ''k[A-Z0-9]`w*'') tok \<or> matches (raw ''(.+::)?k[A-Z0-9]`w*'') tok \<or>
     matches ''(.+::)?[A-Z][A-Z0-9_]*'' tok"

text \<open>The loop over the tokens of the size of an array.\<close>

fun constant_size :: "bool \<Rightarrow> string list \<Rightarrow> bool" where
  "constant_size skip_next [] = True"
| "constant_size skip_next (tok # toks) =
     (if skip_next then constant_size False toks
      else if found (raw ''sizeof`(.+`)'') tok \<or> found (raw ''arraysize`(`w+`)'') tok
      then constant_size False toks
      else
        (let tok = rev (dropWhile (\<lambda>c. c = CHR '')'') (rev (dropWhile (\<lambda>c. c = CHR ''('') tok))) in
         if constant_token tok then constant_size False toks
         else if startswith tok ''sizeof'' then constant_size True toks
         else False))"

definition array_size_pattern :: string where
  "array_size_pattern = raw ''`s|`+|`-|`*|`/|<<|>>]''"

definition check_arrays :: "string \<Rightarrow> nat \<Rightarrow> string \<Rightarrow> lint \<Rightarrow> lint" where
  "check_arrays filename linenum line =
     (case Match (raw ''`s*(.+::)?(`w+) [a-z]`w*`[(.+)];'') line of
        None \<Rightarrow> id
      | Some m \<Rightarrow>
          error_if (grp m 2 \<noteq> ''return'' \<and> grp m 2 \<noteq> ''delete'' \<and> CHR '']'' \<notin> set (grp m 3) \<and>
                    \<not> constant_size False (re_split array_size_pattern (grp m 3)))
            filename linenum ''runtime/arrays'' 1
            (''Do not use variable-length arrays.  Use an appropriately named '' @
             ''('' @ [squote] @ ''k'' @ [squote] @
             '' followed by CamelCase) compile-time constant for the size.''))"

definition check_printf_args :: "string \<Rightarrow> nat \<Rightarrow> string \<Rightarrow> lint \<Rightarrow> lint option" where
  "check_printf_args filename linenum line =
     (case GetTextInside line (search_ignorecase (raw ''`b(string)?printf`s*`('') line) of
        None \<Rightarrow> (\<lambda>g. None)
      | Some None \<Rightarrow> ok id
      | Some (Some printf_args) \<Rightarrow>
          (case Match (raw ''([`w.`->()]+)$'') printf_args of
             None \<Rightarrow> ok id
           | Some m \<Rightarrow>
               if printf_args = [] \<or> grp m 1 = ''__VA_ARGS__'' then ok id
               else
                 (case search_ignorecase (raw ''`b((?:string)?printf)`s*`('') line of
                    None \<Rightarrow> (\<lambda>g. None)
                  | Some f \<Rightarrow>
                      (let function_name = take (length (grp f 1)) (drop (m_group_start f 1) line) in
                       ok (Error filename (int linenum) ''runtime/printf'' 4
                             (''Potential format string bug. Do '' @ function_name @ ''('' @ [dquote] @
                              ''%s'' @ [dquote] @ '', '' @ grp m 1 @ '') instead.''))))))"

definition check_types_and_operators :: "string \<Rightarrow> nat \<Rightarrow> string \<Rightarrow> lint \<Rightarrow> lint" where
  "check_types_and_operators filename linenum line =
     run
      [(if found (raw ''`bshort port`b'') line then
          error_if (\<not> found (raw ''`bunsigned short port`b'') line) filename linenum ''runtime/int'' 4
            (''Use '' @ [dquote] @ ''unsigned short'' @ [dquote] @ '' for ports, not '' @
             [dquote] @ ''short'' @ [dquote])
        else
          (case Search (raw ''`b(short|long(?! +double)|long long)`b'') line of
             None \<Rightarrow> id
           | Some m \<Rightarrow>
               Error filename (int linenum) ''runtime/int'' 4
                 (''Use int16/int64/etc, rather than the C type '' @ grp m 1))),
       error_if (found (raw ''`boperator`s*&`s*`(`s*`)'') line) filename linenum ''runtime/operator'' 4
         ''Unary operator& is dangerous.  Do not use it.'',
       error_if (found (raw ''`}`s*if`s*`('') line) filename linenum ''readability/braces'' 4
         (''Did you mean '' @ [dquote] @ ''else if'' @ [dquote] @ ''? If not, start a new line for '' @
          [dquote] @ ''if'' @ [dquote] @ ''.'')]"

definition check_memset_and_using :: "string \<Rightarrow> nat \<Rightarrow> string \<Rightarrow> lint \<Rightarrow> lint" where
  "check_memset_and_using filename linenum line =
     run
      [(case Search (raw ''memset`s*`(([^,]*),`s*([^,]*),`s*0`s*`)'') line of
          None \<Rightarrow> id
        | Some m \<Rightarrow>
            error_if (\<not> matches (''^'' @ [squote, squote] @ ''|-?[0-9]+|0x[0-9A-Fa-f]$'') (grp m 2))
              filename linenum ''runtime/memset'' 4
              (''Did you mean '' @ [dquote] @ ''memset('' @ grp m 1 @ '', 0, '' @ grp m 2 @ '')'' @
               [dquote] @ ''?'')),
       error_if (found (raw ''`busing namespace`b'') line) filename linenum ''build/namespaces'' 5
         (''Do not use namespace using-directives.  '' @ ''Use using-declarations instead.'')]"

text \<open>The include state and the state of the linter; an include line is only checked as such.\<close>

definition CheckLanguage ::
    "file_system \<Rightarrow> string \<Rightarrow> CleansedLines \<Rightarrow> nat \<Rightarrow> string \<Rightarrow> IncludeState \<times> lint \<Rightarrow>
       (IncludeState \<times> lint) option" where
  "CheckLanguage fs filename clean_lines linenum file_extension sg =
     (case sg of (include_state, g) \<Rightarrow>
        (let line = elided clean_lines ! linenum in
         if line = [] then Some sg
         else if found RE_PATTERN_INCLUDE line then
           CheckIncludeLine fs filename clean_lines (int linenum) include_state g
         else
           (let include_state =
              (case Match (raw ''^`s*#`s*(if|ifdef|ifndef|elif|else|endif)`b'') line of
                 Some m \<Rightarrow> ResetSection (grp m 1) include_state
               | None \<Rightarrow> include_state)
            in map_option (Pair include_state)
                 (run_opt
                   [CheckCasts filename clean_lines linenum,
                    ok (CheckGlobalStatic filename clean_lines linenum),
                    ok (CheckPrintf filename clean_lines linenum),
                    ok (check_types_and_operators filename linenum line),
                    check_printf_args filename linenum line,
                    ok (check_memset_and_using filename linenum line),
                    ok (check_arrays filename linenum line),
                    ok (error_if (file_extension = ''h'' \<and> found (raw ''`bnamespace`s*{'') line \<and>
                                  last line \<noteq> backslash)
                          filename linenum ''build/namespaces'' 4
                          (''Do not use unnamed namespaces in header files.  See '' @
                           ''http://google-styleguide.googlecode.com/svn/trunk/cppguide.xml#Namespaces'' @
                           '' for more information.''))] g))))"

section \<open>The contract\<close>

interpretation global_static: lint_check "CheckGlobalStatic filename cl linenum"
  by (auto simp: CheckGlobalStatic_def Let_def checks split: option.split)

interpretation printf: lint_check "CheckPrintf filename cl linenum"
  by (auto simp: CheckPrintf_def Let_def checks split: option.split)

interpretation parameters: lint_check "check_parameters filename linenum line"
  by (simp add: check_parameters_def checks list_all_iff)

interpretation references: partial_check "CheckForNonConstReference filename cl linenum ns"
  by (auto simp: CheckForNonConstReference_def checks parameters.lint_check_axioms split: option.split)

interpretation c_style_cast: lint_check "snd (CheckCStyleCast filename cl linenum cast_type pattern)"
  by (auto simp: CheckCStyleCast_def Let_def checks split: option.split)

interpretation address_of_cast: partial_check "check_address_of_cast filename cl linenum line"
  by (auto simp: check_address_of_cast_def checks split: option.split bool.split)

interpretation function_cast: lint_check "check_function_cast filename linenum line m"
  by (simp add: check_function_cast_def Let_def checks)

interpretation casts: partial_check "CheckCasts filename cl linenum"
  by (auto simp: CheckCasts_def Let_def checks c_style_cast.lint_check_axioms
      address_of_cast.partial_check_axioms function_cast.lint_check_axioms split: option.split)

interpretation arrays: lint_check "check_arrays filename linenum line"
  by (auto simp: check_arrays_def checks split: option.split)

interpretation printf_args: partial_check "check_printf_args filename linenum line"
  by (auto simp: check_printf_args_def Let_def checks split: option.split)

interpretation types_and_operators: lint_check "check_types_and_operators filename linenum line"
  by (auto simp: check_types_and_operators_def checks split: option.split)

interpretation memset_and_using: lint_check "check_memset_and_using filename linenum line"
  by (auto simp: check_memset_and_using_def checks split: option.split)

lemmas [checks] =
  global_static.lint_check_axioms printf.lint_check_axioms references.partial_check_axioms
  casts.partial_check_axioms arrays.lint_check_axioms printf_args.partial_check_axioms
  types_and_operators.lint_check_axioms memset_and_using.lint_check_axioms

section \<open>What \<open>_GetTextInside\<close> returns\<close>

definition punctuation :: "char \<Rightarrow> bool" where
  "punctuation c \<longleftrightarrow> c \<in> set closers \<or> matching_punctuation c \<noteq> None"

inductive nested :: "string \<Rightarrow> bool" where
  empty: "nested []"
| plain: "\<not> punctuation c \<Longrightarrow> nested s \<Longrightarrow> nested (c # s)"
| pair: "matching_punctuation c = Some d \<Longrightarrow> nested s \<Longrightarrow> nested t \<Longrightarrow> nested (c # s @ d # t)"

lemma punctuation_loop_nested:
  "punctuation_loop (e # st) xs = Some n \<Longrightarrow>
     \<exists>w rest. xs = w @ e # rest \<and> nested w \<and> (\<exists>k. punctuation_loop st rest = Some k \<and> n = Suc (length w + k))"
proof (induction "length xs" arbitrary: e st xs n rule: less_induct)
  case less
  then obtain c t where xs: "xs = c # t" by (cases xs) auto
  have IH: "\<exists>w rest. t' = w @ e' # rest \<and> nested w \<and>
      (\<exists>k. punctuation_loop st' rest = Some k \<and> n' = Suc (length w + k))"
    if "length t' < length xs" "punctuation_loop (e' # st') t' = Some n'" for e' st' t' n'
    using less.hyps that by blast
  show ?case
  proof (cases "c = e")
    case True
    with less.prems xs show ?thesis by (intro exI [of _ "[]"] exI [of _ t]) (auto intro: nested.empty)
  next
    case False
    with less.prems xs have nc: "c \<notin> set closers" by (auto split: if_splits)
    show ?thesis
    proof (cases "matching_punctuation c")
      case None
      with False nc less.prems xs obtain k where "punctuation_loop (e # st) t = Some k" "n = Suc k" by auto
      with IH [of t e st k] xs obtain w rest j where "t = w @ e # rest" "nested w"
        "punctuation_loop st rest = Some j" "k = Suc (length w + j)" by auto
      with None nc xs \<open>n = Suc k\<close> show ?thesis
        by (intro exI [of _ "c # w"] exI [of _ rest]) (auto simp: punctuation_def intro: nested.plain)
    next
      case (Some d)
      with False nc less.prems xs obtain k where "punctuation_loop (d # e # st) t = Some k" "n = Suc k"
        by auto
      with IH [of t d "e # st" k] xs obtain w r j where w: "t = w @ d # r" "nested w"
        "punctuation_loop (e # st) r = Some j" "k = Suc (length w + j)" by auto
      with IH [of r e st j] xs obtain v rest i where "r = v @ e # rest" "nested v"
        "punctuation_loop st rest = Some i" "j = Suc (length v + i)" by auto
      with w Some xs \<open>n = Suc k\<close> show ?thesis
        by (intro exI [of _ "c # w @ d # v"] exI [of _ rest]) (auto intro: nested.pair)
    qed
  qed
qed

lemma punctuation_kinds: "matching_punctuation c = Some d \<Longrightarrow> d \<in> set closers \<and> c \<notin> set closers"
  by (auto simp: matching_punctuation_def split: if_splits)

lemma nested_punctuation_loop:
  "nested w \<Longrightarrow> e \<in> set closers \<Longrightarrow>
     punctuation_loop (e # st) (w @ t) = map_option (\<lambda>n. length w + n) (punctuation_loop (e # st) t)"
proof (induction w arbitrary: e st t rule: nested.induct)
  case empty
  then show ?case by (cases "punctuation_loop (e # st) t") simp_all
next
  case (plain c s)
  then have "c \<noteq> e" "c \<notin> set closers" "matching_punctuation c = None" by (auto simp: punctuation_def)
  with plain show ?case by (simp add: option.map_comp comp_def)
next
  case (pair c d s t')
  then have "c \<noteq> e" "c \<notin> set closers" "d \<in> set closers" using punctuation_kinds by blast+
  with pair show ?case by (simp add: option.map_comp comp_def add.assoc)
qed

text \<open>C33: The text that \<open>_GetTextInside\<close> returns is the nested text between the bracket at the end of the start
  pattern and the bracket that closes it; it is returned whenever there is one.\<close>

theorem GetTextInside_nested:
  "GetTextInside text (Some m) = Some (Some inside) \<longleftrightarrow>
     0 < m_end m \<and> nested inside \<and>
     (\<exists>closing rest. matching_punctuation (text ! (m_end m - 1)) = Some closing \<and>
        drop (m_end m) text = inside @ closing # rest)" (is "?l \<longleftrightarrow> ?r")
proof
  assume ?l
  then obtain closing n where "0 < m_end m" and c: "matching_punctuation (text ! (m_end m - 1)) = Some closing"
    and n: "punctuation_loop [closing] (drop (m_end m) text) = Some n"
    and inside: "inside = take (n - 1) (drop (m_end m) text)"
    by (auto simp: GetTextInside_def Let_def split: if_splits option.splits)
  moreover from punctuation_loop_nested [OF n] obtain w rest where
    w: "drop (m_end m) text = w @ closing # rest" "nested w" "n = Suc (length w)" by auto
  moreover have "inside = w" using inside w by simp
  ultimately show ?r by blast
next
  assume ?r
  then obtain closing rest where r: "0 < m_end m" "nested inside"
    "matching_punctuation (text ! (m_end m - 1)) = Some closing" "drop (m_end m) text = inside @ closing # rest"
    by blast
  then have "punctuation_loop [closing] (drop (m_end m) text) = Some (Suc (length inside))"
    using nested_punctuation_loop [OF r(2)] punctuation_kinds by auto
  with r show ?l by (simp add: GetTextInside_def)
qed

section \<open>Defects\<close>

text \<open>The right shift is not among the operators that separate the size of an array, so a
  constant size with one is reported.\<close>

lemma right_shift_reported:
  "constant_size False (re_split array_size_pattern ''kSize << 1'')"
  "\<not> constant_size False (re_split array_size_pattern ''kSize >> 1'')"
  by code_simp+

text \<open>A cast whose address is taken and whose argument starts on the next line ends the linter with
  an \<open>IndexError\<close>.\<close>

definition cast_example :: CleansedLines where
  "cast_example =
     (let ls = [[], '' &static_cast<A>'', ''(b);''] in
      \<lparr>elided = ls, lines = ls, raw_lines = ls, num_lines = 3, lines_without_raw_strings = ls\<rparr>)"

lemma cast_index_error:
  "check_address_of_cast ''a.cc'' cast_example 1 (elided cast_example ! 1) g = None"
proof -
  have "found (raw ''(?:[^`w]&`(([^)*][^)]*)`)[`w(])|'' @
      raw ''(?:[^`w]&(static|dynamic|down|reinterpret)_cast`b)'') (elided cast_example ! 1)"
    by code_simp
  moreover have "parenthesis_error cast_example 1 (elided cast_example ! 1) = None" by code_simp
  ultimately show ?thesis by (simp add: check_address_of_cast_def)
qed

end
