(* ===== verification/Lint_Usage.thy ===== *)
theory Lint_Usage
  imports Lint_Language
begin

text \<open>
  Checks of the use of the standard library and of C++11 in \<^verbatim>\<open>build-support/cpplint.py\<close>: the headers that
  a file must include, \<open>make_pair\<close>, lambda captures, virtual specifiers, the indentation in
  namespaces and \<open>FlagCxx11Features\<close>. Files are read through the parameter \<open>io\<close>, which gives the
  lines of a file, or \<open>None\<close> for an \<open>IOError\<close>. A dictionary is a list of pairs in the order of insertion;
  Python 2 iterates over it in an order of its own, which only changes the order of the messages.
\<close>

section \<open>Include what you use\<close>

definition HEADERS_CONTAINING_TEMPLATES :: "(string \<times> string list) list" where
  "HEADERS_CONTAINING_TEMPLATES =
     [(''<deque>'', [''deque'']),
      (''<functional>'',
        [''unary_function'', ''binary_function'', ''plus'', ''minus'', ''multiplies'', ''divides'', ''modulus'',
         ''negate'', ''equal_to'', ''not_equal_to'', ''greater'', ''less'', ''greater_equal'', ''less_equal'',
         ''logical_and'', ''logical_or'', ''logical_not'', ''unary_negate'', ''not1'', ''binary_negate'', ''not2'',
         ''bind1st'', ''bind2nd'', ''pointer_to_unary_function'', ''pointer_to_binary_function'', ''ptr_fun'',
         ''mem_fun_t'', ''mem_fun'', ''mem_fun1_t'', ''mem_fun1_ref_t'', ''mem_fun_ref_t'', ''const_mem_fun_t'',
         ''const_mem_fun1_t'', ''const_mem_fun_ref_t'', ''const_mem_fun1_ref_t'', ''mem_fun_ref'']),
      (''<limits>'', [''numeric_limits'']),
      (''<list>'', [''list'']),
      (''<map>'', [''map'', ''multimap'']),
      (''<memory>'', [''allocator'']),
      (''<queue>'', [''queue'', ''priority_queue'']),
      (''<set>'', [''set'', ''multiset'']),
      (''<stack>'', [''stack'']),
      (''<string>'', [''char_traits'', ''basic_string'']),
      (''<tuple>'', [''tuple'']),
      (''<utility>'', [''pair'']),
      (''<vector>'', [''vector'']),
      (''<hash_map>'', [''hash_map'', ''hash_multimap'']),
      (''<hash_set>'', [''hash_set'', ''hash_multiset'']),
      (''<slist>'', [''slist''])]"

definition RE_PATTERN_STRING :: string where
  "RE_PATTERN_STRING = raw ''`bstring`b''"

definition re_pattern_algorithm_header :: "(string \<times> string \<times> string) list" where
  "re_pattern_algorithm_header =
     map (\<lambda>template. (raw ''[^>.]`b'' @ template @ raw ''(<.*?>)?`([^`)]'', template, ''<algorithm>''))
       [''copy'', ''max'', ''min'', ''min_element'', ''sort'', ''swap'', ''transform'']"

definition re_pattern_templates :: "(string \<times> string \<times> string) list" where
  "re_pattern_templates =
     concat (map (\<lambda>(header, templates).
         map (\<lambda>template. (raw ''(`<|`b)'' @ template @ raw ''`s*`<'', template @ ''<>'', header)) templates)
       HEADERS_CONTAINING_TEMPLATES)"

type_synonym 'v dict = "(string \<times> 'v) list"

definition dict_set :: "string \<Rightarrow> 'v \<Rightarrow> 'v dict \<Rightarrow> 'v dict" where
  "dict_set k v d =
     (if k \<in> set (map fst d) then map (\<lambda>(k', v'). if k' = k then (k', v) else (k', v')) d else d @ [(k, v)])"

definition require_patterns ::
    "(string \<times> string \<times> string) list \<Rightarrow> nat \<Rightarrow> string \<Rightarrow> (nat \<times> string) dict \<Rightarrow> (nat \<times> string) dict" where
  "require_patterns patterns linenum line required =
     fold (\<lambda>(pattern, template, header) required.
             if found pattern line then dict_set header (linenum, template) required else required)
       patterns required"

definition require_string :: "nat \<Rightarrow> string \<Rightarrow> (nat \<times> string) dict \<Rightarrow> (nat \<times> string) dict" where
  "require_string linenum line required =
     (case Search RE_PATTERN_STRING line of
        None \<Rightarrow> required
      | Some matched \<Rightarrow>
          (let before = take (m_start matched) line in
           if endswith before ''std::'' \<or> \<not> endswith before ''::''
           then dict_set ''<string>'' (linenum, ''string'') required else required))"

definition require_line :: "nat \<times> string \<Rightarrow> (nat \<times> string) dict \<Rightarrow> (nat \<times> string) dict" where
  "require_line ln required =
     (case ln of (linenum, line) \<Rightarrow>
        if line = [] \<or> hd line = CHR ''#'' then required
        else
          (let required = require_string linenum line required;
               required = require_patterns re_pattern_algorithm_header linenum line required
           in if CHR ''<'' \<notin> set line then required
              else require_patterns re_pattern_templates linenum line required))"

definition required_headers :: "CleansedLines \<Rightarrow> (nat \<times> string) dict" where
  "required_headers clean_lines =
     fold require_line (map (\<lambda>i. (i, elided clean_lines ! i)) [0..<NumLines clean_lines]) []"

type_synonym io = "string \<Rightarrow> string list option"

definition include_of_line :: "nat \<times> string \<Rightarrow> int dict \<Rightarrow> int dict" where
  "include_of_line ln include_dict =
     (case ln of (linenum, line) \<Rightarrow>
        (case Search RE_PATTERN_INCLUDE (CleanseComments line) of
           None \<Rightarrow> include_dict
         | Some m \<Rightarrow>
             if grp m 2 \<in> set (map fst include_dict) then include_dict
             else include_dict @ [(grp m 2, int linenum)]))"

definition UpdateIncludeState :: "io \<Rightarrow> string \<Rightarrow> int dict \<Rightarrow> bool \<times> int dict" where
  "UpdateIncludeState io filename include_dict =
     (case io filename of
        None \<Rightarrow> (False, include_dict)
      | Some ls \<Rightarrow> (True, fold include_of_line (enumerate 1 ls) include_dict))"

definition try_header :: "io \<Rightarrow> string \<Rightarrow> string \<Rightarrow> bool \<times> int dict \<Rightarrow> bool \<times> int dict" where
  "try_header io abs_filename header fd =
     (case fd of (header_found, include_dict) \<Rightarrow>
        (case FilesBelongToSameModule abs_filename header of
           (same_module, common_path) \<Rightarrow>
             if same_module then
               (case UpdateIncludeState io (common_path @ header) include_dict of
                  (added, include_dict) \<Rightarrow> (header_found \<or> added, include_dict))
             else fd))"

definition report_required ::
    "string \<Rightarrow> int dict \<Rightarrow> string \<times> nat \<times> string \<Rightarrow> lint \<Rightarrow> lint" where
  "report_required filename include_dict entry =
     (case entry of (header, linenum, template) \<Rightarrow>
        (let stripped = rev (dropWhile (\<lambda>c. c \<in> set (''<>'' @ [dquote]))
                          (rev (dropWhile (\<lambda>c. c \<in> set (''<>'' @ [dquote])) header)))
         in error_if (stripped \<notin> set (map fst include_dict)) filename linenum
              ''build/include_what_you_use'' 4 (''Add #include '' @ header @ '' for '' @ template)))"

definition CheckForIncludeWhatYouUse ::
    "file_system \<Rightarrow> io \<Rightarrow> string \<Rightarrow> CleansedLines \<Rightarrow> IncludeState \<Rightarrow> lint \<Rightarrow> lint" where
  "CheckForIncludeWhatYouUse fs io filename clean_lines include_state =
     (let required = required_headers clean_lines;
          include_dict = fold (\<lambda>(k, v). dict_set k v) (concat (include_list include_state)) [];
          abs_filename = re_sub (raw ''_flymake`.cc$'') (\<lambda>m. ''.cc'') (FullName fs filename);
          (header_found, include_dict) =
            fold (try_header io abs_filename) (map fst include_dict) (False, include_dict)
      in if endswith filename ''.cc'' \<and> \<not> header_found then id
         else run (map (report_required filename include_dict) required))"

section \<open>C++11\<close>

definition CheckMakePairUsesDeduction :: "string \<Rightarrow> CleansedLines \<Rightarrow> nat \<Rightarrow> lint \<Rightarrow> lint" where
  "CheckMakePairUsesDeduction filename clean_lines linenum =
     error_if (found (raw ''`bmake_pair`s*<'') (elided clean_lines ! linenum)) filename linenum
       ''build/explicit_make_pair'' 4
       (''For C++11-compatibility, omit template arguments from make_pair'' @
        '' OR use pair directly OR if appropriate, construct a pair directly'')"

definition lambda_pattern :: string where
  "lambda_pattern = raw ''^(.*)`[`s*(?:=|&[^`w])''"

definition CheckDefaultLambdaCaptures :: "string \<Rightarrow> CleansedLines \<Rightarrow> nat \<Rightarrow> lint \<Rightarrow> lint option" where
  "CheckDefaultLambdaCaptures filename clean_lines linenum =
     (case Match lambda_pattern (elided clean_lines ! linenum) of
        None \<Rightarrow> ok id
      | Some m \<Rightarrow>
          (case CloseExpression clean_lines linenum (length (grp m 1)) of
             None \<Rightarrow> (\<lambda>g. None)
           | Some (line, _, pos) \<Rightarrow>
               ok (error_if (pos \<ge> 0 \<and> matches (raw ''^`s*[{(]'') (drop (nat pos) line))
                     filename linenum ''build/c++11'' 4
                     ''Default lambda captures are an unapproved C++ feature.'')))"

text \<open>The loop to the parameter list: the line and the column of its parenthesis.\<close>

definition parameter_pattern :: string where
  "parameter_pattern = raw ''^([^(]*)`(''"

fun find_parameters :: "CleansedLines \<Rightarrow> nat \<Rightarrow> nat list \<Rightarrow> (nat \<times> nat) option" where
  "find_parameters cl start_col [] = None"
| "find_parameters cl start_col (start_line # ls) =
     (case Match parameter_pattern (drop start_col (elided cl ! start_line)) of
        Some m \<Rightarrow> Some (start_line, start_col + length (grp m 1))
      | None \<Rightarrow> find_parameters cl 0 ls)"

fun check_specifiers :: "string \<Rightarrow> CleansedLines \<Rightarrow> nat \<Rightarrow> nat \<Rightarrow> nat list \<Rightarrow> lint \<Rightarrow> lint" where
  "check_specifiers filename cl linenum end_col [] = id"
| "check_specifiers filename cl linenum end_col (i # is) =
     (let line = drop end_col (elided cl ! i) in
      run
       [(case Search (raw ''`b(override|final)`b'') line of
           None \<Rightarrow> id
         | Some m \<Rightarrow>
             Error filename (int linenum) ''readability/inheritance'' 4
               ([dquote] @ ''virtual'' @ [dquote] @ '' is redundant since function is '' @
                ''already declared as '' @ [dquote] @ grp m 1 @ [dquote])),
        (if found (raw ''[^`w]`s*$'') line then id else check_specifiers filename cl linenum 0 is)])"

definition CheckRedundantVirtual :: "string \<Rightarrow> CleansedLines \<Rightarrow> nat \<Rightarrow> lint \<Rightarrow> lint option" where
  "CheckRedundantVirtual filename clean_lines linenum =
     (let line = elided clean_lines ! linenum in
      case Match (raw ''^(.*)(`bvirtual`b)(.*)$'') line of
        None \<Rightarrow> ok id
      | Some virtual \<Rightarrow>
          if found (raw ''`b(public|protected|private)`s+$'') (grp virtual 1) \<or>
             matches (raw ''^`s+(public|protected|private)`b'') (grp virtual 3) \<or>
             matches ''^.*[^:]:[^:].*$'' line then ok id
          else
            (case find_parameters clean_lines (length (grp virtual 2))
                    [linenum..<min (linenum + 3) (NumLines clean_lines)] of
               None \<Rightarrow> ok id
             | Some (start_line, start_col) \<Rightarrow>
                 (case CloseExpression clean_lines start_line start_col of
                    None \<Rightarrow> (\<lambda>g. None)
                  | Some (_, end_line, end_col) \<Rightarrow>
                      if end_col < 0 then ok id
                      else ok (check_specifiers filename clean_lines linenum (nat end_col)
                                 [end_line..<min (end_line + 3) (NumLines clean_lines)]))))"

definition CheckRedundantOverrideOrFinal :: "string \<Rightarrow> CleansedLines \<Rightarrow> nat \<Rightarrow> lint \<Rightarrow> lint" where
  "CheckRedundantOverrideOrFinal filename clean_lines linenum =
     (let line = elided clean_lines ! linenum;
          fragment =
            (case rfind_char CHR '')'' line of
               Some declarator_end \<Rightarrow> Some (drop declarator_end line)
             | None \<Rightarrow>
                 if linenum > 1 \<and> CHR '')'' \<in> set (elided clean_lines ! (linenum - 1))
                 then Some line else None)
      in case fragment of
           None \<Rightarrow> id
         | Some fragment \<Rightarrow>
             error_if (found (raw ''`boverride`b'') fragment \<and> found (raw ''`bfinal`b'') fragment)
               filename linenum ''readability/inheritance'' 4
               ([dquote] @ ''override'' @ [dquote] @ '' is redundant since function is '' @
                ''already declared as '' @ [dquote] @ ''final'' @ [dquote]))"

definition unapproved_headers :: "string list" where
  "unapproved_headers =
     [''cfenv'', ''condition_variable'', ''fenv.h'', ''future'', ''mutex'', ''thread'', ''chrono'', ''ratio'',
      ''regex'', ''system_error'']"

definition FlagCxx11Features :: "string \<Rightarrow> CleansedLines \<Rightarrow> nat \<Rightarrow> lint \<Rightarrow> lint" where
  "FlagCxx11Features filename clean_lines linenum =
     (let line = elided clean_lines ! linenum in
      run
       [(case Match (raw ''`s*#`s*include`s+[<'' @ [dquote] @ ''](['' @ ''^<'' @ [dquote] @ '']+)['' @
                     [dquote] @ ''>]'') line of
           None \<Rightarrow> id
         | Some incl \<Rightarrow>
             error_if (grp incl 1 \<in> set unapproved_headers) filename linenum ''build/c++11'' 5
               (''<'' @ grp incl 1 @ ''> is an unapproved C++11 header.'')),
        (if matches (raw ''`s*#'') line \<and> \<not> matches (raw ''`s*#`s*define`b'') line then id
         else
           run (map (\<lambda>top_name.
                  error_if (found (raw ''`bstd::'' @ top_name @ raw ''`b'') line) filename linenum
                    ''build/c++11'' 5
                    (''std::'' @ top_name @ '' is an unapproved C++11 class or function.  Send c-style '' @
                     ''an example of where it would make your code more readable, and '' @
                     ''they may let you use it.''))
                [''alignment_of'', ''aligned_union'']))])"

section \<open>Namespaces\<close>

definition is_namespace :: "BlockInfo \<Rightarrow> bool" where
  "is_namespace b = (case kind b of NamespaceBlock _ _ \<Rightarrow> True | _ \<Rightarrow> False)"

definition IsBlockInNameSpace :: "NestingState \<Rightarrow> bool \<Rightarrow> bool" where
  "IsBlockInNameSpace nesting_state is_forward_declaration \<longleftrightarrow>
     (if is_forward_declaration then
        block_stack nesting_state \<noteq> [] \<and> is_namespace (hd (block_stack nesting_state))
      else
        length (block_stack nesting_state) > 1 \<and>
        check_namespace_indentation (hd (block_stack nesting_state)) \<and>
        is_namespace (block_stack nesting_state ! 1))"

definition ShouldCheckNamespaceIndentation :: "NestingState \<Rightarrow> bool \<Rightarrow> string list \<Rightarrow> nat \<Rightarrow> bool" where
  "ShouldCheckNamespaceIndentation nesting_state is_namespace_indent_item raw_lines_no_comments linenum \<longleftrightarrow>
     (let is_forward_declaration = IsForwardClassDeclaration raw_lines_no_comments linenum in
      (is_namespace_indent_item \<or> is_forward_declaration) \<and>
      \<not> IsMacroDefinition raw_lines_no_comments linenum \<and>
      IsBlockInNameSpace nesting_state is_forward_declaration)"

definition CheckItemIndentationInNamespace :: "string \<Rightarrow> string list \<Rightarrow> nat \<Rightarrow> lint \<Rightarrow> lint" where
  "CheckItemIndentationInNamespace filename raw_lines_no_comments linenum =
     error_if (matches (raw ''^`s+'') (raw_lines_no_comments ! linenum)) filename linenum
       ''runtime/indentation_namespace'' 4 ''Do not indent within a namespace''"

text \<open>Objects are compared by their identity.\<close>

definition CheckForNamespaceIndentation ::
    "string \<Rightarrow> NestingState \<Rightarrow> CleansedLines \<Rightarrow> nat \<Rightarrow> lint \<Rightarrow> lint" where
  "CheckForNamespaceIndentation filename nesting_state clean_lines line =
     (let is_namespace_indent_item =
        (length (block_stack nesting_state) > 1 \<and>
         check_namespace_indentation (hd (block_stack nesting_state)) \<and>
         (case previous_stack_top nesting_state of
            None \<Rightarrow> False
          | Some b \<Rightarrow> is_namespace b \<and> block_id b = block_id (block_stack nesting_state ! 1)))
      in if ShouldCheckNamespaceIndentation nesting_state is_namespace_indent_item (elided clean_lines) line
         then CheckItemIndentationInNamespace filename (elided clean_lines) line
         else id)"

section \<open>The contract\<close>

interpretation include_what_you_use: lint_check "CheckForIncludeWhatYouUse fs io filename cl st"
  by (auto simp: CheckForIncludeWhatYouUse_def report_required_def Let_def checks list_all_iff
      split: prod.split)

interpretation make_pair: lint_check "CheckMakePairUsesDeduction filename cl linenum"
  by (simp add: CheckMakePairUsesDeduction_def checks)

interpretation lambda_captures: partial_check "CheckDefaultLambdaCaptures filename cl linenum"
  by (auto simp: CheckDefaultLambdaCaptures_def checks split: option.split)

interpretation specifiers: lint_check "check_specifiers filename cl linenum end_col is"
proof (induction filename cl linenum end_col "is" rule: check_specifiers.induct)
  case (2 filename cl linenum end_col i ls)
  then show ?case
    unfolding check_specifiers.simps Let_def by (intro check_run) (auto simp: checks split: option.split)
qed (simp add: checks)

interpretation redundant_virtual: partial_check "CheckRedundantVirtual filename cl linenum"
  by (auto simp: CheckRedundantVirtual_def Let_def checks specifiers.lint_check_axioms split: option.split)

interpretation override_or_final: lint_check "CheckRedundantOverrideOrFinal filename cl linenum"
  by (auto simp: CheckRedundantOverrideOrFinal_def Let_def checks split: option.split)

interpretation cxx11: lint_check "FlagCxx11Features filename cl linenum"
  by (auto simp: FlagCxx11Features_def Let_def checks split: option.split)

interpretation namespace_indentation: lint_check "CheckForNamespaceIndentation filename ns cl line"
  by (simp add: CheckForNamespaceIndentation_def CheckItemIndentationInNamespace_def Let_def checks)

lemmas [checks] =
  include_what_you_use.lint_check_axioms make_pair.lint_check_axioms lambda_captures.partial_check_axioms
  redundant_virtual.partial_check_axioms override_or_final.lint_check_axioms cxx11.lint_check_axioms
  namespace_indentation.lint_check_axioms

section \<open>The skipped lines\<close>

lemma require_patterns_append:
  "require_patterns (ps @ qs) linenum line required =
     require_patterns qs linenum line (require_patterns ps linenum line required)"
  by (simp add: require_patterns_def)

lemma templates_need_bracket:
  "list_all (\<lambda>(pattern, template, header).
      case re_compile pattern of None \<Rightarrow> False | Some r \<Rightarrow> needs_char CHR ''<'' r) re_pattern_templates"
  by code_simp

lemma require_patterns_none:
  "list_all (\<lambda>(pattern, template, header). \<not> found pattern line) ps \<Longrightarrow>
     require_patterns ps linenum line required = required"
  unfolding require_patterns_def by (induction ps arbitrary: required) (auto split: prod.splits)

text \<open>C34: Skipping the lines without \<open><\<close> is only a speed up, as the code says: the headers that a line
  requires are those of the loop over all patterns.\<close>

theorem require_line_all_patterns:
  "require_line (linenum, line) required =
     (if line = [] \<or> hd line = CHR ''#'' then required
      else require_patterns (re_pattern_algorithm_header @ re_pattern_templates) linenum line
             (require_string linenum line required))"
proof -
  have "require_patterns re_pattern_templates linenum line r = r" if "CHR ''<'' \<notin> set line" for r
    using templates_need_bracket search_needs_char [OF _ that]
    by (intro require_patterns_none) (fastforce simp: list_all_iff)
  then show ?thesis by (simp add: require_line_def Let_def require_patterns_append)
qed

end
