(* ===== verification/Lint_Driver.thy ===== *)
theory Lint_Driver
  imports Lint_Usage
begin

text \<open>
  The driver of \<^verbatim>\<open>build-support/cpplint.py\<close>: \<open>ProcessLine\<close>, \<open>ProcessFileData\<close>, the configuration files,
  \<open>ProcessFile\<close>, the command line and \<open>main\<close>. What the operating system provides is the record
  \<open>environment\<close>, a parameter. An exception that ends the run is \<open>None\<close>; a check whose
  recursion does not end is \<open>None\<close> too, Python ends it with \<open>RuntimeError\<close>. The text of a file is
  a text of characters below 256.
\<close>

section \<open>One line\<close>

text \<open>The states that \<open>ProcessFileData\<close> makes for a file, with the state of the linter. The
  extra check functions get the state of the linter instead of the function that reports.\<close>

record file_state =
  st_include :: IncludeState
  st_function :: FunctionState
  st_nesting :: NestingState
  st_lint :: lint

type_synonym extra_check = "string \<Rightarrow> CleansedLines \<Rightarrow> nat \<Rightarrow> lint \<Rightarrow> lint option"

definition check_line :: "(NestingState \<Rightarrow> lint \<Rightarrow> lint option) \<Rightarrow> file_state \<Rightarrow> file_state option" where
  "check_line check s =
     map_option (\<lambda>g. s\<lparr>st_lint := g\<rparr>) (check (st_nesting s) (st_lint s))"

definition update_nesting :: "string \<Rightarrow> CleansedLines \<Rightarrow> nat \<Rightarrow> file_state \<Rightarrow> file_state option" where
  "update_nesting filename clean_lines line s =
     map_option (\<lambda>(ns, g). s\<lparr>st_nesting := ns, st_lint := g\<rparr>)
       (NestingState_Update filename clean_lines line (st_nesting s, st_lint s))"

definition count_function :: "string \<Rightarrow> CleansedLines \<Rightarrow> nat \<Rightarrow> file_state \<Rightarrow> file_state option" where
  "count_function filename clean_lines line s =
     (case CheckForFunctionLengths filename clean_lines line (st_function s, st_lint s) of
        None \<Rightarrow> None
      | Some (f, g) \<Rightarrow> if raised g = None then Some (s\<lparr>st_function := f, st_lint := g\<rparr>) else None)"

definition check_language ::
    "file_system \<Rightarrow> string \<Rightarrow> string \<Rightarrow> CleansedLines \<Rightarrow> nat \<Rightarrow> file_state \<Rightarrow> file_state option" where
  "check_language fs filename file_extension clean_lines line s =
     map_option (\<lambda>(inc, g). s\<lparr>st_include := inc, st_lint := g\<rparr>)
       (CheckLanguage fs filename clean_lines line file_extension (st_include s, st_lint s))"

definition ProcessLine ::
    "file_system \<Rightarrow> extra_check list \<Rightarrow> string \<Rightarrow> string \<Rightarrow> CleansedLines \<Rightarrow> nat \<Rightarrow> file_state \<Rightarrow> file_state option" where
  "ProcessLine fs extra_check_functions filename file_extension clean_lines line =
     run_opt
       [check_line (\<lambda>ns. ok (ParseNolintSuppressions filename (raw_lines clean_lines ! line) (int line))),
        update_nesting filename clean_lines line,
        check_line (\<lambda>ns. ok (CheckForNamespaceIndentation filename ns clean_lines line)),
        (\<lambda>s. if InAsmBlock (st_nesting s) then Some s
             else run_opt
               ([count_function filename clean_lines line,
                 check_line (\<lambda>ns. ok (CheckForMultilineCommentsAndStrings filename clean_lines line)),
                 check_line (CheckStyle fs filename clean_lines line file_extension),
                 check_language fs filename file_extension clean_lines line,
                 check_line (CheckForNonConstReference filename clean_lines line),
                 check_line (CheckForNonStandardConstructs filename clean_lines line),
                 check_line (\<lambda>ns. ok (CheckVlogArguments filename clean_lines line)),
                 check_line (\<lambda>ns. ok (CheckPosixThreading filename clean_lines line)),
                 check_line (\<lambda>ns. ok (CheckInvalidIncrement filename clean_lines line)),
                 check_line (\<lambda>ns. ok (CheckMakePairUsesDeduction filename clean_lines line)),
                 check_line (\<lambda>ns. CheckDefaultLambdaCaptures filename clean_lines line),
                 check_line (\<lambda>ns. CheckRedundantVirtual filename clean_lines line),
                 check_line (\<lambda>ns. ok (CheckRedundantOverrideOrFinal filename clean_lines line))] @
                map (\<lambda>check_fn. check_line (\<lambda>ns. check_fn filename clean_lines line))
                  extra_check_functions) s)]"

section \<open>One file\<close>

text \<open>What the driver gets from the operating system: the file system of \<open>os.path\<close>, the lines of a
  configuration file, the lines of a header, the text of a source file and of standard
  input. \<open>None\<close> is \<open>IOError\<close>.\<close>

record environment =
  files :: file_system
  isfile :: "string \<Rightarrow> bool"
  open_lines :: "string \<Rightarrow> string list option"
  header_lines :: io
  read_text :: "string \<Rightarrow> string option"
  stdin_text :: "string option"

definition file_state_init :: "lint \<Rightarrow> file_state" where
  "file_state_init g =
     \<lparr>st_include = IncludeState_init, st_function = FunctionState_init,
      st_nesting = NestingState_init, st_lint = g\<rparr>"

definition process_lines ::
    "file_system \<Rightarrow> extra_check list \<Rightarrow> string \<Rightarrow> string \<Rightarrow> CleansedLines \<Rightarrow> file_state \<Rightarrow> file_state option" where
  "process_lines fs extra_check_functions filename file_extension clean_lines =
     run_opt (map (\<lambda>line.
       run_opt [ProcessLine fs extra_check_functions filename file_extension clean_lines line,
                check_line (\<lambda>ns. ok (FlagCxx11Features filename clean_lines line))])
       [0..<NumLines clean_lines])"

definition finish_file ::
    "environment \<Rightarrow> string \<Rightarrow> string \<Rightarrow> string list \<Rightarrow> CleansedLines \<Rightarrow> file_state \<Rightarrow> lint option" where
  "finish_file env filename file_extension ls clean_lines s =
     run_opt
       [ok (CheckCompletedBlocks filename (st_nesting s)),
        ok (CheckForIncludeWhatYouUse (files env) (header_lines env) filename clean_lines (st_include s)),
        (if file_extension = ''cc'' then CheckHeaderFileIncluded (files env) filename (st_include s)
         else ok id),
        ok (CheckForBadCharacters filename (map (map of_char) ls)),
        ok (CheckForNewlineAtEOF filename ls)] (st_lint s)"

definition ProcessFileData ::
    "environment \<Rightarrow> extra_check list \<Rightarrow> string \<Rightarrow> string \<Rightarrow> string list \<Rightarrow> lint \<Rightarrow> lint option" where
  "ProcessFileData env extra_check_functions filename file_extension ls g =
     (let ls = [''// marker so line numbers and indices both start at 1''] @ ls @
               [''// marker so line numbers end in a known way''];
          g = ResetNolintSuppressions g;
          g = CheckForCopyright filename ls g;
          (ls, g) = RemoveMultiLineComments filename ls g
      in case CleansedLines_init ls of
           None \<Rightarrow> None
         | Some clean_lines \<Rightarrow>
             (case (if file_extension = ''h'' then CheckForHeaderGuard (files env) filename clean_lines
                    else ok id) g of
                None \<Rightarrow> None
              | Some g \<Rightarrow>
                  (case process_lines (files env) extra_check_functions filename file_extension clean_lines
                          (file_state_init g) of
                     None \<Rightarrow> None
                   | Some s \<Rightarrow> finish_file env filename file_extension ls clean_lines s)))"

section \<open>The contract of a file\<close>

text \<open>A step of a file only reports, and keeps the table of headers well formed.\<close>

definition line_reports :: "file_state \<Rightarrow> file_state \<Rightarrow> bool" where
  "line_reports s s' \<longleftrightarrow> (include_state_ok (st_include s) \<longrightarrow>
     reports (st_lint s) (st_lint s') \<and> include_state_ok (st_include s'))"

lemma line_reports_refl: "line_reports s s"
  by (simp add: line_reports_def)

lemma line_reports_trans: "line_reports s t \<Longrightarrow> line_reports t u \<Longrightarrow> line_reports s u"
  using reports_trans by (auto simp: line_reports_def)

locale line_step =
  fixes step :: "file_state \<Rightarrow> file_state option"
  assumes step_reports: "step s = Some s' \<Longrightarrow> line_reports s s'"
begin

lemma step_keeps_settings:
  "step s = Some s' \<Longrightarrow> include_state_ok (st_include s) \<Longrightarrow> same_settings (st_lint s) (st_lint s')"
  using step_reports by (simp add: line_reports_def reports_def)

end

named_theorems steps \<open>the contract of the steps of a file\<close>

lemma step_run [steps]: "list_all line_step fs \<Longrightarrow> line_step (run_opt fs)"
proof (induction fs)
  case (Cons f fs)
  then show ?case
    unfolding line_step_def by (auto split: option.splits) (blast intro: line_reports_trans)
qed (simp add: line_step_def line_reports_refl)

lemma step_check [steps]: "(\<And>ns. partial_check (check ns)) \<Longrightarrow> line_step (check_line check)"
  by (auto simp: line_step_def check_line_def line_reports_def partial_check_def)

lemma step_if [steps]:
  "line_step f \<Longrightarrow> line_step h \<Longrightarrow> line_step (\<lambda>s. if b s then f s else h s)"
  by (simp add: line_step_def)

lemma step_skip [steps]: "line_step Some"
  by (simp add: line_step_def line_reports_refl)

lemmas [checks] =
  nolint.lint_check_axioms copyright.lint_check_axioms bad_characters.lint_check_axioms
  newline_at_eof.lint_check_axioms multiline.lint_check_axioms posix_threading.lint_check_axioms
  vlog.lint_check_axioms increment.lint_check_axioms completed_blocks.lint_check_axioms

text \<open>The steps that change more than the state of the linter.\<close>

lemma Update_reports:
  assumes "NestingState_Update filename cl linenum (ns, g) = Some (ns', g')"
  shows "reports g g'"
proof -
  from assms obtain line ns1 where
    "brace_loop filename cl linenum line (access_control filename linenum line ns1 g) = (ns', g')"
    by (auto simp: NestingState_Update_def Let_def split: if_splits option.splits prod.splits)
  then show ?thesis
    using reports_trans [OF access_control_reports brace_loop_reports] by (metis snd_conv)
qed

interpretation nesting_step: line_step "update_nesting filename cl line"
  by unfold_locales (auto simp: update_nesting_def line_reports_def dest: Update_reports)

lemma FunctionState_Check_reports:
  "raised (FunctionState_Check filename linenum st g) = None \<Longrightarrow> reports g (FunctionState_Check filename linenum st g)"
  by (auto simp: FunctionState_Check_def Let_def split: if_splits)

interpretation function_step: line_step "count_function filename cl line"
  by unfold_locales
    (auto simp: count_function_def CheckForFunctionLengths_def Let_def line_reports_def
      FunctionState_Check_reports split: option.splits if_splits body.splits)

lemma run_reports: "run_opt fs g = Some g' \<Longrightarrow> list_all partial_check fs \<Longrightarrow> reports g g'"
  using partial_run partial_check.partial_reports by blast

lemma map_option_run:
  "map_option (Pair i) (run_opt fs g) = Some (i', g') \<Longrightarrow> list_all partial_check fs \<Longrightarrow> reports g g'"
  using run_reports by fastforce

lemma CheckLanguage_reports:
  assumes "CheckLanguage fs filename cl line ext (inc, g) = Some (inc', g')" and "include_state_ok inc"
  shows "reports g g' \<and> include_state_ok inc'"
proof (cases "elided cl ! line = [] \<or> found RE_PATTERN_INCLUDE (elided cl ! line)")
  case True
  then show ?thesis
    using assms CheckIncludeLine_reports [OF _ assms(2)]
    by (auto simp: CheckLanguage_def Let_def split: if_splits)
next
  case False
  then have e: "(elided cl ! line = []) = False" "found RE_PATTERN_INCLUDE (elided cl ! line) = False"
    by simp_all
  have "reports g g'"
    by (rule map_option_run [OF assms(1) [unfolded CheckLanguage_def Let_def prod.case e if_False]])
      (simp add: checks)
  moreover have "include_state_ok inc'"
    using assms False by (auto simp: CheckLanguage_def Let_def include_state_ok_reset simp del: run_opt.simps
        split: option.splits)
  ultimately show ?thesis ..
qed

interpretation language_step: line_step "check_language fs filename ext cl line"
  by unfold_locales (auto simp: check_language_def line_reports_def dest: CheckLanguage_reports)

lemmas [steps] =
  nesting_step.line_step_axioms function_step.line_step_axioms language_step.line_step_axioms

definition only_reports :: "extra_check list \<Rightarrow> bool" where
  "only_reports extra = (\<forall>f \<in> set extra. \<forall>filename cl line. partial_check (f filename cl line))"

lemma ProcessLine_step:
  "only_reports extra \<Longrightarrow> line_step (ProcessLine fs extra filename ext cl line)"
  unfolding ProcessLine_def
  by (intro steps; simp add: list_all_iff only_reports_def)
    (auto intro!: steps simp: checks list_all_iff)

declare reports_trans [trans]

lemma process_lines_step:
  "only_reports extra \<Longrightarrow> line_step (process_lines fs extra filename ext cl)"
  unfolding process_lines_def
  by (intro step_run) (auto simp: list_all_iff checks intro!: steps ProcessLine_step)

interpretation process_line: line_step "ProcessLine fs [] filename ext cl line"
  by (rule ProcessLine_step) (simp add: only_reports_def)

lemma partial_header [checks]:
  "partial_check (CheckForHeaderGuard fs filename cl)" "partial_check (CheckHeaderFileIncluded fs filename st)"
  by (simp_all add: partial_check_def CheckForHeaderGuard_reports CheckHeaderFileIncluded_reports)

lemma finish_file_reports: "finish_file env filename ext ls cl s = Some g' \<Longrightarrow> reports (st_lint s) g'"
  unfolding finish_file_def by (erule run_reports) (simp add: checks)

lemma ProcessFileData_reports:
  assumes "ProcessFileData env extra filename ext ls g = Some g'" and "only_reports extra"
  shows "reports g g'"
proof -
  let ?ls = "[''// marker so line numbers and indices both start at 1''] @ ls @
             [''// marker so line numbers end in a known way'']"
  define g1 where "g1 = CheckForCopyright filename ?ls (ResetNolintSuppressions g)"
  obtain ls2 g2 where 2: "RemoveMultiLineComments filename ?ls g1 = (ls2, g2)" by fastforce
  from assms(1) obtain cl g3 s where
    3: "(if ext = ''h'' then CheckForHeaderGuard (files env) filename cl else ok id) g2 = Some g3"
    and s: "process_lines (files env) extra filename ext cl (file_state_init g3) = Some s"
    and f: "finish_file env filename ext ls2 cl s = Some g'"
    unfolding ProcessFileData_def Let_def g1_def [symmetric] 2 prod.case
    by (auto split: option.splits)
  have "reports g g1"
    unfolding g1_def ResetNolintSuppressions_def
    by (rule reports_trans [OF reports_suppress copyright.check_reports])
  also have "reports g1 g2"
    using multi_line_comments.check_reports [of g1 filename ?ls] 2 by simp
  also have "reports g2 g3"
    using 3 CheckForHeaderGuard_reports by (auto simp: ok_def split: if_splits)
  also have "reports g3 (st_lint s)"
    using line_step.step_reports [OF process_lines_step [OF assms(2)] s] include_state_ok_init
    by (simp add: line_reports_def file_state_init_def)
  also have "reports (st_lint s) g'" using f by (rule finish_file_reports)
  finally show ?thesis .
qed

section \<open>Configuration files\<close>

text \<open>\<open>int\<close> of a byte string: white space around the number and after its sign is skipped;
  \<open>None\<close> is \<open>ValueError\<close>.\<close>

definition py_int :: "string \<Rightarrow> int option" where
  "py_int s =
     (let s = strip_bytes s;
          digits = dropWhile re_space (if startswith s ''-'' \<or> startswith s ''+'' then tl s else s)
      in if digits = [] \<or> \<not> list_all is_digit digits then None
         else Some ((if startswith s ''-'' then - 1 else 1) * int (nat_of_digits 0 digits)))"

text \<open>The variables of the loop; \<open>re.compile\<close> of a pattern outside the syntax of \<open>re_compile\<close> counts as an
  error. A line ends the run (\<open>None\<close>), excludes the file (\<open>Inl\<close>), or goes on.\<close>

record config =
  keep_looking :: bool
  cfg_filters :: "string list"
  cfg_lint :: lint

definition partition_at :: "char \<Rightarrow> string \<Rightarrow> string \<times> string" where
  "partition_at c s = (takeWhile (\<lambda>x. x \<noteq> c) s, tl (dropWhile (\<lambda>x. x \<noteq> c) s))"

definition config_line :: "string \<Rightarrow> string \<Rightarrow> string \<Rightarrow> string \<Rightarrow> config \<Rightarrow> (lint + config) option" where
  "config_line filename cfg_file base_name line c =
     (let line = fst (partition_at (CHR ''#'') line) in
      if strip_bytes line = [] then Some (Inr c)
      else
        (let name = strip_bytes (fst (partition_at (CHR ''='') line));
             val = strip_bytes (snd (partition_at (CHR ''='') line))
         in if name = ''set noparent'' then Some (Inr (c\<lparr>keep_looking := False\<rparr>))
            else if name = ''filter'' then Some (Inr (c\<lparr>cfg_filters := cfg_filters c @ [val]\<rparr>))
            else if name = ''exclude_files'' then
              (if base_name = [] then Some (Inr c)
               else case re_compile val of
                 None \<Rightarrow> None
               | Some pattern \<Rightarrow>
                   if match_at pattern [] base_name \<noteq> None then
                     Some (Inl (write_err
                       (''Ignoring '' @ [dquote] @ filename @ [dquote] @ '': file excluded by '' @
                        [dquote] @ cfg_file @ [dquote] @ ''. File path component '' @ [dquote] @ base_name @
                        [dquote] @ '' matches pattern '' @ [dquote] @ val @ [dquote] @ [newline]) (cfg_lint c)))
                   else Some (Inr c))
            else if name = ''linelength'' then
              (case py_int val of
                 Some n \<Rightarrow> Some (Inr (c\<lparr>cfg_lint := (cfg_lint c)\<lparr>line_length := n\<rparr>\<rparr>))
               | None \<Rightarrow> Some (Inr (c\<lparr>cfg_lint := write_err ''Line length must be numeric.'' (cfg_lint c)\<rparr>)))
            else Some (Inr (c\<lparr>cfg_lint := write_err
                   (''Invalid configuration option ('' @ name @ '') in file '' @ cfg_file @ [newline])
                   (cfg_lint c)\<rparr>))))"

fun config_lines :: "string \<Rightarrow> string \<Rightarrow> string \<Rightarrow> string list \<Rightarrow> config \<Rightarrow> (lint + config) option" where
  "config_lines filename cfg_file base_name [] c = Some (Inr c)"
| "config_lines filename cfg_file base_name (line # ls) c =
     (case config_line filename cfg_file base_name line c of
        Some (Inr c') \<Rightarrow> config_lines filename cfg_file base_name ls c'
      | r \<Rightarrow> r)"

lemma path_tail_shorter: "path_tail p \<noteq> [] \<Longrightarrow> length (path_head p) < length p"
proof (rule dirname_shorter)
  assume t: "path_tail p \<noteq> []"
  define h where "h = rev (dropWhile (\<lambda>c. c \<noteq> slash) (rev p))"
  have p: "h @ path_tail p = p" unfolding h_def by (rule head_tail_append)
  have "prefix (path_head p) h"
    unfolding path_head_def Let_def h_def [symmetric] by (auto simp: prefix_rev_dropWhile)
  with p t show "path_head p \<noteq> p" by (metis append_self_conv prefix_order.antisym prefix_def)
qed

text \<open>The body of the loop, once the path is split.\<close>

definition config_dir :: "environment \<Rightarrow> string \<Rightarrow> string \<Rightarrow> string \<Rightarrow> config \<Rightarrow> (lint + config) option" where
  "config_dir env filename abs_path base_name c =
     (let cfg_file = path_join abs_path ''CPPLINT.cfg'' in
      if \<not> isfile env cfg_file then Some (Inr c)
      else case open_lines env cfg_file of
        None \<Rightarrow>
          Some (Inr (c\<lparr>keep_looking := False,
                       cfg_lint := write_err (''Skipping config file '' @ [squote] @ cfg_file @ [squote] @
                         '': Can'' @ [squote] @ ''t open for reading'' @ [newline]) (cfg_lint c)\<rparr>))
      | Some ls \<Rightarrow> config_lines filename cfg_file base_name ls c)"

function config_loop :: "environment \<Rightarrow> string \<Rightarrow> string \<Rightarrow> config \<Rightarrow> (lint + config) option" where
  "config_loop env filename abs_filename c =
     (let (abs_path, base_name) = path_split abs_filename in
      if \<not> keep_looking c \<or> base_name = [] then Some (Inr c)
      else
        (case config_dir env filename abs_path base_name c of
           Some (Inr c') \<Rightarrow> config_loop env filename abs_path c'
         | r \<Rightarrow> r))"
  by pat_completeness auto
termination
  by (relation "measure (\<lambda>(env, filename, abs_filename, c). length abs_filename)")
    (auto simp: path_split_def path_tail_shorter)

declare config_loop.simps [simp del]

definition apply_filter :: "string \<Rightarrow> lint \<Rightarrow> lint option" where
  "apply_filter f g = (let g' = module_AddFilters f g in if raised g' = None then Some g' else None)"

definition ProcessConfigOverrides :: "environment \<Rightarrow> string \<Rightarrow> lint \<Rightarrow> (bool \<times> lint) option" where
  "ProcessConfigOverrides env filename g =
     (case config_loop env filename (path_abspath (files env) filename)
             \<lparr>keep_looking = True, cfg_filters = [], cfg_lint = g\<rparr> of
        None \<Rightarrow> None
      | Some (Inl g) \<Rightarrow> Some (False, g)
      | Some (Inr c) \<Rightarrow> map_option (Pair True) (run_opt (map apply_filter (rev (cfg_filters c))) (cfg_lint c)))"

section \<open>\<open>ProcessFile\<close>\<close>

definition ends_cr :: "string \<Rightarrow> bool" where
  "ends_cr l = endswith l [creturn]"

definition strip_cr :: "string list \<Rightarrow> string list" where
  "strip_cr ls =
     map (\<lambda>l. if ends_cr l then rev (dropWhile (\<lambda>c. c = creturn) (rev l)) else l) (butlast ls) @ [last ls]"

definition crlf_linenums :: "string list \<Rightarrow> nat list" where
  "crlf_linenums ls = map Suc (filter (\<lambda>i. ends_cr (ls ! i)) [0..<length ls - 1])"

definition lf_linenums :: "string list \<Rightarrow> nat list" where
  "lf_linenums ls = map Suc (filter (\<lambda>i. \<not> ends_cr (ls ! i)) [0..<length ls - 1])"

definition file_extension_of :: "string \<Rightarrow> string" where
  "file_extension_of filename = rev (takeWhile (\<lambda>c. c \<noteq> CHR ''.'') (rev filename))"

definition warn_crlf :: "string \<Rightarrow> nat list \<Rightarrow> lint \<Rightarrow> lint" where
  "warn_crlf filename crlf_lines =
     run (map (\<lambda>linenum. Error filename (int linenum) ''whitespace/newline'' 1
                (''Unexpected '' @ [backslash] @ ''r (^M) found; better to use only '' @ [backslash] @ ''n''))
          crlf_lines)"

definition process_text :: "environment \<Rightarrow> extra_check list \<Rightarrow> string \<Rightarrow> string \<Rightarrow> lint \<Rightarrow> lint option" where
  "process_text env extra_check_functions filename file_text g =
     (let ls = py_split newline file_text;
          file_extension = file_extension_of filename
      in if filename \<noteq> ''-'' \<and> file_extension \<notin> set (valid_extensions g) then
           Some (write_err (''Ignoring '' @ filename @ ''; not a valid file name ('' @
                   py_join '', '' (valid_extensions g) @ '')'' @ [newline]) g)
         else
           map_option
             (\<lambda>g. if lf_linenums ls \<noteq> [] \<and> crlf_linenums ls \<noteq> [] then warn_crlf filename (crlf_linenums ls) g
                  else g)
             (ProcessFileData env extra_check_functions filename file_extension (strip_cr ls) g))"

definition ProcessFile ::
    "environment \<Rightarrow> extra_check list \<Rightarrow> string \<Rightarrow> int \<Rightarrow> lint \<Rightarrow> lint option" where
  "ProcessFile env extra_check_functions filename vlevel g =
     (let g = snd (module_SetVerboseLevel vlevel g);
          g = module_BackupFilters g
      in case ProcessConfigOverrides env filename g of
           None \<Rightarrow> None
         | Some (False, g) \<Rightarrow> Some (module_RestoreFilters g)
         | Some (True, g) \<Rightarrow>
             (case (if filename = ''-'' then stdin_text env else read_text env filename) of
                None \<Rightarrow>
                  Some (module_RestoreFilters
                    (write_err (''Skipping input '' @ [squote] @ filename @ [squote] @ '': Can'' @ [squote] @
                       ''t open for reading'' @ [newline]) g))
              | Some file_text \<Rightarrow>
                  map_option (\<lambda>g. module_RestoreFilters (write_err (''Done processing '' @ filename @ [newline]) g))
                    (process_text env extra_check_functions filename file_text g)))"

section \<open>The command line\<close>

definition USAGE :: string where
  "USAGE = py_join [newline] [
    '''',
    ''Syntax: cpplint.py [--verbose=#] [--output=vs7] [--filter=-x,+y,...]'',
    ''                   [--counting=total|toplevel|detailed] [--root=subdir]'',
    ''                   [--linelength=digits]'',
    ''        <file> [file] ...'',
    '''',
    ''  The style guidelines this tries to follow are those in'',
    ''    http://google-styleguide.googlecode.com/svn/trunk/cppguide.xml'',
    '''',
    ''  Every problem is given a confidence score from 1-5, with 5 meaning we are'',
    ''  certain of the problem, and 1 meaning it could be a legitimate construct.'',
    ''  This will miss some errors, and is not a substitute for a code review.'',
    '''',
    ''  To suppress false-positive errors of a certain category, add a'',
    ''  '' @ [squote] @ ''NOLINT(category)'' @ [squote] @ '' comment to the line.  NOLINT or NOLINT(*)'',
    ''  suppresses errors of all categories on that line.'',
    '''',
    ''  The files passed in will be linted; at least one file must be provided.'',
    ''  Default linted extensions are .cc, .cpp, .cu, .cuh and .h.  Change the'',
    ''  extensions with the --extensions flag.'',
    '''',
    ''  Flags:'',
    '''',
    ''    output=vs7'',
    ''      By default, the output is formatted to ease emacs parsing.  Visual Studio'',
    ''      compatible output (vs7) may also be used.  Other formats are unsupported.'',
    '''',
    ''    verbose=#'',
    ''      Specify a number 0-5 to restrict errors to certain verbosity levels.'',
    '''',
    ''    filter=-x,+y,...'',
    ''      Specify a comma-separated list of category-filters to apply: only'',
    ''      error messages whose category names pass the filters will be printed.'',
    ''      (Category names are printed with the message and look like'',
    ''      \"[whitespace/indent]\".)  Filters are evaluated left to right.'',
    ''      \"-FOO\" and \"FOO\" means \"do not print categories that start with FOO\".'',
    ''      \"+FOO\" means \"do print categories that start with FOO\".'',
    '''',
    ''      Examples: --filter=-whitespace,+whitespace/braces'',
    ''                --filter=whitespace,runtime/printf,+runtime/printf_format'',
    ''                --filter=-,+build/include_what_you_use'',
    '''',
    ''      To see a list of all the categories used in cpplint, pass no arg:'',
    ''         --filter='',
    '''',
    ''    counting=total|toplevel|detailed'',
    ''      The total number of errors found is always printed. If'',
    ''      '' @ [squote] @ ''toplevel'' @ [squote] @ '' is provided, then the count of errors in each of'',
    ''      the top-level categories like '' @ [squote] @ ''build'' @ [squote] @ '' and '' @ [squote] @ ''whitespace'' @ [squote] @ '' will'',
    ''      also be printed. If '' @ [squote] @ ''detailed'' @ [squote] @ '' is provided, then a count'',
    ''      is provided for each category like '' @ [squote] @ ''build/class'' @ [squote] @ ''.'',
    '''',
    ''    root=subdir'',
    ''      The root directory used for deriving header guard CPP variable.'',
    ''      By default, the header guard CPP variable is calculated as the relative'',
    ''      path to the directory that contains .git, .hg, or .svn.  When this flag'',
    ''      is specified, the relative path is calculated from the specified'',
    ''      directory. If the specified directory does not exist, this flag is'',
    ''      ignored.'',
    '''',
    ''      Examples:'',
    ''        Assuming that src/.git exists, the header guard CPP variables for'',
    ''        src/chrome/browser/ui/browser.h are:'',
    '''',
    ''        No flag => CHROME_BROWSER_UI_BROWSER_H_'',
    ''        --root=chrome => BROWSER_UI_BROWSER_H_'',
    ''        --root=chrome/browser => UI_BROWSER_H_'',
    '''',
    ''    linelength=digits'',
    ''      This is the allowed line length for the project. The default value is'',
    ''      80 characters.'',
    '''',
    ''      Examples:'',
    ''        --linelength=120'',
    '''',
    ''    extensions=extension,extension,...'',
    ''      The allowed file extensions that cpplint will check'',
    '''',
    ''      Examples:'',
    ''        --extensions=hpp,cpp'',
    '''',
    ''    cpplint.py supports per-directory configurations specified in CPPLINT.cfg'',
    ''    files. CPPLINT.cfg file can contain a number of key=value pairs.'',
    ''    Currently the following options are supported:'',
    '''',
    ''      set noparent'',
    ''      filter=+filter1,-filter2,...'',
    ''      exclude_files=regex'',
    ''      linelength=80'',
    '''',
    ''    \"set noparent\" option prevents cpplint from traversing directory tree'',
    ''    upwards looking for more .cfg files in parent directories. This option'',
    ''    is usually placed in the top-level project directory.'',
    '''',
    ''    The \"filter\" option is similar in function to --filter flag. It specifies'',
    ''    message filters in addition to the |_DEFAULT_FILTERS| and those specified'',
    ''    through --filter command-line flag.'',
    '''',
    ''    \"exclude_files\" allows to specify a regular expression to be matched against'',
    ''    a file name. If the expression matches, the file is skipped and not run'',
    ''    through liner.'',
    '''',
    ''    \"linelength\" allows to specify the allowed line length for the project.'',
    '''',
    ''    CPPLINT.cfg has an effect on files in the same directory and all'',
    ''    sub-directories, unless overridden by a nested configuration file.'',
    '''',
    ''      Example file:'',
    ''        filter=-build/include_order,+build/include_alpha'',
    ''        exclude_files=.*'' @ [backslash] @ ''.cc'',
    '''',
    ''    The above example disables build/include_order warning and enables'',
    ''    build/include_alpha as well as excludes all .cc from being'',
    ''    processed by linter, in the current directory (where the .cfg'',
    ''    file is located) and all sub-directories.'',
    '''']"

text \<open>\<open>sys.exit\<close> with a text writes it to standard error and ends with status 1. The results are the
  status and the state at the end.\<close>

definition PrintUsage :: "string option \<Rightarrow> lint \<Rightarrow> int \<times> lint" where
  "PrintUsage message g =
     (let g = write_err USAGE g in
      case message of
        Some m \<Rightarrow> (1, write_err ([newline] @ ''FATAL ERROR: '' @ m @ [newline]) g)
      | None \<Rightarrow> (1, g))"

definition PrintCategories :: "lint \<Rightarrow> int \<times> lint" where
  "PrintCategories g = (0, write_err (concat (map (\<lambda>cat. ''  '' @ cat @ [newline]) ERROR_CATEGORIES)) g)"

text \<open>\<open>getopt.getopt\<close> without short options; \<open>None\<close> is \<open>GetoptError\<close>.\<close>

definition long_options :: "string list" where
  "long_options = [''help'', ''output='', ''verbose='', ''counting='', ''filter='', ''root='', ''linelength='',
     ''extensions='']"

definition long_has_args :: "string \<Rightarrow> (bool \<times> string) option" where
  "long_has_args opt =
     (let possibilities = filter (\<lambda>l. startswith l opt) long_options in
      if possibilities = [] then None
      else if opt \<in> set possibilities then Some (False, opt)
      else if opt @ ''='' \<in> set possibilities then Some (True, opt)
      else if length possibilities > 1 then None
      else if endswith (hd possibilities) ''='' then Some (True, butlast (hd possibilities))
      else Some (False, hd possibilities))"

definition do_longs :: "string \<Rightarrow> string list \<Rightarrow> ((string \<times> string) \<times> string list) option" where
  "do_longs arg args =
     (let (opt, optarg) = (if CHR ''='' \<in> set arg
                           then (fst (partition_at (CHR ''='') arg), Some (snd (partition_at (CHR ''='') arg)))
                           else (arg, None))
      in case long_has_args opt of
           None \<Rightarrow> None
         | Some (True, opt) \<Rightarrow>
             (case optarg of
                Some v \<Rightarrow> Some ((''--'' @ opt, v), args)
              | None \<Rightarrow> (case args of [] \<Rightarrow> None | v # args \<Rightarrow> Some ((''--'' @ opt, v), args)))
         | Some (False, opt) \<Rightarrow>
             (case optarg of Some v \<Rightarrow> None | None \<Rightarrow> Some ((''--'' @ opt, []), args)))"

lemma do_longs_shorter: "do_longs arg args = Some (r, args') \<Longrightarrow> length args' \<le> length args"
  by (auto simp: do_longs_def Let_def split: if_splits option.splits bool.splits list.splits)

function getopt :: "string list \<Rightarrow> ((string \<times> string) list \<times> string list) option" where
  "getopt [] = Some ([], [])"
| "getopt (a # args) =
     (if startswith a ''-'' \<and> a \<noteq> ''-'' then
        if a = ''--'' then Some ([], args)
        else if startswith a ''--'' then
          (case do_longs (drop 2 a) args of
             None \<Rightarrow> None
           | Some (o1, args) \<Rightarrow> map_option (\<lambda>(opts, rest). (o1 # opts, rest)) (getopt args))
        else None
      else Some ([], a # args))"
  by pat_completeness auto
termination
  by (relation "measure length") (auto dest: do_longs_shorter)

text \<open>The loop over the options: \<open>None\<close> is the \<open>ValueError\<close> of \<open>int\<close>, \<open>Inl\<close> the end by \<open>sys.exit\<close>.\<close>

record options =
  opt_verbosity :: int
  opt_output_format :: string
  opt_filters :: string
  opt_counting_style :: string
  opt_lint :: lint

definition parse_option :: "string \<times> string \<Rightarrow> options \<Rightarrow> (int \<times> lint + options) option" where
  "parse_option ov c =
     (case ov of (opt, val) \<Rightarrow>
        if opt = ''--help'' then Some (Inl (PrintUsage None (opt_lint c)))
        else if opt = ''--output'' then
          (if val \<notin> {''emacs'', ''vs7'', ''eclipse''} then
             Some (Inl (PrintUsage (Some ''The only allowed output formats are emacs, vs7 and eclipse.'')
                          (opt_lint c)))
           else Some (Inr (c\<lparr>opt_output_format := val\<rparr>)))
        else if opt = ''--verbose'' then map_option (\<lambda>n. Inr (c\<lparr>opt_verbosity := n\<rparr>)) (py_int val)
        else if opt = ''--filter'' then
          (if val = [] then Some (Inl (PrintCategories (opt_lint c)))
           else Some (Inr (c\<lparr>opt_filters := val\<rparr>)))
        else if opt = ''--counting'' then
          (if val \<notin> {''total'', ''toplevel'', ''detailed''} then
             Some (Inl (PrintUsage (Some ''Valid counting options are total, toplevel, and detailed'')
                          (opt_lint c)))
           else Some (Inr (c\<lparr>opt_counting_style := val\<rparr>)))
        else if opt = ''--root'' then Some (Inr (c\<lparr>opt_lint := (opt_lint c)\<lparr>root := Some val\<rparr>\<rparr>))
        else if opt = ''--linelength'' then
          (case py_int val of
             Some n \<Rightarrow> Some (Inr (c\<lparr>opt_lint := (opt_lint c)\<lparr>line_length := n\<rparr>\<rparr>))
           | None \<Rightarrow> Some (Inl (PrintUsage (Some ''Line length must be digits.'') (opt_lint c))))
        else if opt = ''--extensions'' then
          Some (Inr (c\<lparr>opt_lint := (opt_lint c)\<lparr>valid_extensions := remdups (py_split (CHR '','') val)\<rparr>\<rparr>))
        else Some (Inr c))"

fun parse_options :: "(string \<times> string) list \<Rightarrow> options \<Rightarrow> (int \<times> lint + options) option" where
  "parse_options [] c = Some (Inr c)"
| "parse_options (ov # opts) c =
     (case parse_option ov c of
        Some (Inr c') \<Rightarrow> parse_options opts c'
      | r \<Rightarrow> r)"

definition ParseArguments :: "string list \<Rightarrow> lint \<Rightarrow> (int \<times> lint + string list \<times> lint) option" where
  "ParseArguments args g =
     (case getopt args of
        None \<Rightarrow> Some (Inl (PrintUsage (Some ''Invalid arguments.'') g))
      | Some (opts, filenames) \<Rightarrow>
          (case parse_options opts
                  \<lparr>opt_verbosity = module_VerboseLevel g, opt_output_format = module_OutputFormat g,
                   opt_filters = [], opt_counting_style = [], opt_lint = g\<rparr> of
             None \<Rightarrow> None
           | Some (Inl r) \<Rightarrow> Some (Inl r)
           | Some (Inr c) \<Rightarrow>
               if filenames = [] then Some (Inl (PrintUsage (Some ''No files were specified.'') (opt_lint c)))
               else
                 (let g = module_SetOutputFormat (opt_output_format c) (opt_lint c);
                      g = snd (module_SetVerboseLevel (opt_verbosity c) g);
                      g = module_SetFilters (opt_filters c) g
                  in if raised g \<noteq> None then None
                     else Some (Inr (filenames, module_SetCountingStyle (opt_counting_style c) g)))))"

definition process_files :: "environment \<Rightarrow> string list \<Rightarrow> lint \<Rightarrow> lint option" where
  "process_files env filenames =
     run_opt (map (\<lambda>filename g. ProcessFile env [] filename (verbose_level (cpplint_state g)) g) filenames)"

definition main :: "environment \<Rightarrow> string list \<Rightarrow> lint \<Rightarrow> (int \<times> lint) option" where
  "main env args g =
     (case ParseArguments args g of
        None \<Rightarrow> None
      | Some (Inl r) \<Rightarrow> Some r
      | Some (Inr (filenames, g)) \<Rightarrow>
          (case process_files env filenames (lift_state ResetErrorCounts g) of
             None \<Rightarrow> None
           | Some g \<Rightarrow>
               Some (if error_count (cpplint_state g) > 0 then 1 else 0,
                     run (map write_err (PrintErrorCounts (cpplint_state g))) g)))"

section \<open>The settings of a run\<close>

text \<open>Reading the configuration writes messages and may set the line length; nothing else of
  the state changes before the filters are applied.\<close>

definition configures :: "lint \<Rightarrow> lint \<Rightarrow> bool" where
  "configures g g' \<longleftrightarrow> (\<exists>msgs n. g' = g\<lparr>stderr := stderr g @ msgs, line_length := n\<rparr>)"

lemma configures_refl: "configures g g"
  unfolding configures_def by (intro exI [of _ "[]"] exI [of _ "line_length g"]) simp

lemma configures_trans: "configures g h \<Longrightarrow> configures h k \<Longrightarrow> configures g k"
  by (auto simp: configures_def) blast

lemma configures_write: "configures g (write_err m g)"
  unfolding configures_def write_err_def
  by (intro exI [of _ "[m]"] exI [of _ "line_length g"]) simp

lemma configures_length: "configures g (g\<lparr>line_length := n\<rparr>)"
  unfolding configures_def by (intro exI [of _ "[]"] exI [of _ n]) simp

definition outcome_lint :: "lint + config \<Rightarrow> lint" where
  "outcome_lint r = (case r of Inl g \<Rightarrow> g | Inr c \<Rightarrow> cfg_lint c)"

lemma config_line_configures:
  "config_line filename cfg_file base_name line c = Some r \<Longrightarrow> configures (cfg_lint c) (outcome_lint r)"
  by (auto simp: config_line_def Let_def outcome_lint_def configures_refl configures_write configures_length
      split: if_splits option.splits)

lemma config_lines_configures:
  "config_lines filename cfg_file base_name ls c = Some r \<Longrightarrow> configures (cfg_lint c) (outcome_lint r)"
proof (induction ls arbitrary: c)
  case (Cons line ls)
  then obtain q where q: "config_line filename cfg_file base_name line c = Some q"
    by (auto split: option.splits)
  note this [THEN config_line_configures]
  moreover have "configures (outcome_lint q) (outcome_lint r)"
    using Cons q by (cases q) (auto simp: outcome_lint_def configures_refl)
  ultimately show ?case by (rule configures_trans)
qed (auto simp: outcome_lint_def configures_refl)

lemma config_dir_configures:
  "config_dir env filename d b c = Some r \<Longrightarrow> configures (cfg_lint c) (outcome_lint r)"
  by (auto simp: config_dir_def Let_def outcome_lint_def configures_refl configures_write
      config_lines_configures [unfolded outcome_lint_def] split: if_splits option.splits)

lemma config_loop_configures:
  "config_loop env filename p c = Some r \<Longrightarrow> configures (cfg_lint c) (outcome_lint r)"
proof (induction env filename p c rule: config_loop.induct)
  case (1 env filename p c)
  show ?case
  proof (cases "\<not> keep_looking c \<or> path_tail p = []")
    case True
    then show ?thesis
      using 1 by (auto simp: config_loop.simps [of env filename p c] path_split_def outcome_lint_def configures_refl)
  next
    case False
    with 1(2) obtain q where q: "config_dir env filename (path_head p) (path_tail p) c = Some q"
      by (auto simp: config_loop.simps [of env filename p c] path_split_def split: option.splits)
    have "configures (outcome_lint q) (outcome_lint r)"
      using 1 False q
      by (cases q) (auto simp: config_loop.simps [of env filename p c] path_split_def outcome_lint_def
          configures_refl)
    with config_dir_configures [OF q] show ?thesis by (rule configures_trans)
  qed
qed

definition split_filters :: "string \<Rightarrow> string list" where
  "split_filters f = filter (\<lambda>filt. filt \<noteq> []) (map strip_bytes (py_split (CHR '','') f))"

abbreviation with_filters :: "string list \<Rightarrow> lint \<Rightarrow> lint" where
  "with_filters fs g \<equiv> g\<lparr>cpplint_state := (cpplint_state g)\<lparr>filters := fs\<rparr>\<rparr>"

lemma apply_filter_result:
  "apply_filter f g = Some g' \<Longrightarrow> raised g = None \<Longrightarrow>
     signed_filters g' \<and> g' = with_filters (filters (cpplint_state g) @ split_filters f) g"
  by (auto simp: apply_filter_def module_AddFilters_def lift_filters_def AddFilters_def Let_def signed_filters_def
      find_None_iff split_filters_def split: option.splits prod.splits if_splits)

lemma apply_filters_result:
  "run_opt (map apply_filter fs) g = Some g' \<Longrightarrow> raised g = None \<Longrightarrow> signed_filters g \<Longrightarrow>
     signed_filters g' \<and> g' = with_filters (filters (cpplint_state g) @ concat (map split_filters fs)) g"
proof (induction fs arbitrary: g)
  case (Cons f fs)
  then obtain h where "apply_filter f g = Some h" and h: "run_opt (map apply_filter fs) h = Some g'"
    by (auto split: option.splits)
  with Cons.prems apply_filter_result have "signed_filters h"
    and eq: "h = with_filters (filters (cpplint_state g) @ split_filters f) g" by blast+
  moreover have "raised h = None" using eq Cons.prems by simp
  ultimately show ?case using Cons.IH [OF h] by auto
qed simp

lemma ProcessConfigOverrides_result:
  assumes "ProcessConfigOverrides env filename g = Some (b, g')" and "raised g = None" and "signed_filters g"
  shows "signed_filters g' \<and> raised g' = None \<and>
     (\<exists>h fs. configures g h \<and> g' = with_filters (filters (cpplint_state g) @ fs) h)"
proof -
  from assms(1) obtain r where
    r: "config_loop env filename (path_abspath (files env) filename)
          \<lparr>keep_looking = True, cfg_filters = [], cfg_lint = g\<rparr> = Some r"
    by (auto simp: ProcessConfigOverrides_def split: option.splits)
  then have c: "configures g (outcome_lint r)" using config_loop_configures by fastforce
  then have same: "raised (outcome_lint r) = None" "cpplint_state (outcome_lint r) = cpplint_state g"
    using assms(2) by (auto simp: configures_def)
  then have s: "signed_filters (outcome_lint r)" using assms(3) by (simp add: signed_filters_def)
  show ?thesis
  proof (cases r)
    case (Inl h)
    with assms(1) r have "g' = h" by (simp add: ProcessConfigOverrides_def)
    moreover have "outcome_lint r = h" using Inl by (simp add: outcome_lint_def)
    ultimately show ?thesis
      using c same s by (intro conjI exI [of _ h] exI [of _ "[]"]) simp_all
  next
    case (Inr d)
    with assms(1) r have "run_opt (map apply_filter (rev (cfg_filters d))) (outcome_lint r) = Some g'"
      by (simp add: ProcessConfigOverrides_def outcome_lint_def)
    from apply_filters_result [OF this same(1) s] same c show ?thesis
      by (intro conjI exI [of _ "outcome_lint r"] exI [of _ "concat (map split_filters (rev (cfg_filters d)))"])
        auto
  qed
qed

text \<open>Processing a text only writes: reports, and the note that the file is ignored.\<close>

definition writes :: "lint \<Rightarrow> lint \<Rightarrow> bool" where
  "writes g g' \<longleftrightarrow> same_settings g g' \<and>
     (\<exists>msgs. stderr g' = stderr g @ msgs \<and>
        error_count (cpplint_state g') \<le> error_count (cpplint_state g) + length msgs \<and>
        error_count (cpplint_state g) \<le> error_count (cpplint_state g')) \<and>
     (counts_agree (cpplint_state g) \<longrightarrow> counts_agree (cpplint_state g')) \<and>
     (signed_filters g \<longrightarrow> raised g' = raised g)"

lemma reports_writes: "reports g g' \<Longrightarrow> writes g g'"
  by (fastforce simp: reports_def writes_def)

lemma write_err_writes: "writes g (write_err m g)"
  by (simp add: writes_def write_err_def same_settings_def)

interpretation crlf: lint_check "warn_crlf filename ns"
  unfolding warn_crlf_def by (rule check_run) (simp add: list_all_iff checks)

lemma process_text_writes:
  assumes "process_text env extra filename t g = Some g'" and "only_reports extra"
  shows "writes g g'"
proof (cases "filename \<noteq> ''-'' \<and> file_extension_of filename \<notin> set (valid_extensions g)")
  case True
  with assms(1) show ?thesis by (auto simp: process_text_def Let_def intro: write_err_writes)
next
  case False
  then obtain ls h where "ProcessFileData env extra filename (file_extension_of filename) ls g = Some h"
    and "g' = h \<or> (\<exists>ns. g' = warn_crlf filename ns h)"
    using assms(1) unfolding process_text_def Let_def by (auto split: if_splits)
  with ProcessFileData_reports [OF _ assms(2)] crlf.check_reports reports_trans
  have "reports g g'" by blast
  then show ?thesis by (rule reports_writes)
qed

text \<open>What holds across the files of a run.\<close>

definition run_keeps :: "lint \<Rightarrow> lint \<Rightarrow> bool" where
  "run_keeps g g' \<longleftrightarrow>
     root g' = root g \<and> valid_extensions g' = valid_extensions g \<and>
     filters (cpplint_state g') = filters (cpplint_state g) \<and>
     counting (cpplint_state g') = counting (cpplint_state g) \<and>
     output_format (cpplint_state g') = output_format (cpplint_state g) \<and>
     (\<exists>msgs. stderr g' = stderr g @ msgs \<and>
        error_count (cpplint_state g') \<le> error_count (cpplint_state g) + length msgs \<and>
        error_count (cpplint_state g) \<le> error_count (cpplint_state g')) \<and>
     (counts_agree (cpplint_state g) \<longrightarrow> counts_agree (cpplint_state g')) \<and> raised g' = raised g"

lemma run_keeps_refl: "run_keeps g g"
  by (simp add: run_keeps_def)

lemma run_keeps_trans: "run_keeps g h \<Longrightarrow> run_keeps h k \<Longrightarrow> run_keeps g k"
  unfolding run_keeps_def by (elim conjE exE, intro conjI exI) (assumption | force)+

lemma writes_trans: "signed_filters g \<Longrightarrow> writes g h \<Longrightarrow> writes h k \<Longrightarrow> writes g k"
  unfolding writes_def same_settings_def signed_filters_def
  by (elim conjE exE, intro conjI exI) (assumption | force)+

text \<open>From the backup of the filters to their restoration.\<close>

lemma configured_writes_keep:
  assumes "configures (module_BackupFilters (snd (module_SetVerboseLevel vlevel g))) h"
    and "writes (with_filters (filters (cpplint_state g) @ fs) h) k"
    and "signed_filters (with_filters (filters (cpplint_state g) @ fs) h)"
  shows "run_keeps g (module_RestoreFilters k) \<and>
    verbose_level (cpplint_state (module_RestoreFilters k)) = vlevel"
  using assms
  by (auto simp: configures_def writes_def same_settings_def run_keeps_def counts_agree_def
      module_BackupFilters_def module_RestoreFilters_def lint_defs)

lemma ProcessFile_keeps:
  assumes "ProcessFile env extra filename vlevel g = Some g'"
    and "only_reports extra" and "signed_filters g" and "raised g = None"
  shows "run_keeps g g' \<and> verbose_level (cpplint_state g') = vlevel"
proof -
  define g1 where "g1 = module_BackupFilters (snd (module_SetVerboseLevel vlevel g))"
  from assms(1) obtain b g2 where c: "ProcessConfigOverrides env filename g1 = Some (b, g2)"
    by (auto simp: ProcessFile_def g1_def Let_def split: option.splits)
  have g1: "raised g1 = None" "signed_filters g1" "filters (cpplint_state g1) = filters (cpplint_state g)"
    using assms by (simp_all add: g1_def module_BackupFilters_def signed_filters_def lint_defs)
  from ProcessConfigOverrides_result [OF c g1(1,2)] obtain h fs where
    g2: "signed_filters g2" and h: "configures g1 h" "g2 = with_filters (filters (cpplint_state g) @ fs) h"
    unfolding g1(3) by blast
  have "g' \<in> module_RestoreFilters ` {k. writes g2 k}"
  proof (cases b)
    case False
    then show ?thesis
      using assms(1) c reports_writes [OF reports_refl] by (auto simp: ProcessFile_def g1_def Let_def)
  next
    case True
    then show ?thesis
      using assms(1) c process_text_writes [OF _ assms(2)] write_err_writes
        writes_trans [OF g2 process_text_writes [OF _ assms(2)] write_err_writes]
      by (auto simp: ProcessFile_def g1_def Let_def intro!: imageI split: option.splits if_splits)
  qed
  with configured_writes_keep h g2 show ?thesis unfolding g1_def by blast
qed

text \<open>C35: The configuration of one file does not leak into the next: when \<open>ProcessFile\<close> returns, the filters
  are those from before it, whatever the configuration files added; the other settings of
  the run are kept too (the line length excepted), the verbosity is the given one, and the counts
  still agree. It only appends to what was written, and counts no more errors than it wrote
  messages.\<close>

theorem ProcessFile_restores_filters:
  assumes "ProcessFile env extra filename vlevel g = Some g'"
    and "only_reports extra" and "signed_filters g" and "raised g = None" and "counts_agree (cpplint_state g)"
  shows "filters (cpplint_state g') = filters (cpplint_state g) \<and>
     root g' = root g \<and> valid_extensions g' = valid_extensions g \<and>
     counting (cpplint_state g') = counting (cpplint_state g) \<and>
     output_format (cpplint_state g') = output_format (cpplint_state g) \<and>
     verbose_level (cpplint_state g') = vlevel \<and>
     (\<exists>msgs. stderr g' = stderr g @ msgs \<and>
        error_count (cpplint_state g') \<le> error_count (cpplint_state g) + length msgs) \<and>
     counts_agree (cpplint_state g') \<and> raised g' = None"
  using ProcessFile_keeps [OF assms(1-4)] assms(4,5) by (auto simp: run_keeps_def)

definition config_example :: environment where
  "config_example =
     \<lparr>files = \<lparr>fs_cwd = ''/p'', fs_exists = (\<lambda>_. False)\<rparr>, isfile = (\<lambda>f. f = ''/p/CPPLINT.cfg''),
      open_lines = (\<lambda>_. Some [''filter=-build'', ''filter=+build/class'', ''linelength=100'']),
      header_lines = (\<lambda>_. None), read_text = (\<lambda>_. Some []), stdin_text = None\<rparr>"

theorem ProcessFile_restores_filters_witness:
  "\<exists>g. ProcessFile config_example [] ''a.txt'' 1 lint_init = Some g \<and> filters (cpplint_state g) = DEFAULT_FILTERS"
proof -
  have "ProcessFile config_example [] ''a.txt'' 1 lint_init \<noteq> None" by code_simp
  then obtain g where g: "ProcessFile config_example [] ''a.txt'' 1 lint_init = Some g" by blast
  have "signed_filters lint_init" "raised lint_init = None" "counts_agree (cpplint_state lint_init)"
    "filters (cpplint_state lint_init) = DEFAULT_FILTERS" by code_simp+
  with g ProcessFile_restores_filters [OF g] show ?thesis by (simp add: only_reports_def)
qed

text \<open>The line length that a configuration file sets is not restored: the next file is checked with it.\<close>

lemma line_length_leaks:
  "map_option line_length (ProcessFile config_example [] ''a.txt'' 1 lint_init) = Some 100"
  "line_length lint_init = 80"
  by code_simp+

section \<open>A whole run\<close>

lemma process_files_keeps:
  "process_files env filenames g = Some g' \<Longrightarrow> signed_filters g \<Longrightarrow> raised g = None \<Longrightarrow> run_keeps g g'"
proof (induction filenames arbitrary: g)
  case (Cons f fs)
  then obtain h where f: "ProcessFile env [] f (verbose_level (cpplint_state g)) g = Some h"
    and h: "process_files env fs h = Some g'"
    by (auto simp: process_files_def split: option.splits)
  have "run_keeps g h" using ProcessFile_keeps [OF f] Cons.prems by (simp add: only_reports_def)
  moreover from this have "signed_filters h" "raised h = None"
    using Cons.prems by (simp_all add: run_keeps_def signed_filters_def)
  ultimately show ?case using Cons.IH [OF h] run_keeps_trans by blast
qed (simp add: process_files_def run_keeps_refl)

lemma ParseArguments_settings:
  "ParseArguments args g = Some (Inr (filenames, g')) \<Longrightarrow> signed_filters g' \<and> raised g' = None"
  by (auto simp: ParseArguments_def Let_def module_SetFilters_def lint_defs signed_filters_def find_None_iff
      split: option.splits sum.splits if_splits) blast+

lemma run_write_err: "run (map write_err ms) g = g\<lparr>stderr := stderr g @ ms\<rparr>"
  by (induction ms arbitrary: g) (simp_all add: write_err_def)

text \<open>C36: The exit status and the summary of a run: once the arguments are accepted, no filter makes a
  check fail, the filters at the end are those of the command line, the counts by category
  agree with the total, the status is 0 exactly when no error was counted, and the last
  texts written are the summary of these counts.\<close>

theorem main_exit_status:
  assumes "ParseArguments args g = Some (Inr (filenames, g1))" and "main env args g = Some (status, g')"
  shows "raised g' = None \<and> filters (cpplint_state g') = filters (cpplint_state g1) \<and>
     counts_agree (cpplint_state g') \<and>
     status = (if error_count (cpplint_state g') = 0 then 0 else 1) \<and>
     (\<exists>msgs. stderr g' = stderr g1 @ msgs @ PrintErrorCounts (cpplint_state g') \<and>
        error_count (cpplint_state g') \<le> length msgs)"
proof -
  let ?h = "lift_state ResetErrorCounts g1"
  from assms obtain k where k: "process_files env filenames ?h = Some k"
    and s: "status = (if error_count (cpplint_state k) > 0 then 1 else 0)"
    and g': "g' = k\<lparr>stderr := stderr k @ PrintErrorCounts (cpplint_state k)\<rparr>"
    by (auto simp: main_def run_write_err split: option.splits)
  have h: "signed_filters ?h" "raised ?h = None" "counts_agree (cpplint_state ?h)"
    using ParseArguments_settings [OF assms(1)]
    by (simp_all add: signed_filters_def counts_agree_def lint_defs)
  from process_files_keeps [OF k h(1,2)] h s g' show ?thesis
    by (auto simp: run_keeps_def lint_defs)
qed

theorem main_exit_status_witness:
  "\<exists>g. main config_example [''--filter=-build'', ''a.txt''] lint_init = Some (0, g) \<and> counts_agree (cpplint_state g)"
proof -
  let ?args = "[''--filter=-build'', ''a.txt'']"
  have "map_option (\<lambda>r. case r of Inl x \<Rightarrow> [] | Inr x \<Rightarrow> fst x) (ParseArguments ?args lint_init) = Some [''a.txt'']"
    by code_simp
  then obtain r where "ParseArguments ?args lint_init = Some r"
    and "(case r of Inl x \<Rightarrow> [] | Inr x \<Rightarrow> fst x) = [''a.txt'']"
    by (auto simp only: map_option_eq_Some)
  then obtain g1 where "ParseArguments ?args lint_init = Some (Inr ([''a.txt''], g1))"
    by (cases r) auto
  moreover have "map_option fst (main config_example ?args lint_init) = Some 0" by code_simp
  then obtain g where "main config_example ?args lint_init = Some (0, g)" by auto
  ultimately show ?thesis using main_exit_status by blast
qed

section \<open>Which filters a file gets\<close>

text \<open>The reference: the configuration files from the directory of the file up to the root or to the
  first that says \<open>set noparent\<close>, and the values of their \<open>filter\<close> lines.\<close>

definition entry_name :: "string \<Rightarrow> string" where
  "entry_name line = strip_bytes (fst (partition_at (CHR ''='') (fst (partition_at (CHR ''#'') line))))"

definition entry_value :: "string \<Rightarrow> string" where
  "entry_value line = strip_bytes (snd (partition_at (CHR ''='') (fst (partition_at (CHR ''#'') line))))"

definition filter_values :: "string list \<Rightarrow> string list" where
  "filter_values ls = map entry_value (filter (\<lambda>line. entry_name line = ''filter'') ls)"

function config_chain :: "environment \<Rightarrow> string \<Rightarrow> string list list" where
  "config_chain env p =
     (if path_tail p = [] then []
      else
        (let cfg_file = path_join (path_head p) ''CPPLINT.cfg'' in
         if \<not> isfile env cfg_file then config_chain env (path_head p)
         else case open_lines env cfg_file of
           None \<Rightarrow> []
         | Some ls \<Rightarrow>
             ls # (if ''set noparent'' \<in> entry_name ` set ls then [] else config_chain env (path_head p))))"
  by pat_completeness auto
termination
  by (relation "measure (\<lambda>(env, p). length p)") (auto simp: path_tail_shorter)

declare config_chain.simps [simp del]

text \<open>A blank line has a blank name, so skipping it changes nothing.\<close>

lemma strip_bytes_blank: "strip_bytes s = [] \<longleftrightarrow> list_all re_space s"
  by (auto simp: strip_bytes_def list_all_iff dest: set_dropWhileD)
    (metis Un_iff set_append set_takeWhileD takeWhile_dropWhile_id)

lemma strip_bytes_takeWhile: "strip_bytes s = [] \<Longrightarrow> strip_bytes (takeWhile P s) = []"
  by (auto simp: strip_bytes_blank list_all_iff dest: set_takeWhileD)

lemma config_line_entry:
  assumes "config_line filename cfg_file base_name line c = Some (Inr c')"
  shows "cfg_filters c' = cfg_filters c @ filter_values [line] \<and>
     keep_looking c' = (keep_looking c \<and> entry_name line \<noteq> ''set noparent'')"
  using assms
  by (auto simp: config_line_def Let_def filter_values_def entry_name_def entry_value_def partition_at_def
      strip_bytes_takeWhile split: if_splits option.splits)

lemma config_lines_entries:
  "config_lines filename cfg_file base_name ls c = Some (Inr c') \<Longrightarrow>
     cfg_filters c' = cfg_filters c @ filter_values ls \<and>
     keep_looking c' = (keep_looking c \<and> ''set noparent'' \<notin> entry_name ` set ls)"
proof (induction ls arbitrary: c)
  case (Cons line ls)
  then obtain d where d: "config_line filename cfg_file base_name line c = Some (Inr d)"
    and ls: "config_lines filename cfg_file base_name ls d = Some (Inr c')"
    by (auto split: option.splits sum.splits)
  from Cons.IH [OF ls] config_line_entry [OF d] show ?case by (auto simp: filter_values_def)
qed (simp add: filter_values_def)

lemma config_loop_stop: "\<not> keep_looking c \<Longrightarrow> config_loop env filename p c = Some (Inr c)"
  by (simp add: config_loop.simps split: prod.split)

lemma config_loop_chain:
  "config_loop env filename p c = Some (Inr c') \<Longrightarrow> keep_looking c \<Longrightarrow>
     cfg_filters c' = cfg_filters c @ concat (map filter_values (config_chain env p))"
proof (induction env filename p c rule: config_loop.induct)
  case (1 env filename p c)
  let ?cfg = "path_join (path_head p) ''CPPLINT.cfg''"
  note simps = config_loop.simps [of env filename p c] config_chain.simps [of env p] path_split_def
  show ?case
  proof (cases "path_tail p = []")
    case True
    then show ?thesis using 1 by (simp add: simps)
  next
    case False
    with 1 obtain d where d: "config_dir env filename (path_head p) (path_tail p) c = Some (Inr d)"
      and loop: "config_loop env filename (path_head p) d = Some (Inr c')"
      by (auto simp: simps split: option.splits sum.splits)
    have IH: "keep_looking d \<Longrightarrow>
        cfg_filters c' = cfg_filters d @ concat (map filter_values (config_chain env (path_head p)))"
      using 1 False d loop by (simp add: path_split_def)
    have stop: "\<not> keep_looking d \<Longrightarrow> c' = d" using loop by (simp add: config_loop_stop)
    show ?thesis
      using d IH stop False 1(3)
      by (cases "keep_looking d")
        (auto simp: config_dir_def Let_def config_chain.simps [of env p] dest!: config_lines_entries
          split: if_splits option.splits)
  qed
qed

text \<open>C37: The filters for a file are those of the command line, followed by the values in the
  configuration files in reverse order, so that a directory overrides those above it.\<close>

theorem ProcessConfigOverrides_filters:
  assumes "ProcessConfigOverrides env filename g = Some (True, g')" and "raised g = None" and "signed_filters g"
  shows "filters (cpplint_state g') = filters (cpplint_state g) @
     concat (map split_filters
       (rev (concat (map filter_values (config_chain env (path_abspath (files env) filename))))))"
proof -
  from assms(1) obtain c where
    c: "config_loop env filename (path_abspath (files env) filename)
          \<lparr>keep_looking = True, cfg_filters = [], cfg_lint = g\<rparr> = Some (Inr c)"
    and f: "run_opt (map apply_filter (rev (cfg_filters c))) (cfg_lint c) = Some g'"
    by (auto simp: ProcessConfigOverrides_def split: option.splits sum.splits)
  from config_loop_configures [OF c] have same: "cpplint_state (cfg_lint c) = cpplint_state g" "raised (cfg_lint c) = None"
    using assms(2) by (auto simp: configures_def outcome_lint_def)
  then have "signed_filters (cfg_lint c)" using assms(3) by (simp add: signed_filters_def)
  from apply_filters_result [OF f same(2) this] config_loop_chain [OF c] same show ?thesis by auto
qed

theorem ProcessConfigOverrides_filters_witness:
  "\<exists>g. ProcessConfigOverrides config_example ''a.cc'' lint_init = Some (True, g) \<and>
     filters (cpplint_state g) = [''-build/include_alpha'', ''+build/class'', ''-build'']"
proof -
  have "map_option fst (ProcessConfigOverrides config_example ''a.cc'' lint_init) = Some True" by code_simp
  then obtain g where g: "ProcessConfigOverrides config_example ''a.cc'' lint_init = Some (True, g)" by auto
  moreover have "raised lint_init = None" "signed_filters lint_init" by code_simp+
  moreover have "filters (cpplint_state lint_init) @ concat (map split_filters (rev (concat (map filter_values
      (config_chain config_example (path_abspath (files config_example) ''a.cc'')))))) =
      [''-build/include_alpha'', ''+build/class'', ''-build'']" by code_simp
  ultimately show ?thesis using ProcessConfigOverrides_filters [OF g] by simp
qed

text \<open>Also the lines of one file are applied from the last to the first, so the first line wins: with
  \<open>filter=-build\<close> before \<open>filter=+build/class\<close> the category \<open>build/class\<close> is not printed, while the same
  filters on the command line print it.\<close>

lemma config_lines_reversed:
  "map_option (\<lambda>(b, g). ShouldPrintError ''build/class'' 5 1 g)
     (ProcessConfigOverrides config_example ''a.cc'' lint_init) = Some (Some False)"
  "ShouldPrintError ''build/class'' 5 1 (module_SetFilters ''-build,+build/class'' lint_init) = Some True"
  by code_simp+

section \<open>The options\<close>

lemma long_option_exact:
  "list_all (\<lambda>l. endswith l ''='' \<longrightarrow> CHR ''='' \<notin> set (butlast l) \<and> long_has_args (butlast l) = Some (True, butlast l))
     long_options"
  by code_simp

text \<open>Options written as \<open>--name=value\<close> before the names of the files are read back: each with its value,
  in order, and the files after them.\<close>

lemma getopt_roundtrip:
  assumes "\<forall>(n, v) \<in> set opts. n @ ''='' \<in> set long_options"
    and "filenames = [] \<or> hd filenames = ''-'' \<or> \<not> startswith (hd filenames) ''-''"
  shows "getopt (map (\<lambda>(n, v). ''--'' @ n @ ''='' @ v) opts @ filenames) =
     Some (map (\<lambda>(n, v). (''--'' @ n, v)) opts, filenames)"
  using assms(1)
proof (induction opts)
  case Nil
  show ?case using assms(2) by (cases filenames) auto
next
  case (Cons nv opts)
  obtain n v where nv: "nv = (n, v)" by fastforce
  with Cons.prems have "n @ ''='' \<in> set long_options" by simp
  with long_option_exact have n: "CHR ''='' \<notin> set n" "long_has_args n = Some (True, n)"
    by (fastforce simp: list_all_iff endswith_def)+
  have "partition_at (CHR ''='') (n @ CHR ''='' # v) = (n, v)"
    using n(1) by (auto simp: partition_at_def takeWhile_append dropWhile_append)
  then have "do_longs (n @ CHR ''='' # v) args = Some ((''--'' @ n, v), args)" for args
    using n(2) by (simp add: do_longs_def)
  with Cons nv show ?case by simp
qed

text \<open>The settings a user can give, the argument that gives each, and what it means for the run.\<close>

datatype setting =
  Verbose int | Output string | Filter "string list" | Counting string | Root string | Linelength int
  | Extensions "string list"

fun setting_name :: "setting \<Rightarrow> string" where
  "setting_name (Verbose n) = ''verbose''"
| "setting_name (Output v) = ''output''"
| "setting_name (Filter fs) = ''filter''"
| "setting_name (Counting v) = ''counting''"
| "setting_name (Root d) = ''root''"
| "setting_name (Linelength n) = ''linelength''"
| "setting_name (Extensions es) = ''extensions''"

fun setting_value :: "setting \<Rightarrow> string" where
  "setting_value (Verbose n) = str_of_int n"
| "setting_value (Output v) = v"
| "setting_value (Filter fs) = py_join '','' fs"
| "setting_value (Counting v) = v"
| "setting_value (Root d) = d"
| "setting_value (Linelength n) = str_of_int n"
| "setting_value (Extensions es) = py_join '','' es"

definition argument_of :: "setting \<Rightarrow> string" where
  "argument_of s = ''--'' @ setting_name s @ ''='' @ setting_value s"

fun setting_ok :: "setting \<Rightarrow> bool" where
  "setting_ok (Output v) = (v \<in> {''emacs'', ''vs7'', ''eclipse''})"
| "setting_ok (Filter fs) =
     (fs \<noteq> [] \<and> list_all (\<lambda>f. signed_filter f \<and> CHR '','' \<notin> set f \<and> strip_bytes f = f) fs)"
| "setting_ok (Counting v) = (v \<in> {''total'', ''toplevel'', ''detailed''})"
| "setting_ok (Extensions es) = (es \<noteq> [] \<and> list_all (\<lambda>e. CHR '','' \<notin> set e) es)"
| "setting_ok s = True"

fun apply_setting :: "setting \<Rightarrow> lint \<Rightarrow> lint" where
  "apply_setting (Verbose n) = lift_state (\<lambda>st. st\<lparr>verbose_level := n\<rparr>)"
| "apply_setting (Output v) = lift_state (\<lambda>st. st\<lparr>output_format := v\<rparr>)"
| "apply_setting (Filter fs) = lift_state (\<lambda>st. st\<lparr>filters := DEFAULT_FILTERS @ fs\<rparr>)"
| "apply_setting (Counting v) = lift_state (\<lambda>st. st\<lparr>counting := v\<rparr>)"
| "apply_setting (Root d) = (\<lambda>g. g\<lparr>root := Some d\<rparr>)"
| "apply_setting (Linelength n) = (\<lambda>g. g\<lparr>line_length := n\<rparr>)"
| "apply_setting (Extensions es) = (\<lambda>g. g\<lparr>valid_extensions := remdups es\<rparr>)"

text \<open>Without arguments the filters are the default ones and errors are not counted by category.\<close>

definition without_settings :: "lint \<Rightarrow> lint" where
  "without_settings = lift_state (\<lambda>st. st\<lparr>filters := DEFAULT_FILTERS, counting := []\<rparr>)"

lemma not_space: "is_digit c \<or> c = CHR ''-'' \<Longrightarrow> \<not> re_space c"
  by (auto simp: is_digit_def re_space_def)

lemma py_int_str: "py_int (str_of_int n) = Some n"
proof -
  have d: "list_all is_digit (str_of_nat k)" for k using str_of_nat_digits by (auto simp: list_all_iff)
  have h: "\<not> re_space (hd (str_of_nat k))" "\<not> re_space (last (str_of_nat k))" for k
    using str_of_nat_digits [of _ k] not_space by auto
  have keep: "dropWhile re_space s = s" if "s \<noteq> []" "\<not> re_space (hd s)" for s
    using that by (cases s) auto
  have s: "strip_bytes (str_of_int n) = str_of_int n"
    unfolding strip_bytes_def using h not_space
    by (auto simp: str_of_int_def keep hd_rev split: if_splits)
  have nd: "\<not> startswith (str_of_nat k) ''-''" "\<not> startswith (str_of_nat k) ''+''" for k
    using str_of_nat_digits [of "hd (str_of_nat k)" k] by (cases "str_of_nat k"; force simp: is_digit_def)+
  show ?thesis
    unfolding py_int_def s Let_def using d h nd
    by (auto simp: str_of_int_def keep nat_of_str_of_nat split: if_splits)
qed

lemma setting_name_long: "setting_name s @ ''='' \<in> set long_options"
  by (cases s) (simp_all add: long_options_def)

text \<open>What the loop collects, and what the end of \<open>ParseArguments\<close> makes of it.\<close>

fun collect :: "setting \<Rightarrow> options \<Rightarrow> options" where
  "collect (Verbose n) c = c\<lparr>opt_verbosity := n\<rparr>"
| "collect (Output v) c = c\<lparr>opt_output_format := v\<rparr>"
| "collect (Filter fs) c = c\<lparr>opt_filters := py_join '','' fs\<rparr>"
| "collect (Counting v) c = c\<lparr>opt_counting_style := v\<rparr>"
| "collect s c = c\<lparr>opt_lint := apply_setting s (opt_lint c)\<rparr>"

lemma split_filters_Nil: "split_filters [] = []"
  by (simp add: split_filters_def strip_bytes_def)

lemma joined_filters:
  assumes "setting_ok (Filter fs)"
  shows "split_filters (py_join '','' fs) = fs"
proof -
  have "py_split (CHR '','') (py_join '','' fs) = fs" using assms by (intro py_split_join) (auto simp: list_all_iff)
  moreover have "map strip_bytes fs = fs" using assms by (auto simp: list_all_iff intro: map_idI)
  moreover have "filter (\<lambda>f. f \<noteq> []) fs = fs"
    using assms by (auto simp: filter_id_conv list_all_iff signed_filter_def)
  ultimately show ?thesis by (simp add: split_filters_def)
qed

lemma parse_option_setting:
  assumes "setting_ok s"
  shows "parse_option (''--'' @ setting_name s, setting_value s) c = Some (Inr (collect s c))"
proof (cases s)
  case (Filter fs)
  with joined_filters [of fs] split_filters_Nil assms have "py_join '','' fs \<noteq> []" by auto
  with Filter show ?thesis by (simp add: parse_option_def)
next
  case (Extensions es)
  then have "py_split (CHR '','') (py_join '','' es) = es" using assms by (intro py_split_join) auto
  with Extensions show ?thesis by (simp add: parse_option_def)
qed (use assms in \<open>auto simp: parse_option_def py_int_str\<close>)

lemma parse_options_settings:
  "list_all setting_ok ss \<Longrightarrow>
     parse_options (map (\<lambda>s. (''--'' @ setting_name s, setting_value s)) ss) c = Some (Inr (fold collect ss c))"
proof (induction ss arbitrary: c)
  case (Cons s ss)
  then show ?case using parse_option_setting [of s c] by simp
qed simp

definition finish :: "options \<Rightarrow> lint" where
  "finish c = lift_state (\<lambda>st. st\<lparr>output_format := opt_output_format c, verbose_level := opt_verbosity c,
     filters := DEFAULT_FILTERS @ split_filters (opt_filters c), counting := opt_counting_style c\<rparr>) (opt_lint c)"

lemma finish_collect: "setting_ok s \<Longrightarrow> finish (collect s c) = apply_setting s (finish c)"
  by (cases s) (simp_all add: finish_def lift_state_def joined_filters)

lemma finish_fold: "list_all setting_ok ss \<Longrightarrow> finish (fold collect ss c) = fold apply_setting ss (finish c)"
  by (induction ss arbitrary: c) (simp_all add: finish_collect)

lemma signed_fold:
  "list_all setting_ok ss \<Longrightarrow> list_all signed_filter (split_filters (opt_filters c)) \<Longrightarrow>
     list_all signed_filter (split_filters (opt_filters (fold collect ss c)))"
proof (induction ss arbitrary: c)
  case (Cons s ss)
  then have "list_all signed_filter (split_filters (opt_filters (collect s c)))"
    by (cases s) (auto simp: joined_filters list_all_iff)
  with Cons show ?case by simp
qed simp

lemma fold_keeps_raised: "raised (opt_lint (fold collect ss c)) = raised (opt_lint c)"
proof (induction ss arbitrary: c)
  case (Cons s ss)
  then show ?case by (cases s) (simp_all add: lift_state_def)
qed simp

lemma set_filters_signed:
  assumes "list_all signed_filter (split_filters fs)"
  shows "module_SetFilters fs g = lift_state (\<lambda>st. st\<lparr>filters := DEFAULT_FILTERS @ split_filters fs\<rparr>) g"
proof -
  have "list_all signed_filter (DEFAULT_FILTERS @ split_filters fs)"
    using assms by (simp add: DEFAULT_FILTERS_def signed_filter_def)
  then have "find (\<lambda>filt. \<not> signed_filter filt) (DEFAULT_FILTERS @ split_filters fs) = None"
    by (auto simp: find_None_iff list_all_iff)
  then show ?thesis
    by (simp add: module_SetFilters_def lift_filters_def SetFilters_def AddFilters_def lift_state_def
        split_filters_def [symmetric])
qed

text \<open>C38: The command line sets what it says. Arguments \<open>--name=value\<close> for any sequence of settings, followed by at
  least one file whose name does not begin with a dash, give the files and the state in which the settings were made one
  after the other, so that the last of each kind counts; the filters come behind the default ones. Needed:
  known output formats and counting styles, filters with a sign, and no commas or surrounding white space in the
  members of a list of filters, nor commas in those of a list of extensions.\<close>

theorem ParseArguments_reads:
  assumes "list_all setting_ok ss" and "filenames \<noteq> []" and "\<not> startswith (hd filenames) ''-''"
    and "raised g = None"
  shows "ParseArguments (map argument_of ss @ filenames) g =
     Some (Inr (filenames, fold apply_setting ss (without_settings g)))"
proof -
  define c where "c = \<lparr>opt_verbosity = module_VerboseLevel g, opt_output_format = module_OutputFormat g,
    opt_filters = [], opt_counting_style = [], opt_lint = g\<rparr>"
  let ?c = "fold collect ss c"
  have "\<forall>(n, v) \<in> set (map (\<lambda>s. (setting_name s, setting_value s)) ss). n @ ''='' \<in> set long_options"
    using setting_name_long by auto
  from getopt_roundtrip [OF this, of filenames] assms(3)
  have opts: "getopt (map argument_of ss @ filenames) =
      Some (map (\<lambda>s. (''--'' @ setting_name s, setting_value s)) ss, filenames)"
    by (simp add: argument_of_def [abs_def] comp_def)
  have fin: "finish c = without_settings g"
    by (simp add: c_def finish_def without_settings_def lift_state_def split_filters_Nil module_VerboseLevel_def
        module_OutputFormat_def)
  have signed: "list_all signed_filter (split_filters (opt_filters ?c))"
    using assms(1) by (intro signed_fold) (simp_all add: c_def split_filters_Nil)
  have "raised (opt_lint ?c) = None" using assms(4) by (simp add: fold_keeps_raised c_def)
  then show ?thesis
    using assms(2) signed finish_fold [OF assms(1), of c]
    unfolding ParseArguments_def opts c_def [symmetric] fin
    by (simp only: option.case prod.case parse_options_settings [OF assms(1)] sum.case if_False)
      (simp add: Let_def set_filters_signed finish_def lift_state_def
        module_SetOutputFormat_def module_SetVerboseLevel_def module_SetCountingStyle_def SetVerboseLevel_def
        SetOutputFormat_def SetCountingStyle_def)
qed

theorem ParseArguments_reads_witness:
  "map_option (map_sum fst (map_prod id (\<lambda>g. (verbose_level (cpplint_state g), filters (cpplint_state g), line_length g))))
     (ParseArguments [''--verbose=0'', ''--filter=-a,+a/b'', ''--linelength=100'', ''--verbose=-2'', ''x.cc''] lint_init) =
   Some (Inr ([''x.cc''], -2, [''-build/include_alpha'', ''-a'', ''+a/b''], 100))"
proof -
  let ?ss = "[Verbose 0, Filter [''-a'', ''+a/b''], Linelength 100, Verbose (- 2)]"
  have "list_all setting_ok ?ss" "[''x.cc''] \<noteq> []" "\<not> startswith (hd [''x.cc'']) ''-''" "raised lint_init = None"
    by code_simp+
  moreover have "map argument_of ?ss = [''--verbose=0'', ''--filter=-a,+a/b'', ''--linelength=100'', ''--verbose=-2'']"
    by code_simp
  ultimately show ?thesis using ParseArguments_reads [of ?ss "[''x.cc'']" lint_init]
    by (simp add: lift_state_def without_settings_def DEFAULT_FILTERS_def lint_init_def)
qed

end
