(* ===== verification/Build_Scripts.thy ===== *)
theory Build_Scripts
  imports Db_Api Py_Path
begin

text \<open>
  The scripts of the build: \<^verbatim>\<open>python/setup.py\<close> and \<^verbatim>\<open>build-support/collect_coverage.py\<close>. What they
  read (the version of Cython, the environment, the file system, the platform) are arguments, what
  they do to the outside is the result: the arguments of \<^verbatim>\<open>setup\<close>, the text of the version file,
  the list of copies to make.
\<close>

section \<open>setup.py\<close>

definition cython_too_old :: "string \<Rightarrow> bool" where
  "cython_too_old version = str_less version ''0.19.1''"

definition MAJOR :: nat where "MAJOR = 0"
definition MINOR :: nat where "MINOR = 1"
definition MICRO :: nat where "MICRO = 0"

definition VERSION :: string where
  "VERSION = str_of_nat MAJOR @ ''.'' @ str_of_nat MINOR @ ''.'' @ str_of_nat MICRO"

definition ISRELEASED :: bool where
  "ISRELEASED = False"

text \<open>\<open>write_version_py\<close>: the text it writes. The local \<open>version\<close> with its suffix is computed and
  not used.\<close>

definition write_version_py :: "string \<Rightarrow> bool \<Rightarrow> exc + string" where
  "write_version_py V isreleased =
     (let version = (if \<not> isreleased then V @ ''.dev'' else V);
          file_content = py_join [newline]
            [[], ''# THIS FILE IS GENERATED FROM SETUP.PY'',
             ''version = '' @ [squote] @ ''%(version)s'' @ [squote],
             ''isrelease = '' @ [squote] @ ''%(isrelease)s'' @ [squote]]
      in py_format [''version'' \<mapsto> V, ''isrelease'' \<mapsto> (if isreleased then ''True'' else ''False'')]
           file_content)"

text \<open>\<open>clean.run\<close> after the inherited part: the files are removed, and an \<^verbatim>\<open>OSError\<close> of the removal
  is dropped, so the file system is as the removal leaves it.\<close>

definition clean_run :: "(string \<Rightarrow> 'f \<Rightarrow> 'f) \<Rightarrow> 'f \<Rightarrow> 'f" where
  "clean_run remove fs = foldl (\<lambda>f x. remove x f) fs [''hs2client/ext.cpp'']"

datatype setup_failure = OldCython string | NotADirectory string | MissingHome string

record extension_args =
  ext_name :: string
  ext_sources :: "string list"
  ext_libraries :: "string list"
  ext_include_dirs :: "string list"
  ext_library_dirs :: "string list"
  ext_compile_args :: "string list"
  ext_runtime_library_dirs :: "string list"

definition hs2client_dirs :: "(string \<Rightarrow> bool) \<Rightarrow> string option \<Rightarrow>
    setup_failure + (string list \<times> string)" where
  "hs2client_dirs isdir home =
     (case home of
        None \<Rightarrow> Inl (MissingHome ''HS2CLIENT_HOME'')
      | Some h \<Rightarrow>
          if \<not> isdir h then Inl (NotADirectory h)
          else Inr ([path_join h ''src'', path_join h ''include''], path_join h ''lib''))"

definition make_extension :: "string list \<Rightarrow> string \<Rightarrow> string \<Rightarrow> string \<Rightarrow> string \<Rightarrow> extension_args" where
  "make_extension include_dirs lib_dir np_include platform submodule_name =
     \<lparr>ext_name = ''hs2client.'' @ submodule_name,
      ext_sources = [''hs2client/'' @ submodule_name @ ''.pyx''],
      ext_libraries = [''hs2client''],
      ext_include_dirs = include_dirs @ [np_include],
      ext_library_dirs = [lib_dir],
      ext_compile_args = (if platform \<noteq> ''Windows'' then [''-std=c++11''] else []),
      ext_runtime_library_dirs = [lib_dir]\<rparr>"

definition run_setup :: "string \<Rightarrow> (string \<Rightarrow> bool) \<Rightarrow> string option \<Rightarrow> string \<Rightarrow> string \<Rightarrow>
    setup_failure + (extension_args list \<times> string \<times> (exc + string))" where
  "run_setup cython_version isdir home np_include platform =
     (if cython_too_old cython_version
      then Inl (OldCython ''Please upgrade to Cython 0.19.1 or newer'')
      else case hs2client_dirs isdir home of
             Inl e \<Rightarrow> Inl e
           | Inr (include_dirs, lib_dir) \<Rightarrow>
               Inr (map (make_extension include_dirs lib_dir np_include platform) [''ext''],
                    VERSION, write_version_py VERSION ISRELEASED))"

text \<open>The version file names the same version as the package, without the suffix of a version
  under development, although the package is not released.\<close>

lemma version_file:
  "write_version_py VERSION ISRELEASED =
     Inr ([newline] @ ''# THIS FILE IS GENERATED FROM SETUP.PY'' @ [newline] @
          ''version = '' @ [squote] @ ''0.1.0'' @ [squote] @ [newline] @
          ''isrelease = '' @ [squote] @ ''False'' @ [squote])"
  by code_simp

text \<open>The comparison of versions as texts accepts the old Cython 0.9.8 and would reject 0.100.\<close>

lemma cython_version_as_text:
  "\<not> cython_too_old ''0.9.8'' \<and> cython_too_old ''0.100'' \<and> \<not> cython_too_old ''0.21'' \<and> cython_too_old ''0.19''"
  by code_simp

lemma run_setup_iff:
  "(\<exists>r. run_setup cy isdir home np plat = Inr r) \<longleftrightarrow>
     \<not> cython_too_old cy \<and> (\<exists>h. home = Some h \<and> isdir h)"
  by (auto simp: run_setup_def hs2client_dirs_def split: option.splits)

section \<open>collect_coverage.py\<close>

definition is_coverage_file :: "string \<Rightarrow> bool" where
  "is_coverage_file path = (endswith path ''gcno'' \<or> endswith path ''gcda'')"

definition coverage_dst :: "string \<Rightarrow> string \<Rightarrow> string \<Rightarrow> string" where
  "coverage_dst path root_dir fname =
     py_join ''_'' [py_replace ''/'' ''_'' (py_replace path [] root_dir), fname]"

text \<open>The copies \<open>(from, to)\<close> in the order they are made; the argument \<open>walk\<close> is what
  \<^verbatim>\<open>os.walk(path)\<close> yields: each directory with its files.\<close>

fun copy_dir :: "string \<Rightarrow> string \<Rightarrow> string \<Rightarrow> string list \<Rightarrow> (string \<times> string) list" where
  "copy_dir path outpath root_dir [] = []"
| "copy_dir path outpath root_dir (fname # files) =
     (if \<not> is_coverage_file fname then copy_dir path outpath root_dir files
      else (path_join root_dir fname, path_join outpath (coverage_dst path root_dir fname)) #
           copy_dir path outpath root_dir files)"

fun copy_files :: "string \<Rightarrow> string \<Rightarrow> (string \<times> string list) list \<Rightarrow> (string \<times> string) list" where
  "copy_files path outpath [] = []"
| "copy_files path outpath ((root_dir, files) # walk) =
     copy_dir path outpath root_dir files @ copy_files path outpath walk"

lemma copy_dir_sources:
  "map fst (copy_dir path outpath d fs) = map (path_join d) (filter is_coverage_file fs)"
  by (induction fs) auto

lemma copy_files_sources:
  "map fst (copy_files path outpath walk) =
     concat (map (\<lambda>(d, fs). map (path_join d) (filter is_coverage_file fs)) walk)"
  by (induction walk) (auto simp: copy_dir_sources)

text \<open>Flattening a path to one name is not injective: the files of \<^verbatim>\<open>a/b\<close> and of \<^verbatim>\<open>a_b\<close> get one
  name and the later copy overwrites the earlier.\<close>

lemma coverage_collision:
  "map snd (copy_files ''build'' ''out'' [(''build/a/b'', [''x.gcda'']), (''build/a_b'', [''x.gcda''])]) =
     [''out/_a_b_x.gcda'', ''out/_a_b_x.gcda'']"
  by code_simp

end
