(* ===== verification/Hs2_Types.thy ===== *)
theory Hs2_Types
  imports Prelude
begin

text \<open>
  Statuses, enumerations and column types of the C++ library:
  \<^verbatim>\<open>src/hs2client/status.cc\<close>, \<^verbatim>\<open>types.h\<close>, \<^verbatim>\<open>types.cc\<close>, \<^verbatim>\<open>thrift-internal.cc\<close>.

  A value of a Thrift enumeration arrives as a 32-bit integer that the generated code casts
  without a check, so it is an \<^typ>\<open>int\<close> here and the default branches of the conversions can
  be reached. The structures of the Thrift interface are records with the fields the library
  reads. Checks that only exist in a debug build (\<^verbatim>\<open>DCHECK\<close>) and log lines are left out: the
  model is the release build.
\<close>

section \<open>Status\<close>

datatype StatusCode = Success | StillExecuting | StatusError | InvalidHandle

record Status =
  status_code :: StatusCode
  status_msg :: string

definition Status_OK :: "string \<Rightarrow> Status" where
  "Status_OK msg = \<lparr>status_code = Success, status_msg = msg\<rparr>"

definition Status_StillExecuting :: Status where
  "Status_StillExecuting = \<lparr>status_code = StillExecuting, status_msg = []\<rparr>"

definition Status_Error :: "string \<Rightarrow> Status" where
  "Status_Error msg = \<lparr>status_code = StatusError, status_msg = msg\<rparr>"

definition Status_InvalidHandle :: Status where
  "Status_InvalidHandle = \<lparr>status_code = InvalidHandle, status_msg = []\<rparr>"

definition Status_ok :: "Status \<Rightarrow> bool" where
  "Status_ok s = (status_code s = Success)"

definition IsStillExecuting :: "Status \<Rightarrow> bool" where
  "IsStillExecuting s = (status_code s = StillExecuting)"

definition IsError :: "Status \<Rightarrow> bool" where
  "IsError s = (status_code s = StatusError)"

definition IsInvalidHandle :: "Status \<Rightarrow> bool" where
  "IsInvalidHandle s = (status_code s = InvalidHandle)"

abbreviation (input) SUCCESS_STATUS :: int where "SUCCESS_STATUS \<equiv> 0"
abbreviation (input) SUCCESS_WITH_INFO_STATUS :: int where "SUCCESS_WITH_INFO_STATUS \<equiv> 1"
abbreviation (input) STILL_EXECUTING_STATUS :: int where "STILL_EXECUTING_STATUS \<equiv> 2"
abbreviation (input) ERROR_STATUS :: int where "ERROR_STATUS \<equiv> 3"
abbreviation (input) INVALID_HANDLE_STATUS :: int where "INVALID_HANDLE_STATUS \<equiv> 4"

record TStatus =
  statusCode :: int
  infoMessages :: "string list"
  errorMessage :: string

text \<open>The loop that joins the messages with commas writes one before each message but the
  first.\<close>

fun join_messages :: "nat \<Rightarrow> string list \<Rightarrow> string" where
  "join_messages i [] = []"
| "join_messages i (w # ws) = (if i \<noteq> 0 then '','' else []) @ w @ join_messages (Suc i) ws"

definition TStatusToStatus :: "TStatus \<Rightarrow> Status" where
  "TStatusToStatus ts =
     (if statusCode ts = SUCCESS_STATUS then Status_OK []
      else if statusCode ts = SUCCESS_WITH_INFO_STATUS
        then Status_OK (join_messages 0 (infoMessages ts))
      else if statusCode ts = STILL_EXECUTING_STATUS then Status_StillExecuting
      else if statusCode ts = ERROR_STATUS then Status_Error (errorMessage ts)
      else if statusCode ts = INVALID_HANDLE_STATUS then Status_InvalidHandle
      else Status_Error (''Unknown TStatusCode '' @ str_of_int (statusCode ts)))"

text \<open>The condition of the macro \<^verbatim>\<open>RETURN_NOT_OK\<close>.\<close>

definition tstatus_ok :: "TStatus \<Rightarrow> bool" where
  "tstatus_ok ts = (\<not> (statusCode ts \<noteq> SUCCESS_STATUS \<and> statusCode ts \<noteq> SUCCESS_WITH_INFO_STATUS))"

section \<open>States of an operation\<close>

datatype OperationState =
  INITIALIZED | RUNNING | FINISHED | CANCELED | CLOSED | ERROR | UNKNOWN | PENDING

definition OperationStateToString :: "OperationState \<Rightarrow> string" where
  "OperationStateToString st =
     (case st of
        INITIALIZED \<Rightarrow> ''INITIALIZED'' | RUNNING \<Rightarrow> ''RUNNING'' | FINISHED \<Rightarrow> ''FINISHED''
      | CANCELED \<Rightarrow> ''CANCELED'' | CLOSED \<Rightarrow> ''CLOSED'' | ERROR \<Rightarrow> ''ERROR''
      | UNKNOWN \<Rightarrow> ''UNKNOWN'' | PENDING \<Rightarrow> ''PENDING'')"

definition TOperationStateToOperationState :: "int \<Rightarrow> OperationState" where
  "TOperationStateToOperationState t =
     (if t = 0 then INITIALIZED else if t = 1 then RUNNING else if t = 2 then FINISHED
      else if t = 3 then CANCELED else if t = 4 then CLOSED else if t = 5 then ERROR
      else if t = 6 then UNKNOWN else if t = 7 then PENDING else UNKNOWN)"

section \<open>Orientation of a fetch and version of the protocol\<close>

datatype FetchOrientation = NEXT | PRIOR | RELATIVE | ABSOLUTE | FIRST | LAST

definition FetchOrientationToTFetchOrientation :: "FetchOrientation \<Rightarrow> int" where
  "FetchOrientationToTFetchOrientation f =
     (case f of NEXT \<Rightarrow> 0 | PRIOR \<Rightarrow> 1 | RELATIVE \<Rightarrow> 2 | ABSOLUTE \<Rightarrow> 3 | FIRST \<Rightarrow> 4 | LAST \<Rightarrow> 5)"

datatype ProtocolVersion =
    Protocol_V1 | Protocol_V2 | Protocol_V3 | Protocol_V4 | Protocol_V5 | Protocol_V6 | Protocol_V7

definition ProtocolVersionToTProtocolVersion :: "ProtocolVersion \<Rightarrow> int" where
  "ProtocolVersionToTProtocolVersion p =
     (case p of
        Protocol_V1 \<Rightarrow> 0 | Protocol_V2 \<Rightarrow> 1 | Protocol_V3 \<Rightarrow> 2 | Protocol_V4 \<Rightarrow> 3
      | Protocol_V5 \<Rightarrow> 4 | Protocol_V6 \<Rightarrow> 5 | Protocol_V7 \<Rightarrow> 6)"

abbreviation (input) HIVE_CLI_SERVICE_PROTOCOL_V6 :: int where
  "HIVE_CLI_SERVICE_PROTOCOL_V6 \<equiv> 5"

section \<open>Types of columns\<close>

datatype TypeId =
    ColumnType_BOOLEAN | ColumnType_TINYINT | ColumnType_SMALLINT | ColumnType_INT
  | ColumnType_BIGINT | ColumnType_FLOAT | ColumnType_DOUBLE | ColumnType_STRING
  | ColumnType_TIMESTAMP | ColumnType_BINARY | ColumnType_ARRAY | ColumnType_MAP
  | ColumnType_STRUCT | ColumnType_UNION | ColumnType_USER_DEFINED | ColumnType_DECIMAL
  | ColumnType_NULL_TYPE | ColumnType_DATE | ColumnType_VARCHAR | ColumnType_CHAR
  | ColumnType_INVALID

definition TypeIdToString :: "TypeId \<Rightarrow> string" where
  "TypeIdToString t =
     (case t of
        ColumnType_BOOLEAN \<Rightarrow> ''BOOLEAN''
      | ColumnType_TINYINT \<Rightarrow> ''TINYINT''
      | ColumnType_SMALLINT \<Rightarrow> ''SMALLINT''
      | ColumnType_INT \<Rightarrow> ''INT''
      | ColumnType_BIGINT \<Rightarrow> ''BIGINT''
      | ColumnType_FLOAT \<Rightarrow> ''FLOAT''
      | ColumnType_DOUBLE \<Rightarrow> ''DOUBLE''
      | ColumnType_STRING \<Rightarrow> ''STRING''
      | ColumnType_TIMESTAMP \<Rightarrow> ''TIMESTAMP''
      | ColumnType_BINARY \<Rightarrow> ''BINARY''
      | ColumnType_ARRAY \<Rightarrow> ''ARRAY''
      | ColumnType_MAP \<Rightarrow> ''MAP''
      | ColumnType_STRUCT \<Rightarrow> ''STRUCT''
      | ColumnType_UNION \<Rightarrow> ''UNION''
      | ColumnType_USER_DEFINED \<Rightarrow> ''USER_DEFINED''
      | ColumnType_DECIMAL \<Rightarrow> ''DECIMAL''
      | ColumnType_NULL_TYPE \<Rightarrow> ''NULL_TYPE''
      | ColumnType_DATE \<Rightarrow> ''DATE''
      | ColumnType_VARCHAR \<Rightarrow> ''VARCHAR''
      | ColumnType_CHAR \<Rightarrow> ''CHAR''
      | ColumnType_INVALID \<Rightarrow> ''INVALID'')"

definition all_TypeIds :: "TypeId list" where
  "all_TypeIds =
     [ColumnType_BOOLEAN, ColumnType_TINYINT, ColumnType_SMALLINT, ColumnType_INT,
      ColumnType_BIGINT, ColumnType_FLOAT, ColumnType_DOUBLE, ColumnType_STRING,
      ColumnType_TIMESTAMP, ColumnType_BINARY, ColumnType_ARRAY, ColumnType_MAP,
      ColumnType_STRUCT, ColumnType_UNION, ColumnType_USER_DEFINED, ColumnType_DECIMAL,
      ColumnType_NULL_TYPE, ColumnType_DATE, ColumnType_VARCHAR, ColumnType_CHAR]"

text \<open>The enumerators of \<^verbatim>\<open>TTypeId\<close> are numbered in the order of the cases.\<close>

definition TTypeIdToTypeId :: "int \<Rightarrow> TypeId" where
  "TTypeIdToTypeId t = (if 0 \<le> t \<and> t < 20 then all_TypeIds ! nat t else ColumnType_INVALID)"

text \<open>The dynamic class of a column type: \<^verbatim>\<open>PrimitiveType\<close> or one of its two subclasses.\<close>

datatype ColumnType =
    PrimitiveType TypeId
  | CharacterType TypeId int
  | DecimalType TypeId int int

fun type_id :: "ColumnType \<Rightarrow> TypeId" where
  "type_id (PrimitiveType t) = t"
| "type_id (CharacterType t m) = t"
| "type_id (DecimalType t p s) = t"

definition ColumnType_ToString :: "ColumnType \<Rightarrow> string" where
  "ColumnType_ToString ct = TypeIdToString (type_id ct)"

text \<open>A qualifier value is a union of an integer and a string; reading the integer of a union
  that holds a string gives the default 0.\<close>

datatype TTypeQualifierValue = I32 int | Str string

fun i32Value :: "TTypeQualifierValue \<Rightarrow> int" where
  "i32Value (I32 i) = i"
| "i32Value (Str s) = 0"

type_synonym qualifiers = "string \<rightharpoonup> TTypeQualifierValue"

datatype TTypeEntry = primitiveEntry int qualifiers | otherEntry

type_synonym TTypeDesc = "TTypeEntry list"

definition TTypeDescToColumnType :: "TTypeDesc \<Rightarrow> ColumnType" where
  "TTypeDescToColumnType types =
     (case types of
        [primitiveEntry tid q] \<Rightarrow>
          (let t = TTypeIdToTypeId tid in
           if t = ColumnType_CHAR \<or> t = ColumnType_VARCHAR then
             (case q ''characterMaximumLength'' of
                Some v \<Rightarrow> CharacterType t (i32Value v)
              | None \<Rightarrow> PrimitiveType ColumnType_INVALID)
           else if t = ColumnType_DECIMAL then
             (case (q ''precision'', q ''scale'') of
                (Some p, Some s) \<Rightarrow> DecimalType t (i32Value p) (i32Value s)
              | _ \<Rightarrow> PrimitiveType ColumnType_INVALID)
           else PrimitiveType t)
      | _ \<Rightarrow> PrimitiveType ColumnType_INVALID)"

record ColumnDesc =
  column_name :: string
  column_type :: ColumnType
  position :: int
  column_comment :: string

text \<open>The downcasts are \<^verbatim>\<open>static_cast\<close>s: on an object of another class the result is undefined,
  which is \<open>None\<close>.\<close>

definition GetCharacterType :: "ColumnDesc \<Rightarrow> (TypeId \<times> int) option" where
  "GetCharacterType d =
     (case column_type d of CharacterType t m \<Rightarrow> Some (t, m) | _ \<Rightarrow> None)"

definition GetDecimalType :: "ColumnDesc \<Rightarrow> (TypeId \<times> int \<times> int) option" where
  "GetDecimalType d =
     (case column_type d of DecimalType t p s \<Rightarrow> Some (t, p, s) | _ \<Rightarrow> None)"

section \<open>Lemmas\<close>

lemmas status_defs [rpc_defs] =
  Status_OK_def Status_StillExecuting_def Status_Error_def Status_InvalidHandle_def Status_ok_def

lemma ok_TStatusToStatus: "Status_ok (TStatusToStatus ts) = tstatus_ok ts"
  by (simp add: TStatusToStatus_def tstatus_ok_def status_defs)

lemma Status_ok_simps [simp]:
  "Status_ok (Status_OK m)" "\<not> Status_ok (Status_Error m)"
  "\<not> Status_ok Status_StillExecuting" "\<not> Status_ok Status_InvalidHandle"
  by (simp_all add: status_defs)

lemma join_messages_Suc: "join_messages (Suc i) ws = concat (map (\<lambda>w. '','' @ w) ws)"
  by (induction ws arbitrary: i) auto

lemma py_join_concat: "py_join '','' (w # ws) = w @ concat (map (\<lambda>w. '','' @ w) ws)"
  by (induction ws arbitrary: w) auto

lemma join_messages_join: "join_messages 0 ws = py_join '','' ws"
  by (cases ws) (simp_all add: join_messages_Suc py_join_concat)

text \<open>A column type is well formed when its class fits its identifier.\<close>

fun column_type_ok :: "ColumnType \<Rightarrow> bool" where
  "column_type_ok (PrimitiveType t) = (t \<notin> {ColumnType_CHAR, ColumnType_VARCHAR, ColumnType_DECIMAL})"
| "column_type_ok (CharacterType t m) = (t \<in> {ColumnType_CHAR, ColumnType_VARCHAR})"
| "column_type_ok (DecimalType t p s) = (t = ColumnType_DECIMAL)"

lemma TTypeDescToColumnType_ok: "column_type_ok (TTypeDescToColumnType types)"
  by (auto simp: TTypeDescToColumnType_def Let_def
      split: list.splits TTypeEntry.splits option.splits)

lemma TypeIdToString_inject: "TypeIdToString s = TypeIdToString t \<longleftrightarrow> s = t"
  by (cases s; cases t) (simp_all add: TypeIdToString_def)

end
