(* ===== verification/Py_Text.thy ===== *)
theory Py_Text
  imports Prelude
begin

text \<open>
  The boundary between Python texts and the byte strings of the C++ library:
  \<^verbatim>\<open>python/hs2client/compat.py\<close>. A text is a list of code points, a byte string is a
  \<^typ>\<open>string\<close> (a character is a byte); UTF-8 is the codec of CPython: strict, without
  overlong forms, surrogates or code points above 10FFFF. The flag \<open>PY2\<close> of the module is
  the argument \<open>py2\<close> of the functions that depend on it.
\<close>

section \<open>Values and exceptions of Python\<close>

type_synonym bytes = string
type_synonym pytext = "nat list"

text \<open>\<open>POther\<close> is an object of a class outside this model.\<close>

datatype py_obj = PNone | PBool bool | PInt int | PBytes bytes | PText pytext | POther nat

datatype py_exc =
    NativeException py_obj
  | NotImplementedError py_obj
  | IndexError py_obj
  | Exception py_obj
  | TypeError
  | AttributeError
  | UnicodeEncodeError
  | UnicodeDecodeError
  | OverflowError
  | ValueError

text \<open>A literal of the source, as the type \<open>str\<close> of the running Python.\<close>

definition text_of :: "bytes \<Rightarrow> pytext" where
  "text_of s = map of_char s"

definition py_str :: "bool \<Rightarrow> bytes \<Rightarrow> py_obj" where
  "py_str py2 s = (if py2 then PBytes s else PText (text_of s))"

section \<open>UTF-8\<close>

definition scalar_value :: "nat \<Rightarrow> bool" where
  "scalar_value c = (c < 0xD800 \<or> 0xDFFF < c \<and> c \<le> 0x10FFFF)"

definition utf8_char :: "nat \<Rightarrow> nat list" where
  "utf8_char c =
     (if c < 0x80 then [c]
      else if c < 0x800 then [0xC0 + c div 64, 0x80 + c mod 64]
      else if c < 0x10000 then [0xE0 + c div 4096, 0x80 + (c div 64) mod 64, 0x80 + c mod 64]
      else [0xF0 + c div 262144, 0x80 + (c div 4096) mod 64, 0x80 + (c div 64) mod 64,
            0x80 + c mod 64])"

definition continuation :: "nat \<Rightarrow> bool" where
  "continuation b = (0x80 \<le> b \<and> b < 0xC0)"

fun utf8_decode :: "nat list \<Rightarrow> nat list option" where
  "utf8_decode [] = Some []"
| "utf8_decode (b # bs) =
     (if b < 0x80 then map_option ((#) b) (utf8_decode bs)
      else if 0xC2 \<le> b \<and> b < 0xE0 then
        (case bs of
           c1 # r \<Rightarrow>
             (if continuation c1
              then map_option ((#) ((b - 0xC0) * 64 + (c1 - 0x80))) (utf8_decode r) else None)
         | _ \<Rightarrow> None)
      else if 0xE0 \<le> b \<and> b < 0xF0 then
        (case bs of
           c1 # c2 # r \<Rightarrow>
             (let c = (b - 0xE0) * 4096 + (c1 - 0x80) * 64 + (c2 - 0x80) in
              if continuation c1 \<and> continuation c2 \<and> 0x800 \<le> c \<and> scalar_value c
              then map_option ((#) c) (utf8_decode r) else None)
         | _ \<Rightarrow> None)
      else if 0xF0 \<le> b \<and> b < 0xF5 then
        (case bs of
           c1 # c2 # c3 # r \<Rightarrow>
             (let c = (b - 0xF0) * 262144 + (c1 - 0x80) * 4096 + (c2 - 0x80) * 64 + (c3 - 0x80) in
              if continuation c1 \<and> continuation c2 \<and> continuation c3 \<and> 0x10000 \<le> c \<and>
                 scalar_value c
              then map_option ((#) c) (utf8_decode r) else None)
         | _ \<Rightarrow> None)
      else None)"

definition utf8_encode :: "pytext \<Rightarrow> nat list" where
  "utf8_encode t = concat (map utf8_char t)"

section \<open>The functions of compat.py\<close>

definition tobytes :: "bool \<Rightarrow> py_obj \<Rightarrow> py_exc + py_obj" where
  "tobytes py2 ob =
     (case ob of
        PText t \<Rightarrow>
          (if py2 \<or> list_all scalar_value t
           then Inr (PBytes (map char_of (utf8_encode t))) else Inl UnicodeEncodeError)
      | _ \<Rightarrow> Inr ob)"

definition frombytes :: "bool \<Rightarrow> py_obj \<Rightarrow> py_exc + py_obj" where
  "frombytes py2 ob =
     (if py2 then Inr ob
      else case ob of
        PBytes b \<Rightarrow>
          (case utf8_decode (map of_char b) of
             Some t \<Rightarrow> Inr (PText t)
           | None \<Rightarrow> Inl UnicodeDecodeError)
      | _ \<Rightarrow> Inl AttributeError)"

text \<open>\<open>lzip\<close> on two sequences and \<open>dict_values\<close> on a dictionary in insertion order, as lists;
  both branches of the module give the same list.\<close>

definition lzip :: "'a list \<Rightarrow> 'b list \<Rightarrow> ('a \<times> 'b) list" where
  "lzip xs ys = zip xs ys"

definition dict_values :: "('k \<times> 'v) list \<Rightarrow> 'v list" where
  "dict_values d = map snd d"

text \<open>\<open>guid\<close>: the number of 128 bits that \<open>uuid4\<close> draws, in 32 hexadecimal digits on both
  versions.\<close>

definition hex_char :: "nat \<Rightarrow> char" where
  "hex_char d = ''0123456789abcdef'' ! d"

fun hex_digits :: "nat \<Rightarrow> nat \<Rightarrow> string" where
  "hex_digits 0 n = []"
| "hex_digits (Suc k) n = hex_digits k (n div 16) @ [hex_char (n mod 16)]"

definition guid :: "nat \<Rightarrow> string" where
  "guid uuid = hex_digits 32 uuid"

lemma hex_char_inject: "a < 16 \<Longrightarrow> b < 16 \<Longrightarrow> hex_char a = hex_char b \<longleftrightarrow> a = b"
  unfolding hex_char_def by (rule nth_eq_iff_index_eq) simp_all

lemma length_hex_digits [simp]: "length (hex_digits k n) = k"
  by (induction k arbitrary: n) simp_all

lemma hex_digits_inject: "m < 16 ^ k \<Longrightarrow> n < 16 ^ k \<Longrightarrow> hex_digits k m = hex_digits k n \<Longrightarrow> m = n"
proof (induction k arbitrary: m n)
  case (Suc k)
  then have "m div 16 < 16 ^ k" "n div 16 < 16 ^ k" by (simp_all add: less_mult_imp_div_less)
  with Suc have "m div 16 = n div 16" "m mod 16 = n mod 16" by (auto simp: hex_char_inject)
  then show ?case by (metis mult_div_mod_eq)
qed simp

text \<open>Distinct numbers have distinct texts of 32 characters.\<close>

lemma guid_inject: "u < 2 ^ 128 \<Longrightarrow> v < 2 ^ 128 \<Longrightarrow> guid u = guid v \<Longrightarrow> u = v"
  unfolding guid_def by (rule hex_digits_inject) simp_all

lemma length_guid: "length (guid u) = 32"
  by (simp add: guid_def)

section \<open>Encoding and decoding are inverse\<close>

lemma utf8_char_bytes: "c \<le> 0x10FFFF \<Longrightarrow> list_all (\<lambda>b. b < 256) (utf8_char c)"
  by (auto simp: utf8_char_def)

lemma scalar_value_max: "scalar_value c \<Longrightarrow> c \<le> 0x10FFFF"
  by (auto simp: scalar_value_def)

lemma utf8_decode_three:
  assumes "w < 16" "x < 64" "y < 64" "c = w * 4096 + x * 64 + y" "0x800 \<le> c" "scalar_value c"
  shows "utf8_decode ((0xE0 + w) # (0x80 + x) # (0x80 + y) # bs) = map_option ((#) c) (utf8_decode bs)"
  using assms by (simp add: continuation_def Let_def)

lemma utf8_decode_four:
  assumes "w < 5" "x < 64" "y < 64" "z < 64" "c = w * 262144 + x * 4096 + y * 64 + z"
    and "0x10000 \<le> c" "scalar_value c"
  shows "utf8_decode ((0xF0 + w) # (0x80 + x) # (0x80 + y) # (0x80 + z) # bs) =
    map_option ((#) c) (utf8_decode bs)"
  using assms by (simp add: continuation_def Let_def)

lemma utf8_decode_char:
  assumes "scalar_value c"
  shows "utf8_decode (utf8_char c @ bs) = map_option ((#) c) (utf8_decode bs)"
proof -
  have two: "c div 64 * 64 + c mod 64 = c" by simp
  have d2: "c div 4096 = c div 64 div 64" and d3: "c div 262144 = c div 64 div 64 div 64"
    by (simp_all add: div_mult2_eq [symmetric])
  have sixtyfour: "n = n div 64 * 64 + n mod 64" for n :: nat by simp
  have three: "c div 4096 * 4096 + (c div 64) mod 64 * 64 + c mod 64 = c"
    unfolding d2 using sixtyfour [of c] sixtyfour [of "c div 64"] by linarith
  have four: "c div 262144 * 262144 + (c div 4096) mod 64 * 4096 + (c div 64) mod 64 * 64 + c mod 64 = c"
    unfolding d2 d3 using sixtyfour [of c] sixtyfour [of "c div 64"] sixtyfour [of "c div 64 div 64"]
    by linarith
  have max: "c \<le> 0x10FFFF" using assms by (rule scalar_value_max)
  consider "c < 0x80" | "0x80 \<le> c" "c < 0x800" | "0x800 \<le> c" "c < 0x10000" | "0x10000 \<le> c"
    by linarith
  then show ?thesis
  proof cases
    case 1
    then show ?thesis by (simp add: utf8_char_def)
  next
    case 2
    then have "2 \<le> c div 64" "c div 64 < 32" by auto
    with 2 two show ?thesis by (simp add: utf8_char_def continuation_def)
  next
    case 3
    then have "c div 4096 < 16" by auto
    then have "utf8_decode ((0xE0 + c div 4096) # (0x80 + (c div 64) mod 64) # (0x80 + c mod 64) # bs) =
        map_option ((#) c) (utf8_decode bs)"
      by (rule utf8_decode_three) (use 3 three assms in simp_all)
    moreover have "utf8_char c = [0xE0 + c div 4096, 0x80 + (c div 64) mod 64, 0x80 + c mod 64]"
      using 3 by (simp add: utf8_char_def)
    ultimately show ?thesis by (simp only: append.simps)
  next
    case 4
    then have "c div 262144 < 5" using max by auto
    then have "utf8_decode ((0xF0 + c div 262144) # (0x80 + (c div 4096) mod 64) #
          (0x80 + (c div 64) mod 64) # (0x80 + c mod 64) # bs) = map_option ((#) c) (utf8_decode bs)"
      by (rule utf8_decode_four) (use 4 four assms in simp_all)
    moreover have "utf8_char c = [0xF0 + c div 262144, 0x80 + (c div 4096) mod 64,
        0x80 + (c div 64) mod 64, 0x80 + c mod 64]" using 4 by (simp add: utf8_char_def)
    ultimately show ?thesis by (simp only: append.simps)
  qed
qed

lemma utf8_decode_encode: "list_all scalar_value t \<Longrightarrow> utf8_decode (utf8_encode t) = Some t"
  by (induction t) (simp_all add: utf8_encode_def utf8_decode_char)

lemma sextets:
  assumes "x < 64" "y < 64" "z < 64"
  shows "(w * 262144 + x * 4096 + y * 64 + z) div 262144 = (w::nat)"
    and "(w * 262144 + x * 4096 + y * 64 + z) div 4096 mod 64 = x"
    and "(w * 262144 + x * 4096 + y * 64 + z) div 64 mod 64 = y"
    and "(w * 262144 + x * 4096 + y * 64 + z) mod 64 = z"
    and "(x * 4096 + y * 64 + z) div 4096 = x"
    and "(x * 4096 + y * 64 + z) div 64 mod 64 = y"
    and "(x * 4096 + y * 64 + z) mod 64 = z"
proof -
  have dm: "(64 * a + r) div 64 = a" "(64 * a + r) mod 64 = r" if "r < 64" for a r :: nat
    using that by simp_all
  have d2: "n div 4096 = n div 64 div 64" and d3: "n div 262144 = n div 64 div 64 div 64" for n :: nat
    by (simp_all add: div_mult2_eq [symmetric])
  have v: "w * 262144 + x * 4096 + y * 64 + z = 64 * (64 * (64 * w + x) + y) + z"
    and u: "x * 4096 + y * 64 + z = 64 * (64 * x + y) + z" by simp_all
  show "(w * 262144 + x * 4096 + y * 64 + z) div 262144 = w"
    and "(w * 262144 + x * 4096 + y * 64 + z) div 4096 mod 64 = x"
    and "(w * 262144 + x * 4096 + y * 64 + z) div 64 mod 64 = y"
    and "(w * 262144 + x * 4096 + y * 64 + z) mod 64 = z"
    unfolding v d2 d3 by (simp_all only: dm assms)
  show "(x * 4096 + y * 64 + z) div 4096 = x"
    and "(x * 4096 + y * 64 + z) div 64 mod 64 = y"
    and "(x * 4096 + y * 64 + z) mod 64 = z"
    unfolding u d2 by (simp_all only: dm assms)
qed

lemma utf8_char_two:
  assumes "0xC2 \<le> b" "b < 0xE0" "continuation c"
  shows "utf8_char ((b - 0xC0) * 64 + (c - 0x80)) = [b, c]"
    and "scalar_value ((b - 0xC0) * 64 + (c - 0x80))"
proof -
  obtain d e where "b = 0xC0 + d" "2 \<le> d" "d < 32" and "c = 0x80 + e" "e < 64"
    using assms le_Suc_ex [of "0xC0" b] le_Suc_ex [of "0x80" c]
    by (force simp: continuation_def)
  then show "utf8_char ((b - 0xC0) * 64 + (c - 0x80)) = [b, c]"
    and "scalar_value ((b - 0xC0) * 64 + (c - 0x80))"
    by (simp_all add: utf8_char_def scalar_value_def)
qed

lemma utf8_char_three:
  assumes "0xE0 \<le> b" "b < 0xF0" "continuation c" "continuation d"
    and "0x800 \<le> (b - 0xE0) * 4096 + (c - 0x80) * 64 + (d - 0x80)"
  shows "utf8_char ((b - 0xE0) * 4096 + (c - 0x80) * 64 + (d - 0x80)) = [b, c, d]"
proof -
  obtain x y z where "b = 0xE0 + x" "x < 16" and "c = 0x80 + y" "y < 64" and "d = 0x80 + z" "z < 64"
    using assms le_Suc_ex [of "0xE0" b] le_Suc_ex [of "0x80" c] le_Suc_ex [of "0x80" d]
    by (force simp: continuation_def)
  then show ?thesis using assms(5) by (simp add: utf8_char_def sextets)
qed

lemma utf8_char_four:
  assumes "0xF0 \<le> b" "b < 0xF5" "continuation c" "continuation d" "continuation e"
    and "0x10000 \<le> (b - 0xF0) * 262144 + (c - 0x80) * 4096 + (d - 0x80) * 64 + (e - 0x80)"
  shows "utf8_char ((b - 0xF0) * 262144 + (c - 0x80) * 4096 + (d - 0x80) * 64 + (e - 0x80)) =
    [b, c, d, e]"
proof -
  obtain w x y z where "b = 0xF0 + w" "w < 5" and "c = 0x80 + x" "x < 64" and "d = 0x80 + y" "y < 64"
    and "e = 0x80 + z" "z < 64"
    using assms le_Suc_ex [of "0xF0" b] le_Suc_ex [of "0x80" c] le_Suc_ex [of "0x80" d]
      le_Suc_ex [of "0x80" e]
    by (force simp: continuation_def)
  then show ?thesis using assms(6) by (simp add: utf8_char_def sextets)
qed

lemma utf8_encode_Cons [simp]: "utf8_encode (c # t) = utf8_char c @ utf8_encode t"
  by (simp add: utf8_encode_def)

lemma utf8_encode_Nil [simp]: "utf8_encode [] = []"
  by (simp add: utf8_encode_def)

lemma utf8_encode_decode:
  "utf8_decode bs = Some t \<Longrightarrow> list_all scalar_value t \<and> utf8_encode t = bs"
proof (induction bs arbitrary: t rule: utf8_decode.induct)
  case (2 b bs)
  consider "b < 0x80" | "0xC2 \<le> b" "b < 0xE0" | "0xE0 \<le> b" "b < 0xF0" | "0xF0 \<le> b" "b < 0xF5"
    using "2.prems" by (fastforce split: if_splits)
  then show ?case
  proof cases
    case 1
    with "2.prems" obtain u where "t = b # u" "utf8_decode bs = Some u" by auto
    with 1 "2.IH"(1) show ?thesis by (simp add: utf8_char_def scalar_value_def)
  next
    case 2
    with "2.prems" "2.IH"(2) show ?thesis
      by (auto simp: utf8_char_two simp del: utf8_decode.simps(1) split: list.splits if_splits)
  next
    case 3
    with "2.prems" "2.IH"(3) show ?thesis
      by (auto simp: Let_def utf8_char_three split: list.splits if_splits)
  next
    case 4
    with "2.prems" "2.IH"(4) show ?thesis
      by (auto simp: Let_def utf8_char_four split: list.splits if_splits)
  qed
qed simp

lemma utf8_encode_bytes: "list_all scalar_value t \<Longrightarrow> list_all (\<lambda>b. b < 256) (utf8_encode t)"
  by (induction t) (auto simp: utf8_char_bytes scalar_value_max)

lemma of_char_char_of: "list_all (\<lambda>b. b < 256) bs \<Longrightarrow> map of_char (map char_of bs) = (bs :: nat list)"
  by (induction bs) auto

lemma char_of_of_char: "map char_of (map of_char cs :: nat list) = cs"
  by (induction cs) auto

text \<open>C11: On Python 3 \<open>tobytes\<close> and \<open>frombytes\<close> are inverse to each other: a text encodes to a
  byte string exactly when that byte string decodes to the text. So every text the library hands
  to the server comes back unchanged, no two texts share an encoding, and a byte string that is
  not the encoding of a text is rejected.\<close>

theorem tobytes_frombytes:
  "tobytes False (PText t) = Inr (PBytes b) \<longleftrightarrow> frombytes False (PBytes b) = Inr (PText t)"
proof
  assume "tobytes False (PText t) = Inr (PBytes b)"
  then have t: "list_all scalar_value t" and b: "b = map char_of (utf8_encode t)"
    by (auto simp: tobytes_def split: if_splits)
  then have "map of_char b = utf8_encode t"
    by (simp only: of_char_char_of utf8_encode_bytes)
  with t show "frombytes False (PBytes b) = Inr (PText t)"
    by (simp add: frombytes_def utf8_decode_encode)
next
  assume "frombytes False (PBytes b) = Inr (PText t)"
  then have "utf8_decode (map of_char b) = Some t"
    by (simp add: frombytes_def split: option.splits)
  then have "list_all scalar_value t" "utf8_encode t = map of_char b"
    using utf8_encode_decode by blast+
  then show "tobytes False (PText t) = Inr (PBytes b)"
    by (simp add: tobytes_def char_of_of_char del: map_map)
qed

end
