(* ===== verification/Hs2_Columns.thy ===== *)
theory Hs2_Columns
  imports Hs2_Types Py_Text "HOL-Library.Word"
begin

text \<open>
  Columns of a fetched batch and their conversion to NumPy arrays:
  \<^verbatim>\<open>src/hs2client/columnar-row-set.h\<close>, \<^verbatim>\<open>columnar-row-set.cc\<close> and
  \<^verbatim>\<open>python/hs2client/converters.h\<close>.

  Reading or writing outside a buffer, and returning an array with a cell that was never
  written, is undefined in C++: it is \<open>None\<close>. The buffer of a C++ string has a zero byte behind
  its last byte. A 64-bit (32-bit) float is the word of its IEEE 754 bits. Lengths and indices
  are natural numbers: the loops count with \<^verbatim>\<open>int\<close>, which is enough for batches of less than
  \<open>2 ^ 31\<close> rows.
\<close>

unbundle bit_operations_syntax

section \<open>Columns\<close>

datatype TColumn =
    boolVal "bool list" bytes
  | byteVal "8 word list" bytes
  | i16Val "16 word list" bytes
  | i32Val "32 word list" bytes
  | i64Val "64 word list" bytes
  | doubleVal "64 word list" bytes
  | stringVal "bytes list" bytes
  | binaryVal "bytes list" bytes

type_synonym row_set = "TColumn list"

record 'a TypedColumn =
  col_data :: "'a list"
  nulls :: bytes

definition col_length :: "'a TypedColumn \<Rightarrow> nat" where
  "col_length col = length (col_data col)"

text \<open>The two getters of each \<^verbatim>\<open>type_helpers\<close>: the member of the union that is not set is an
  empty vector with an empty bitmap. The class \<^verbatim>\<open>BinaryColumn\<close> is the same type as
  \<^verbatim>\<open>StringColumn\<close>, so it reads the member \<^verbatim>\<open>stringVal\<close>.\<close>

definition BoolColumn :: "TColumn \<Rightarrow> bool TypedColumn" where
  "BoolColumn c =
     (case c of boolVal v n \<Rightarrow> \<lparr>col_data = v, nulls = n\<rparr> | _ \<Rightarrow> \<lparr>col_data = [], nulls = []\<rparr>)"

definition ByteColumn :: "TColumn \<Rightarrow> 8 word TypedColumn" where
  "ByteColumn c =
     (case c of byteVal v n \<Rightarrow> \<lparr>col_data = v, nulls = n\<rparr> | _ \<Rightarrow> \<lparr>col_data = [], nulls = []\<rparr>)"

definition Int16Column :: "TColumn \<Rightarrow> 16 word TypedColumn" where
  "Int16Column c =
     (case c of i16Val v n \<Rightarrow> \<lparr>col_data = v, nulls = n\<rparr> | _ \<Rightarrow> \<lparr>col_data = [], nulls = []\<rparr>)"

definition Int32Column :: "TColumn \<Rightarrow> 32 word TypedColumn" where
  "Int32Column c =
     (case c of i32Val v n \<Rightarrow> \<lparr>col_data = v, nulls = n\<rparr> | _ \<Rightarrow> \<lparr>col_data = [], nulls = []\<rparr>)"

definition Int64Column :: "TColumn \<Rightarrow> 64 word TypedColumn" where
  "Int64Column c =
     (case c of i64Val v n \<Rightarrow> \<lparr>col_data = v, nulls = n\<rparr> | _ \<Rightarrow> \<lparr>col_data = [], nulls = []\<rparr>)"

definition DoubleColumn :: "TColumn \<Rightarrow> 64 word TypedColumn" where
  "DoubleColumn c =
     (case c of doubleVal v n \<Rightarrow> \<lparr>col_data = v, nulls = n\<rparr> | _ \<Rightarrow> \<lparr>col_data = [], nulls = []\<rparr>)"

definition StringColumn :: "TColumn \<Rightarrow> bytes TypedColumn" where
  "StringColumn c =
     (case c of stringVal v n \<Rightarrow> \<lparr>col_data = v, nulls = n\<rparr> | _ \<Rightarrow> \<lparr>col_data = [], nulls = []\<rparr>)"

abbreviation (input) BinaryColumn :: "TColumn \<Rightarrow> bytes TypedColumn" where
  "BinaryColumn \<equiv> StringColumn"

definition GetCol :: "(TColumn \<Rightarrow> 'a TypedColumn) \<Rightarrow> row_set \<Rightarrow> nat \<Rightarrow> 'a TypedColumn option" where
  "GetCol typed columns i = (if i < length columns then Some (typed (columns ! i)) else None)"

section \<open>The bitmap of nulls\<close>

definition byte_at :: "bytes \<Rightarrow> nat \<Rightarrow> 8 word option" where
  "byte_at b k =
     (if k < length b then Some (of_char (b ! k)) else if k = length b then Some 0 else None)"

definition IsNull :: "'a TypedColumn \<Rightarrow> nat \<Rightarrow> bool option" where
  "IsNull col i =
     map_option (\<lambda>b. ((ucast b :: 32 word) AND push_bit (i mod 8) 1) \<noteq> 0) (byte_at (nulls col) (i div 8))"

definition BITMASK :: "8 word list" where
  "BITMASK = [1, 2, 4, 8, 16, 32, 64, 128]"

definition GetBit :: "bytes \<Rightarrow> nat \<Rightarrow> bool option" where
  "GetBit bits i = map_option (\<lambda>b. (b AND BITMASK ! (i mod 8)) \<noteq> 0) (byte_at bits (i div 8))"

section \<open>Floating point values\<close>

abbreviation (input) NAN64 :: "64 word" where "NAN64 \<equiv> 0x7FF8000000000000"
abbreviation (input) NAN32 :: "32 word" where "NAN32 \<equiv> 0x7FC00000"

text \<open>The conversions round to nearest, ties to even. \<open>round_even m k\<close> is \<open>m / 2 ^ k\<close> rounded.\<close>

definition round_even :: "int \<Rightarrow> nat \<Rightarrow> int" where
  "round_even m k =
     (let q = m div 2 ^ k; r = m mod 2 ^ k in
      if 2 ^ k < 2 * r \<or> 2 * r = 2 ^ k \<and> odd q then q + 1 else q)"

function bit_length :: "int \<Rightarrow> nat" where
  "bit_length n = (if n \<le> 0 then 0 else Suc (bit_length (n div 2)))"
  by pat_completeness auto
termination by (relation "measure nat") auto

declare bit_length.simps [simp del]

text \<open>An integer as a float, rounded to 24 bits; no integer of 64 bits exceeds the range.\<close>

definition float_of_int :: "int \<Rightarrow> 32 word" where
  "float_of_int n =
     (if n = 0 then 0
      else let m = \<bar>n\<bar>; e = bit_length m - 1;
               q = (if e \<le> 23 then m * 2 ^ (23 - e) else round_even m (e - 23))
           in word_of_int ((if n < 0 then 2 ^ 31 else 0) + (int e + 127) * 2 ^ 23 + (q - 2 ^ 23)))"

text \<open>Widening to 64 bits keeps the value; a value that is not a number becomes quiet.\<close>

definition double_of_float :: "32 word \<Rightarrow> 64 word" where
  "double_of_float w =
     (let s = (if bit w 31 then 2 ^ 63 else 0);
          e = uint (take_bit 8 (drop_bit 23 w));
          f = uint (take_bit 23 w) in
      if e = 0xFF then
        word_of_int s OR 0x7FF0000000000000 OR
        (if f = 0 then 0 else 0x8000000000000 OR word_of_int (f * 2 ^ 29))
      else if e = 0 then
        (if f = 0 then word_of_int s
         else let k = bit_length f - 1 in
              word_of_int (s + (int k + 874) * 2 ^ 52 + (f * 2 ^ (52 - k) - 2 ^ 52)))
      else word_of_int (s + (e + 896) * 2 ^ 52 + f * 2 ^ 29))"

text \<open>Narrowing to 32 bits; a value that is not a number keeps the upper bits of its payload
  and becomes quiet, as the conversion instruction of x86-64 does.\<close>

definition float_of_double :: "64 word \<Rightarrow> 32 word" where
  "float_of_double w =
     (let s = (if bit w 63 then 2 ^ 31 else 0);
          e = uint (take_bit 11 (drop_bit 52 w));
          f = uint (take_bit 52 w) in
      if e = 0x7FF then
        word_of_int s OR 0x7F800000 OR
        (if f = 0 then 0 else 0x400000 OR word_of_int (f div 2 ^ 29))
      else
        (let x = max e 1; m = (if e = 0 then f else 2 ^ 52 + f) in
         if 1150 < x then word_of_int (s + 0x7F800000)
         else if 897 \<le> x then word_of_int (s + (x - 896) * 2 ^ 23 + (round_even m 29 - 2 ^ 23))
         else word_of_int (s + round_even m (29 + nat (897 - x)))))"

section \<open>Arrays under construction\<close>

text \<open>A fresh array of NumPy has cells that were never written; \<open>store\<close> is an assignment
  \<^verbatim>\<open>out[i] = v\<close>, \<open>initialised\<close> the array when it is handed out.\<close>

definition npy_alloc :: "nat \<Rightarrow> 'b option list" where
  "npy_alloc n = replicate n None"

definition store :: "'b option list \<Rightarrow> nat \<Rightarrow> 'b \<Rightarrow> 'b option list option" where
  "store out i v = (if i < length out then Some (out[i := Some v]) else None)"

definition initialised :: "'b option list \<Rightarrow> 'b list option" where
  "initialised out = (if list_all (\<lambda>c. c \<noteq> None) out then Some (map the out) else None)"

text \<open>References to Python objects in an array of objects: the singletons, and strings with
  their place in the intern table.\<close>

datatype py_ref = Ref py_obj | Interned nat py_obj

fun ref_value :: "py_ref \<Rightarrow> py_obj" where
  "ref_value (Ref ob) = ob"
| "ref_value (Interned k ob) = ob"

datatype ndarray =
    NPY_INT8 "8 word list"
  | NPY_INT16 "16 word list"
  | NPY_INT32 "32 word list"
  | NPY_INT64 "64 word list"
  | NPY_BOOL "8 word list"
  | NPY_FLOAT32 "32 word list"
  | NPY_DOUBLE "64 word list"
  | NPY_OBJECT "py_ref list"

section \<open>Converters\<close>

fun GetColumns :: "(TColumn \<Rightarrow> 'a TypedColumn) \<Rightarrow> row_set list \<Rightarrow> nat \<Rightarrow> nat \<Rightarrow>
    'a TypedColumn list \<Rightarrow> (nat \<times> 'a TypedColumn list) option" where
  "GetColumns typed [] k total_length columns = Some (total_length, columns)"
| "GetColumns typed (b # bs) k total_length columns =
     (case GetCol typed b k of
        None \<Rightarrow> None
      | Some col \<Rightarrow> GetColumns typed bs k (total_length + col_length col) (columns @ [col]))"

text \<open>The optimistic loop of \<^verbatim>\<open>ConvertInteger\<close> and \<^verbatim>\<open>ConvertBoolean\<close>: values are copied until
  a null is met; the flag is \<^verbatim>\<open>have_null\<close>.\<close>

fun copy_rows :: "('a \<Rightarrow> 'b) \<Rightarrow> 'a TypedColumn \<Rightarrow> nat list \<Rightarrow> 'b option list \<Rightarrow> nat \<Rightarrow>
    ('b option list \<times> nat \<times> bool) option" where
  "copy_rows cast col [] out i = Some (out, i, False)"
| "copy_rows cast col (j # js) out i =
     (case GetBit (nulls col) j of
        None \<Rightarrow> None
      | Some True \<Rightarrow> Some (out, i, True)
      | Some False \<Rightarrow>
          (case store out i (cast (col_data col ! j)) of
             None \<Rightarrow> None
           | Some out' \<Rightarrow> copy_rows cast col js out' (Suc i)))"

fun copy_chunks :: "('a \<Rightarrow> 'b) \<Rightarrow> 'a TypedColumn list \<Rightarrow> 'b option list \<Rightarrow> nat \<Rightarrow>
    ('b option list \<times> bool) option" where
  "copy_chunks cast [] out i = Some (out, False)"
| "copy_chunks cast (col # cols) out i =
     (case copy_rows cast col [0..<col_length col] out i of
        None \<Rightarrow> None
      | Some (out', i', have_null) \<Rightarrow>
          if have_null then Some (out', True) else copy_chunks cast cols out' i')"

text \<open>The loop that writes a value for every row; \<open>cast None\<close> is what it writes for a null.\<close>

fun fill_rows :: "('a option \<Rightarrow> 'b) \<Rightarrow> 'a TypedColumn \<Rightarrow> nat list \<Rightarrow> 'b option list \<Rightarrow> nat \<Rightarrow>
    ('b option list \<times> nat) option" where
  "fill_rows cast col [] out i = Some (out, i)"
| "fill_rows cast col (j # js) out i =
     (case GetBit (nulls col) j of
        None \<Rightarrow> None
      | Some null \<Rightarrow>
          (case store out i (cast (if null then None else Some (col_data col ! j))) of
             None \<Rightarrow> None
           | Some out' \<Rightarrow> fill_rows cast col js out' (Suc i)))"

fun fill_chunks :: "('a option \<Rightarrow> 'b) \<Rightarrow> 'a TypedColumn list \<Rightarrow> 'b option list \<Rightarrow> nat \<Rightarrow>
    'b option list option" where
  "fill_chunks cast [] out i = Some out"
| "fill_chunks cast (col # cols) out i =
     (case fill_rows cast col [0..<col_length col] out i of
        None \<Rightarrow> None
      | Some (out', i') \<Rightarrow> fill_chunks cast cols out' i')"

text \<open>In the second pass the macro \<^verbatim>\<open>NAN\<close> is a float, so the conditional expression converts the
  integer to a float too, and only its result is widened to the double that is stored.\<close>

definition ConvertInteger :: "('a::len word list \<Rightarrow> ndarray) \<Rightarrow> (TColumn \<Rightarrow> 'a word TypedColumn) \<Rightarrow>
    row_set list \<Rightarrow> nat \<Rightarrow> ndarray option" where
  "ConvertInteger npy_type ctype batches col_index =
     (case GetColumns ctype batches col_index 0 [] of
        None \<Rightarrow> None
      | Some (total_length, columns) \<Rightarrow>
          (case copy_chunks id columns (npy_alloc total_length) 0 of
             None \<Rightarrow> None
           | Some (out, False) \<Rightarrow> map_option npy_type (initialised out)
           | Some (out, True) \<Rightarrow>
               (case fill_chunks
                       (\<lambda>v. double_of_float (case v of None \<Rightarrow> NAN32 | Some w \<Rightarrow> float_of_int (sint w)))
                       columns (npy_alloc total_length) 0 of
                  None \<Rightarrow> None
                | Some out \<Rightarrow> map_option NPY_DOUBLE (initialised out))))"

definition bool_object :: "bool option \<Rightarrow> py_ref" where
  "bool_object v =
     (case v of None \<Rightarrow> Ref PNone | Some b \<Rightarrow> Ref (PBool b))"

definition ConvertBoolean :: "row_set list \<Rightarrow> nat \<Rightarrow> ndarray option" where
  "ConvertBoolean batches col_index =
     (case GetColumns BoolColumn batches col_index 0 [] of
        None \<Rightarrow> None
      | Some (total_length, columns) \<Rightarrow>
          (case copy_chunks (\<lambda>b. if b then 1 else 0) columns (npy_alloc total_length) 0 of
             None \<Rightarrow> None
           | Some (out, False) \<Rightarrow> map_option NPY_BOOL (initialised out)
           | Some (out, True) \<Rightarrow>
               (case fill_chunks bool_object columns (npy_alloc total_length) 0 of
                  None \<Rightarrow> None
                | Some out \<Rightarrow> map_option NPY_OBJECT (initialised out))))"

definition ConvertFloat :: "('b list \<Rightarrow> ndarray) \<Rightarrow> (64 word \<Rightarrow> 'b) \<Rightarrow> 'b \<Rightarrow> row_set list \<Rightarrow> nat \<Rightarrow>
    ndarray option" where
  "ConvertFloat npy_type cast null_value batches col_index =
     (case GetColumns DoubleColumn batches col_index 0 [] of
        None \<Rightarrow> None
      | Some (total_length, columns) \<Rightarrow>
          (case fill_chunks (\<lambda>v. case v of None \<Rightarrow> null_value | Some w \<Rightarrow> cast w)
                  columns (npy_alloc total_length) 0 of
             None \<Rightarrow> None
           | Some out \<Rightarrow> map_option npy_type (initialised out)))"

text \<open>Strings. The intern table is the list of the objects it holds, in the order they were
  added; \<open>make_pystring\<close> returns the reference and the new table, or the exception that a
  failing conversion leaves set.\<close>

fun intern_lookup :: "py_obj list \<Rightarrow> py_obj \<Rightarrow> nat option" where
  "intern_lookup [] ob = None"
| "intern_lookup (t # ts) ob = (if t = ob then Some 0 else map_option Suc (intern_lookup ts ob))"

definition make_pystring :: "bool \<Rightarrow> bytes \<Rightarrow> py_obj list \<Rightarrow> py_exc + (py_ref \<times> py_obj list)" where
  "make_pystring py2 s intern_table =
     (case frombytes py2 (PBytes s) of
        Inl e \<Rightarrow> Inl e
      | Inr ob \<Rightarrow>
          (case intern_lookup intern_table ob of
             None \<Rightarrow> Inr (Interned (length intern_table) ob, intern_table @ [ob])
           | Some k \<Rightarrow> Inr (Interned k ob, intern_table)))"

fun string_rows :: "bool \<Rightarrow> bytes TypedColumn \<Rightarrow> nat list \<Rightarrow> py_ref option list \<Rightarrow> nat \<Rightarrow> py_obj list \<Rightarrow>
    (py_exc + (py_ref option list \<times> nat \<times> py_obj list)) option" where
  "string_rows py2 col [] out i tab = Some (Inr (out, i, tab))"
| "string_rows py2 col (j # js) out i tab =
     (case GetBit (nulls col) j of
        None \<Rightarrow> None
      | Some True \<Rightarrow>
          (case store out i (Ref PNone) of
             None \<Rightarrow> None
           | Some out' \<Rightarrow> string_rows py2 col js out' (Suc i) tab)
      | Some False \<Rightarrow>
          (case make_pystring py2 (col_data col ! j) tab of
             Inl e \<Rightarrow> Some (Inl e)
           | Inr (r, tab') \<Rightarrow>
               (case store out i r of
                  None \<Rightarrow> None
                | Some out' \<Rightarrow> string_rows py2 col js out' (Suc i) tab')))"

fun string_chunks :: "bool \<Rightarrow> bytes TypedColumn list \<Rightarrow> py_ref option list \<Rightarrow> nat \<Rightarrow> py_obj list \<Rightarrow>
    (py_exc + py_ref option list) option" where
  "string_chunks py2 [] out i tab = Some (Inr out)"
| "string_chunks py2 (col # cols) out i tab =
     (case string_rows py2 col [0..<col_length col] out i tab of
        None \<Rightarrow> None
      | Some (Inl e) \<Rightarrow> Some (Inl e)
      | Some (Inr (out', i', tab')) \<Rightarrow> string_chunks py2 cols out' i' tab')"

definition ConvertString :: "bool \<Rightarrow> row_set list \<Rightarrow> nat \<Rightarrow> (py_exc + ndarray) option" where
  "ConvertString py2 batches col_index =
     (case GetColumns StringColumn batches col_index 0 [] of
        None \<Rightarrow> None
      | Some (total_length, columns) \<Rightarrow>
          (case string_chunks py2 columns (npy_alloc total_length) 0 [] of
             None \<Rightarrow> None
           | Some (Inl e) \<Rightarrow> Some (Inl e)
           | Some (Inr out) \<Rightarrow> map_option (\<lambda>xs. Inr (NPY_OBJECT xs)) (initialised out)))"

definition ConvertColumnPandas :: "bool \<Rightarrow> row_set list \<Rightarrow> nat \<Rightarrow> ColumnType \<Rightarrow>
    (py_exc + ndarray) option" where
  "ConvertColumnPandas py2 batches col_index ty =
     (case type_id ty of
        ColumnType_BOOLEAN \<Rightarrow> map_option Inr (ConvertBoolean batches col_index)
      | ColumnType_TINYINT \<Rightarrow> map_option Inr (ConvertInteger NPY_INT8 ByteColumn batches col_index)
      | ColumnType_SMALLINT \<Rightarrow> map_option Inr (ConvertInteger NPY_INT16 Int16Column batches col_index)
      | ColumnType_INT \<Rightarrow> map_option Inr (ConvertInteger NPY_INT32 Int32Column batches col_index)
      | ColumnType_BIGINT \<Rightarrow> map_option Inr (ConvertInteger NPY_INT64 Int64Column batches col_index)
      | ColumnType_FLOAT \<Rightarrow>
          map_option Inr (ConvertFloat NPY_FLOAT32 float_of_double NAN32 batches col_index)
      | ColumnType_DOUBLE \<Rightarrow> map_option Inr (ConvertFloat NPY_DOUBLE id NAN64 batches col_index)
      | ColumnType_NULL_TYPE \<Rightarrow> Some (Inl (NotImplementedError (py_str py2 (ColumnType_ToString ty))))
      | ColumnType_DATE \<Rightarrow> Some (Inl (NotImplementedError (py_str py2 (ColumnType_ToString ty))))
      | ColumnType_INVALID \<Rightarrow> Some (Inl (NotImplementedError (py_str py2 (ColumnType_ToString ty))))
      | _ \<Rightarrow> ConvertString py2 batches col_index)"

section \<open>The bitmap, abstractly\<close>

text \<open>Row \<open>j\<close> is null when bit \<open>j mod 8\<close> of byte \<open>j div 8\<close> is set; a byte beyond the bitmap has
  no bit set.\<close>

definition null_bit :: "bytes \<Rightarrow> nat \<Rightarrow> bool" where
  "null_bit b j = (j div 8 < length b \<and> bit (of_char (b ! (j div 8)) :: 8 word) (j mod 8))"

definition bitmap_ok :: "'a TypedColumn \<Rightarrow> bool" where
  "bitmap_ok col = (col_length col \<le> 8 * (length (nulls col) + 1))"

definition cells :: "'a TypedColumn \<Rightarrow> 'a option list" where
  "cells col =
     map (\<lambda>j. if null_bit (nulls col) j then None else Some (col_data col ! j)) [0..<col_length col]"

lemma BITMASK_push_bit: "k < 8 \<Longrightarrow> BITMASK ! k = push_bit k 1"
  by (auto simp: BITMASK_def less_Suc_eq numeral_eq_Suc push_bit_eq_mult)

lemma and_power_iff: "(w AND 2 ^ k = 0) = (\<not> bit w k)" for w :: "'a::len word"
  using bit_iff_and_push_bit_not_eq_0 [of w k] by (simp add: push_bit_eq_mult)

lemma GetBit_eq:
  "GetBit b j = (if j div 8 \<le> length b then Some (null_bit b j) else None)"
  by (auto simp: GetBit_def byte_at_def null_bit_def BITMASK_push_bit
      and_power_iff)

lemma IsNull_eq:
  "IsNull col j = (if j div 8 \<le> length (nulls col) then Some (null_bit (nulls col) j) else None)"
  by (auto simp: IsNull_def byte_at_def null_bit_def and_power_iff bit_ucast_iff)

lemma GetBit_IsNull: "GetBit (nulls col) j = IsNull col j"
  by (simp add: GetBit_eq IsNull_eq)

lemma length_cells [simp]: "length (cells col) = col_length col"
  by (simp add: cells_def)

lemma bitmap_ok_reads:
  "bitmap_ok col \<longleftrightarrow> (\<forall>j < col_length col. j div 8 \<le> length (nulls col))"
proof
  assume "bitmap_ok col"
  then show "\<forall>j < col_length col. j div 8 \<le> length (nulls col)"
    by (auto simp: bitmap_ok_def)
next
  assume *: "\<forall>j < col_length col. j div 8 \<le> length (nulls col)"
  show "bitmap_ok col"
  proof (cases "col_length col")
    case (Suc n)
    with * have "n div 8 \<le> length (nulls col)" by auto
    with Suc show ?thesis by (auto simp: bitmap_ok_def)
  qed (simp add: bitmap_ok_def)
qed

section \<open>What the loops compute\<close>

text \<open>An array whose first cells hold \<open>xs\<close> and whose last \<open>m\<close> cells were not written.\<close>

definition partial_array :: "'b list \<Rightarrow> nat \<Rightarrow> 'b option list" where
  "partial_array xs m = map Some xs @ replicate m None"

lemma npy_alloc_partial: "npy_alloc n = partial_array [] n"
  by (simp add: npy_alloc_def partial_array_def)

lemma store_partial [simp]:
  "store (partial_array xs (Suc m)) (length xs) v = Some (partial_array (xs @ [v]) m)"
  by (simp add: store_def partial_array_def list_update_append)

lemma initialised_partial [simp]: "initialised (partial_array xs 0) = Some xs"
  by (simp add: initialised_def partial_array_def list_all_iff comp_def)

text \<open>The rows of a chunk from \<open>j\<close> on.\<close>

definition rows_from :: "'a TypedColumn \<Rightarrow> nat list \<Rightarrow> 'a option list" where
  "rows_from col js = map (\<lambda>j. if null_bit (nulls col) j then None else Some (col_data col ! j)) js"

lemma rows_from_simps [simp]:
  "rows_from col [] = []"
  "rows_from col (j # js) =
     (if null_bit (nulls col) j then None else Some (col_data col ! j)) # rows_from col js"
  "rows_from col [0..<col_length col] = cells col"
  by (simp_all add: rows_from_def cells_def)

abbreviation readable :: "'a TypedColumn \<Rightarrow> nat list \<Rightarrow> bool" where
  "readable col js \<equiv> list_all (\<lambda>j. j div 8 \<le> length (nulls col)) js"

lemma readable_all: "readable col [0..<col_length col] = bitmap_ok col"
  by (auto simp: bitmap_ok_reads list_all_iff)

lemma fill_rows_eq:
  "fill_rows cast col js (partial_array xs (length js + m)) (length xs) =
     (if readable col js
      then Some (partial_array (xs @ map cast (rows_from col js)) m, length xs + length js) else None)"
proof (induction js arbitrary: xs)
  case (Cons j js)
  show ?case
    using Cons.IH [of "xs @ [cast (if null_bit (nulls col) j then None else Some (col_data col ! j))]"]
    by (simp add: GetBit_eq)
qed simp

definition total_rows :: "'a TypedColumn list \<Rightarrow> nat" where
  "total_rows cols = sum_list (map col_length cols)"

lemma fill_chunks_eq:
  "fill_chunks cast cols (partial_array xs (total_rows cols)) (length xs) =
     (if list_all bitmap_ok cols
      then Some (partial_array (xs @ map cast (concat (map cells cols))) 0) else None)"
proof (induction cols arbitrary: xs)
  case (Cons col cols)
  have "fill_rows cast col [0..<col_length col] (partial_array xs (total_rows (col # cols))) (length xs) =
      (if bitmap_ok col
       then Some (partial_array (xs @ map cast (cells col)) (total_rows cols), length xs + col_length col)
       else None)"
    using fill_rows_eq [of cast col "[0..<col_length col]" xs "total_rows cols"]
    by (simp add: readable_all total_rows_def)
  then show ?case using Cons.IH [of "xs @ map cast (cells col)"] by simp
qed (simp add: total_rows_def)

lemma copy_rows_no_null:
  assumes "None \<notin> set (rows_from col js)"
  shows "copy_rows cast col js (partial_array xs (length js + m)) (length xs) =
    (if readable col js
     then Some (partial_array (xs @ map (cast \<circ> the) (rows_from col js)) m, length xs + length js, False)
     else None)"
  using assms
proof (induction js arbitrary: xs)
  case (Cons j js)
  then show ?case
    using Cons.IH [of "xs @ [cast (col_data col ! j)]"]
    by (cases "null_bit (nulls col) j") (auto simp: GetBit_eq comp_def)
qed simp

lemma copy_rows_null:
  assumes "None \<in> set (rows_from col js)" and "readable col js"
  shows "\<exists>out i. copy_rows cast col js (partial_array xs (length js + m)) (length xs) = Some (out, i, True)"
  using assms
proof (induction js arbitrary: xs)
  case (Cons j js)
  then show ?case
    using Cons.IH [of "xs @ [cast (col_data col ! j)]"]
    by (cases "null_bit (nulls col) j") (auto simp: GetBit_eq)
qed simp

lemma copy_rows_bad:
  "\<not> readable col js \<Longrightarrow>
     copy_rows cast col js (partial_array xs (length js + m)) (length xs) = None \<or>
     (\<exists>out i. copy_rows cast col js (partial_array xs (length js + m)) (length xs) = Some (out, i, True))"
proof (induction js arbitrary: xs)
  case (Cons j js)
  then show ?case
    using Cons.IH [of "xs @ [cast (col_data col ! j)]"]
    by (cases "null_bit (nulls col) j") (auto simp: GetBit_eq)
qed simp

lemma copy_chunks_no_null:
  assumes "None \<notin> set (concat (map cells cols))"
  shows "copy_chunks cast cols (partial_array xs (total_rows cols)) (length xs) =
    (if list_all bitmap_ok cols
     then Some (partial_array (xs @ map (cast \<circ> the) (concat (map cells cols))) 0, False) else None)"
  using assms
proof (induction cols arbitrary: xs)
  case (Cons col cols)
  then have "copy_rows cast col [0..<col_length col] (partial_array xs (total_rows (col # cols))) (length xs) =
      (if bitmap_ok col
       then Some (partial_array (xs @ map (cast \<circ> the) (cells col)) (total_rows cols),
                  length xs + col_length col, False)
       else None)"
    using copy_rows_no_null [of col "[0..<col_length col]" cast xs "total_rows cols"]
    by (simp add: readable_all total_rows_def)
  then show ?case
    using Cons.IH [of "xs @ map (cast \<circ> the) (cells col)"] Cons.prems by (simp add: comp_def)
qed (simp add: total_rows_def)

lemma copy_chunks_null:
  assumes "None \<in> set (concat (map cells cols))"
  shows "(\<exists>out. copy_chunks cast cols (partial_array xs (total_rows cols)) (length xs) = Some (out, True)) \<or>
    copy_chunks cast cols (partial_array xs (total_rows cols)) (length xs) = None \<and>
    \<not> list_all bitmap_ok cols"
  using assms
proof (induction cols arbitrary: xs)
  case (Cons col cols)
  let ?first = "copy_rows cast col [0..<col_length col] (partial_array xs (total_rows (col # cols))) (length xs)"
  have total: "length [0..<col_length col] + total_rows cols = total_rows (col # cols)"
    by (simp add: total_rows_def)
  consider "\<not> bitmap_ok col" | "bitmap_ok col" "None \<in> set (cells col)"
    | "bitmap_ok col" "None \<notin> set (cells col)" "None \<in> set (concat (map cells cols))"
    using Cons.prems by auto
  then show ?case
  proof cases
    case 1
    then have "?first = None \<or> (\<exists>out i. ?first = Some (out, i, True))"
      using copy_rows_bad [of col "[0..<col_length col]" cast xs "total_rows cols"]
      by (simp only: readable_all total not_False_eq_True simp_thms)
    with 1 show ?thesis by auto
  next
    case 2
    then have "\<exists>out i. ?first = Some (out, i, True)"
      using copy_rows_null [of col "[0..<col_length col]" cast xs "total_rows cols"]
      by (simp only: readable_all total rows_from_simps)
    then show ?thesis by auto
  next
    case 3
    then have "?first = Some (partial_array (xs @ map (cast \<circ> the) (cells col)) (total_rows cols),
        length xs + col_length col, False)"
      using copy_rows_no_null [of col "[0..<col_length col]" cast xs "total_rows cols"]
      by (simp add: readable_all total_rows_def)
    with 3 Cons.IH [of "xs @ map (cast \<circ> the) (cells col)"] show ?thesis by simp
  qed
qed simp

lemma GetColumns_eq:
  "GetColumns typed bs k n cols =
     (if list_all (\<lambda>b. k < length b) bs
      then Some (n + total_rows (map (\<lambda>b. typed (b ! k)) bs), cols @ map (\<lambda>b. typed (b ! k)) bs) else None)"
  by (induction bs arbitrary: n cols) (auto simp: GetCol_def total_rows_def)

text \<open>The column \<open>k\<close> of every batch, when they all have it, and all its cells.\<close>

definition column_chunks :: "(TColumn \<Rightarrow> 'a TypedColumn) \<Rightarrow> row_set list \<Rightarrow> nat \<Rightarrow> 'a TypedColumn list" where
  "column_chunks typed batches k = map (\<lambda>b. typed (b ! k)) batches"

definition convertible :: "(TColumn \<Rightarrow> 'a TypedColumn) \<Rightarrow> row_set list \<Rightarrow> nat \<Rightarrow> bool" where
  "convertible typed batches k =
     (list_all (\<lambda>b. k < length b) batches \<and> list_all bitmap_ok (column_chunks typed batches k))"

definition column_cells :: "(TColumn \<Rightarrow> 'a TypedColumn) \<Rightarrow> row_set list \<Rightarrow> nat \<Rightarrow> 'a option list" where
  "column_cells typed batches k = concat (map cells (column_chunks typed batches k))"

lemma GetColumns_start:
  "GetColumns typed batches k 0 [] =
     (if list_all (\<lambda>b. k < length b) batches
      then Some (total_rows (column_chunks typed batches k), column_chunks typed batches k) else None)"
  by (simp add: GetColumns_eq column_chunks_def)

lemma fill_start:
  "fill_chunks cast cols (npy_alloc (total_rows cols)) 0 =
     (if list_all bitmap_ok cols then Some (partial_array (map cast (concat (map cells cols))) 0) else None)"
  using fill_chunks_eq [of cast cols "[]"] by (simp add: npy_alloc_partial)

lemma ConvertFloat_eq:
  "ConvertFloat npy_type cast null_value batches k =
     (if convertible DoubleColumn batches k
      then Some (npy_type (map (\<lambda>v. case v of None \<Rightarrow> null_value | Some w \<Rightarrow> cast w)
             (column_cells DoubleColumn batches k)))
      else None)"
  by (simp add: ConvertFloat_def GetColumns_start fill_start convertible_def column_cells_def)

lemma copy_start_no_null:
  assumes "None \<notin> set (concat (map cells cols))"
  shows "copy_chunks cast cols (npy_alloc (total_rows cols)) 0 =
    (if list_all bitmap_ok cols
     then Some (partial_array (map (cast \<circ> the) (concat (map cells cols))) 0, False) else None)"
  using copy_chunks_no_null [OF assms, of cast "[]"] by (simp add: npy_alloc_partial)

lemma copy_start_null:
  assumes "None \<in> set (concat (map cells cols))"
  shows "(\<exists>out. copy_chunks cast cols (npy_alloc (total_rows cols)) 0 = Some (out, True)) \<or>
    copy_chunks cast cols (npy_alloc (total_rows cols)) 0 = None \<and> \<not> list_all bitmap_ok cols"
  using copy_chunks_null [OF assms, of cast "[]"] by (simp add: npy_alloc_partial)

text \<open>The two-pass converter of integers against its specification in one pass.\<close>

lemma ConvertInteger_eq:
  "ConvertInteger npy_type ctype batches k =
     (if convertible ctype batches k
      then let vs = column_cells ctype batches k in
           Some (if None \<in> set vs
                 then NPY_DOUBLE (map (\<lambda>v. double_of_float (case v of None \<Rightarrow> NAN32 | Some w \<Rightarrow> float_of_int (sint w))) vs)
                 else npy_type (map the vs))
      else None)"
proof (cases "None \<in> set (concat (map cells (column_chunks ctype batches k)))")
  case True
  then show ?thesis
    using copy_start_null [OF True, of id]
    by (auto simp: ConvertInteger_def GetColumns_start fill_start convertible_def column_cells_def Let_def)
next
  case False
  then show ?thesis
    by (auto simp: ConvertInteger_def GetColumns_start copy_start_no_null convertible_def column_cells_def
        Let_def)
qed

lemma ConvertBoolean_eq:
  "ConvertBoolean batches k =
     (if convertible BoolColumn batches k
      then let vs = column_cells BoolColumn batches k in
           Some (if None \<in> set vs then NPY_OBJECT (map bool_object vs)
                 else NPY_BOOL (map (\<lambda>v. if the v then 1 else 0) vs))
      else None)"
proof (cases "None \<in> set (concat (map cells (column_chunks BoolColumn batches k)))")
  case True
  then show ?thesis
    using copy_start_null [OF True, of "\<lambda>b. if b then 1 else 0 :: 8 word"]
    by (auto simp: ConvertBoolean_def GetColumns_start fill_start convertible_def column_cells_def Let_def)
next
  case False
  then show ?thesis
    by (auto simp: ConvertBoolean_def GetColumns_start copy_start_no_null convertible_def column_cells_def
        Let_def)
qed

section \<open>Strings\<close>

text \<open>The references a column of strings becomes, in one pass over its cells, and the values
  behind them.\<close>

fun intern_cells :: "bool \<Rightarrow> bytes option list \<Rightarrow> py_obj list \<Rightarrow> py_exc + (py_ref list \<times> py_obj list)" where
  "intern_cells py2 [] tab = Inr ([], tab)"
| "intern_cells py2 (None # vs) tab =
     (case intern_cells py2 vs tab of
        Inl e \<Rightarrow> Inl e | Inr (rs, tab') \<Rightarrow> Inr (Ref PNone # rs, tab'))"
| "intern_cells py2 (Some s # vs) tab =
     (case make_pystring py2 s tab of
        Inl e \<Rightarrow> Inl e
      | Inr (r, tab1) \<Rightarrow>
          (case intern_cells py2 vs tab1 of
             Inl e \<Rightarrow> Inl e | Inr (rs, tab') \<Rightarrow> Inr (r # rs, tab')))"

fun string_values :: "bool \<Rightarrow> bytes option list \<Rightarrow> py_exc + py_obj list" where
  "string_values py2 [] = Inr []"
| "string_values py2 (None # vs) = map_sum id ((#) PNone) (string_values py2 vs)"
| "string_values py2 (Some s # vs) =
     (case frombytes py2 (PBytes s) of
        Inl e \<Rightarrow> Inl e
      | Inr ob \<Rightarrow> map_sum id ((#) ob) (string_values py2 vs))"

lemma intern_cells_append:
  "intern_cells py2 (us @ vs) tab =
     (case intern_cells py2 us tab of
        Inl e \<Rightarrow> Inl e
      | Inr (rs, tab1) \<Rightarrow>
          (case intern_cells py2 vs tab1 of
             Inl e \<Rightarrow> Inl e | Inr (rs', tab') \<Rightarrow> Inr (rs @ rs', tab')))"
  by (induction py2 us tab rule: intern_cells.induct) (auto split: sum.splits)

lemma string_rows_eq:
  "readable col js \<Longrightarrow>
     string_rows py2 col js (partial_array xs (length js + m)) (length xs) tab =
     Some (case intern_cells py2 (rows_from col js) tab of
             Inl e \<Rightarrow> Inl e
           | Inr (rs, tab') \<Rightarrow> Inr (partial_array (xs @ rs) m, length xs + length js, tab'))"
proof (induction js arbitrary: xs tab)
  case (Cons j js)
  then have bit: "GetBit (nulls col) j = Some (null_bit (nulls col) j)" by (simp add: GetBit_eq)
  show ?case
  proof (cases "null_bit (nulls col) j")
    case True
    with bit Cons.prems Cons.IH [of "xs @ [Ref PNone]" tab] show ?thesis
      by (auto split: sum.splits)
  next
    case False
    show ?thesis
    proof (cases "make_pystring py2 (col_data col ! j) tab")
      case (Inr p)
      with False bit Cons.prems Cons.IH [of "xs @ [fst p]" "snd p"] show ?thesis
        by (cases p) (auto split: sum.splits)
    qed (use False bit in simp)
  qed
qed simp

lemma length_intern_cells: "intern_cells py2 vs tab = Inr (rs, tab') \<Longrightarrow> length rs = length vs"
  by (induction py2 vs tab arbitrary: rs rule: intern_cells.induct) (auto split: sum.splits)

lemma string_chunks_eq:
  "list_all bitmap_ok cols \<Longrightarrow>
     string_chunks py2 cols (partial_array xs (total_rows cols)) (length xs) tab =
     Some (case intern_cells py2 (concat (map cells cols)) tab of
             Inl e \<Rightarrow> Inl e
           | Inr (rs, tab') \<Rightarrow> Inr (partial_array (xs @ rs) 0))"
proof (induction cols arbitrary: xs tab)
  case (Cons col cols)
  have rows: "string_rows py2 col [0..<col_length col] (partial_array xs (total_rows (col # cols)))
        (length xs) tab =
      Some (case intern_cells py2 (cells col) tab of
              Inl e \<Rightarrow> Inl e
            | Inr (rs, tab') \<Rightarrow> Inr (partial_array (xs @ rs) (total_rows cols), length xs + col_length col, tab'))"
    using string_rows_eq [of col "[0..<col_length col]" py2 xs "total_rows cols" tab] Cons.prems
    by (auto simp: readable_all total_rows_def split: sum.split)
  show ?case
  proof (cases "intern_cells py2 (cells col) tab")
    case (Inr p)
    then have "length (fst p) = col_length col"
      using length_intern_cells [of py2 "cells col" tab "fst p" "snd p"] by simp
    with Inr rows Cons.prems Cons.IH [of "xs @ fst p" "snd p"] show ?thesis
      by (cases p) (auto simp: intern_cells_append split: sum.splits)
  qed (use rows in \<open>simp add: intern_cells_append\<close>)
qed (simp add: total_rows_def)

lemma intern_cells_values:
  "string_values py2 vs = map_sum id (\<lambda>p. map ref_value (fst p)) (intern_cells py2 vs tab)"
proof (induction py2 vs tab rule: intern_cells.induct)
  case (3 py2 s vs tab)
  then show ?case
    by (auto simp: make_pystring_def split: sum.splits option.splits)
qed (auto split: sum.splits)

lemma ConvertString_eq:
  assumes "convertible StringColumn batches k"
  shows "ConvertString py2 batches k =
    Some (map_sum id (\<lambda>p. NPY_OBJECT (fst p)) (intern_cells py2 (column_cells StringColumn batches k) []))"
proof -
  let ?cols = "column_chunks StringColumn batches k"
  have "string_chunks py2 ?cols (npy_alloc (total_rows ?cols)) 0 [] =
      Some (case intern_cells py2 (column_cells StringColumn batches k) [] of
             Inl e \<Rightarrow> Inl e
           | Inr (rs, tab') \<Rightarrow> Inr (partial_array rs 0))"
    using string_chunks_eq [of ?cols py2 "[]" "[]"] assms
    by (auto simp: npy_alloc_partial convertible_def column_cells_def split: sum.split)
  with assms show ?thesis
    by (auto simp: ConvertString_def GetColumns_start convertible_def split: sum.splits)
qed

text \<open>Interning: equal strings of a column are one object.\<close>

lemma intern_lookup_Some: "intern_lookup tab ob = Some k \<Longrightarrow> k < length tab \<and> tab ! k = ob"
  by (induction tab arbitrary: k) (auto split: if_splits)

lemma intern_lookup_None: "intern_lookup tab ob = None \<longleftrightarrow> ob \<notin> set tab"
  by (induction tab) auto

fun interned_in :: "py_obj list \<Rightarrow> py_ref \<Rightarrow> bool" where
  "interned_in tab (Ref ob) = True"
| "interned_in tab (Interned k ob) = (k < length tab \<and> tab ! k = ob)"

lemma interned_in_append: "interned_in tab r \<Longrightarrow> interned_in (tab @ tab') r"
  by (cases r) (auto simp: nth_append)

lemma intern_cells_table:
  assumes "intern_cells py2 vs tab = Inr (rs, tab')" "distinct tab"
  shows "distinct tab' \<and> (\<exists>more. tab' = tab @ more) \<and> list_all (interned_in tab') rs"
  using assms
proof (induction py2 vs tab arbitrary: rs tab' rule: intern_cells.induct)
  case (3 py2 s vs tab)
  then obtain r tab1 rs1 where mk: "make_pystring py2 s tab = Inr (r, tab1)"
    and rest: "intern_cells py2 vs tab1 = Inr (rs1, tab')" and rs: "rs = r # rs1"
    by (auto split: sum.splits)
  have "distinct tab1 \<and> (\<exists>more. tab1 = tab @ more) \<and> interned_in tab1 r"
    using mk "3.prems"(2) intern_lookup_Some [of tab]
    by (auto simp: make_pystring_def intern_lookup_None split: sum.splits option.splits)
  moreover from this have "distinct tab' \<and> (\<exists>more. tab' = tab1 @ more) \<and> list_all (interned_in tab') rs1"
    using "3.IH" mk rest by auto
  ultimately show ?case using rs interned_in_append [of tab1 r] by auto
qed (auto split: sum.splits)

section \<open>Columns of SQL values and of pandas\<close>

text \<open>The abstract view: a column of a result set is a list of cells, \<open>None\<close> for NULL, and the
  column pandas gets is a typed list of values. \<open>pandas_spec\<close> is the conversion every batch
  together should undergo.\<close>

datatype cell = CBool bool | CInt int | CDouble "64 word" | CStr bytes

fun the_bool :: "cell \<Rightarrow> bool" where "the_bool (CBool b) = b" | "the_bool _ = False"
fun the_int :: "cell \<Rightarrow> int" where "the_int (CInt i) = i" | "the_int _ = 0"
fun the_double :: "cell \<Rightarrow> 64 word" where "the_double (CDouble d) = d" | "the_double _ = 0"
fun the_str :: "cell \<Rightarrow> bytes" where "the_str (CStr s) = s" | "the_str _ = []"

fun tcolumn_cells :: "TColumn \<Rightarrow> cell option list" where
  "tcolumn_cells (boolVal v n) = map (map_option CBool) (cells \<lparr>col_data = v, nulls = n\<rparr>)"
| "tcolumn_cells (byteVal v n) = map (map_option (CInt \<circ> sint)) (cells \<lparr>col_data = v, nulls = n\<rparr>)"
| "tcolumn_cells (i16Val v n) = map (map_option (CInt \<circ> sint)) (cells \<lparr>col_data = v, nulls = n\<rparr>)"
| "tcolumn_cells (i32Val v n) = map (map_option (CInt \<circ> sint)) (cells \<lparr>col_data = v, nulls = n\<rparr>)"
| "tcolumn_cells (i64Val v n) = map (map_option (CInt \<circ> sint)) (cells \<lparr>col_data = v, nulls = n\<rparr>)"
| "tcolumn_cells (doubleVal v n) = map (map_option CDouble) (cells \<lparr>col_data = v, nulls = n\<rparr>)"
| "tcolumn_cells (stringVal v n) = map (map_option CStr) (cells \<lparr>col_data = v, nulls = n\<rparr>)"
| "tcolumn_cells (binaryVal v n) = map (map_option CStr) (cells \<lparr>col_data = v, nulls = n\<rparr>)"

fun tcolumn_bitmap_ok :: "TColumn \<Rightarrow> bool" where
  "tcolumn_bitmap_ok (boolVal v n) = (length v \<le> 8 * (length n + 1))"
| "tcolumn_bitmap_ok (byteVal v n) = (length v \<le> 8 * (length n + 1))"
| "tcolumn_bitmap_ok (i16Val v n) = (length v \<le> 8 * (length n + 1))"
| "tcolumn_bitmap_ok (i32Val v n) = (length v \<le> 8 * (length n + 1))"
| "tcolumn_bitmap_ok (i64Val v n) = (length v \<le> 8 * (length n + 1))"
| "tcolumn_bitmap_ok (doubleVal v n) = (length v \<le> 8 * (length n + 1))"
| "tcolumn_bitmap_ok (stringVal v n) = (length v \<le> 8 * (length n + 1))"
| "tcolumn_bitmap_ok (binaryVal v n) = (length v \<le> 8 * (length n + 1))"

text \<open>The member of the union that carries a column of each type.\<close>

definition carried_by :: "TypeId \<Rightarrow> TColumn \<Rightarrow> bool" where
  "carried_by t c =
     (case c of
        boolVal v n \<Rightarrow> t = ColumnType_BOOLEAN
      | byteVal v n \<Rightarrow> t = ColumnType_TINYINT
      | i16Val v n \<Rightarrow> t = ColumnType_SMALLINT
      | i32Val v n \<Rightarrow> t = ColumnType_INT
      | i64Val v n \<Rightarrow> t = ColumnType_BIGINT
      | doubleVal v n \<Rightarrow> t = ColumnType_FLOAT \<or> t = ColumnType_DOUBLE
      | stringVal v n \<Rightarrow>
          t \<in> {ColumnType_STRING, ColumnType_TIMESTAMP, ColumnType_ARRAY, ColumnType_MAP,
               ColumnType_STRUCT, ColumnType_UNION, ColumnType_USER_DEFINED, ColumnType_DECIMAL,
               ColumnType_VARCHAR, ColumnType_CHAR}
      | binaryVal v n \<Rightarrow> False)"

datatype pcolumn =
    Ints nat "int list"
  | Bools "bool list"
  | Floats "32 word list"
  | Doubles "64 word list"
  | Objects "py_obj list"

fun array_abs :: "ndarray \<Rightarrow> pcolumn" where
  "array_abs (NPY_INT8 ws) = Ints 8 (map sint ws)"
| "array_abs (NPY_INT16 ws) = Ints 16 (map sint ws)"
| "array_abs (NPY_INT32 ws) = Ints 32 (map sint ws)"
| "array_abs (NPY_INT64 ws) = Ints 64 (map sint ws)"
| "array_abs (NPY_BOOL ws) = Bools (map (\<lambda>w. w \<noteq> 0) ws)"
| "array_abs (NPY_FLOAT32 ws) = Floats ws"
| "array_abs (NPY_DOUBLE ws) = Doubles ws"
| "array_abs (NPY_OBJECT rs) = Objects (map ref_value rs)"

definition integer_spec :: "nat \<Rightarrow> cell option list \<Rightarrow> pcolumn" where
  "integer_spec width vs =
     (if None \<in> set vs
      then Doubles (map (\<lambda>v. case v of None \<Rightarrow> NAN64 | Some c \<Rightarrow> double_of_float (float_of_int (the_int c))) vs)
      else Ints width (map (the_int \<circ> the) vs))"

definition boolean_spec :: "cell option list \<Rightarrow> pcolumn" where
  "boolean_spec vs =
     (if None \<in> set vs
      then Objects (map (\<lambda>v. case v of None \<Rightarrow> PNone | Some c \<Rightarrow> PBool (the_bool c)) vs)
      else Bools (map (the_bool \<circ> the) vs))"

definition pandas_spec :: "bool \<Rightarrow> TypeId \<Rightarrow> cell option list \<Rightarrow> py_exc + pcolumn" where
  "pandas_spec py2 t vs =
     (if t = ColumnType_BOOLEAN then Inr (boolean_spec vs)
      else if t = ColumnType_TINYINT then Inr (integer_spec 8 vs)
      else if t = ColumnType_SMALLINT then Inr (integer_spec 16 vs)
      else if t = ColumnType_INT then Inr (integer_spec 32 vs)
      else if t = ColumnType_BIGINT then Inr (integer_spec 64 vs)
      else if t = ColumnType_FLOAT then
        Inr (Floats (map (\<lambda>v. case v of None \<Rightarrow> NAN32 | Some c \<Rightarrow> float_of_double (the_double c)) vs))
      else if t = ColumnType_DOUBLE then
        Inr (Doubles (map (\<lambda>v. case v of None \<Rightarrow> NAN64 | Some c \<Rightarrow> the_double c) vs))
      else if t \<in> {ColumnType_NULL_TYPE, ColumnType_DATE, ColumnType_INVALID} then
        Inl (NotImplementedError (py_str py2 (TypeIdToString t)))
      else map_sum id Objects (string_values py2 (map (map_option the_str) vs)))"

definition convert_abs :: "(py_exc + ndarray) option \<Rightarrow> (py_exc + pcolumn) option" where
  "convert_abs r = map_option (map_sum id array_abs) r"

lemma None_map_option [simp]: "None \<in> set (map (map_option f) vs) \<longleftrightarrow> None \<in> set vs"
  by auto

lemma map_the_map_option:
  "None \<notin> set vs \<Longrightarrow> map (g \<circ> the) (map (map_option f) vs) = map (\<lambda>v. g (f (the v))) vs"
  by (induction vs) (auto simp: option.map_sel)

lemma double_of_float_NAN: "double_of_float NAN32 = NAN64"
  by code_simp

lemma integer_spec_eq:
  "integer_spec width (map (map_option (CInt \<circ> sint)) vs) =
     (if None \<in> set vs
      then Doubles (map (\<lambda>v. double_of_float (case v of None \<Rightarrow> NAN32 | Some w \<Rightarrow> float_of_int (sint w))) vs)
      else Ints width (map sint (map the vs)))"
  by (cases "None \<in> set vs")
    (auto simp: integer_spec_def map_the_map_option [simplified] double_of_float_NAN split: option.splits)

lemma boolean_spec_eq:
  "boolean_spec (map (map_option CBool) vs) =
     (if None \<in> set vs then array_abs (NPY_OBJECT (map bool_object vs))
      else array_abs (NPY_BOOL (map (\<lambda>v. if the v then 1 else 0) vs)))"
  by (cases "None \<in> set vs")
    (auto simp: boolean_spec_def bool_object_def map_the_map_option [simplified] split: option.splits)

text \<open>A column of the right member, read through its typed view.\<close>

definition typed_as :: "(TColumn \<Rightarrow> 'a TypedColumn) \<Rightarrow> ('a \<Rightarrow> cell) \<Rightarrow> TColumn \<Rightarrow> bool" where
  "typed_as typed f c \<longleftrightarrow>
     tcolumn_cells c = map (map_option f) (cells (typed c)) \<and>
     tcolumn_bitmap_ok c = bitmap_ok (typed c)"

lemma typed_as_columns:
  assumes "list_all (\<lambda>b. typed_as typed f (b ! k)) batches"
  shows "concat (map (\<lambda>b. tcolumn_cells (b ! k)) batches) =
      map (map_option f) (column_cells typed batches k)"
    and "list_all bitmap_ok (column_chunks typed batches k) =
      list_all (\<lambda>b. tcolumn_bitmap_ok (b ! k)) batches"
  using assms by (induction batches) (auto simp: typed_as_def column_cells_def column_chunks_def)

lemma typed_as_simps [simp]:
  "typed_as BoolColumn CBool (boolVal v1 n)"
  "typed_as ByteColumn (CInt \<circ> sint) (byteVal v2 n)"
  "typed_as Int16Column (CInt \<circ> sint) (i16Val v3 n)"
  "typed_as Int32Column (CInt \<circ> sint) (i32Val v4 n)"
  "typed_as Int64Column (CInt \<circ> sint) (i64Val v5 n)"
  "typed_as DoubleColumn CDouble (doubleVal v6 n)"
  "typed_as StringColumn CStr (stringVal v7 n)"
  by (simp_all add: typed_as_def bitmap_ok_def col_length_def BoolColumn_def ByteColumn_def
      Int16Column_def Int32Column_def Int64Column_def DoubleColumn_def StringColumn_def)

text \<open>All batches have column \<open>k\<close> in the member of type \<open>t\<close>, with enough bits.\<close>

definition batches_ok :: "TypeId \<Rightarrow> nat \<Rightarrow> row_set list \<Rightarrow> bool" where
  "batches_ok t k batches =
     list_all (\<lambda>b. k < length b \<and> carried_by t (b ! k) \<and> tcolumn_bitmap_ok (b ! k)) batches"

definition cells_of :: "nat \<Rightarrow> row_set list \<Rightarrow> cell option list" where
  "cells_of k batches = concat (map (\<lambda>b. tcolumn_cells (b ! k)) batches)"

lemma batches_ok_typed:
  assumes "batches_ok t k batches" and "\<And>c. carried_by t c \<Longrightarrow> typed_as typed f c"
  shows "convertible typed batches k"
    and "cells_of k batches = map (map_option f) (column_cells typed batches k)"
proof -
  have "list_all (\<lambda>b. typed_as typed f (b ! k)) batches"
    using assms by (auto simp: batches_ok_def list_all_iff)
  then show "convertible typed batches k"
    and "cells_of k batches = map (map_option f) (column_cells typed batches k)"
    using typed_as_columns [of typed f k batches] assms(1)
    by (auto simp: convertible_def batches_ok_def cells_of_def list_all_iff)
qed

lemma carried_typed:
  "carried_by ColumnType_BOOLEAN c \<Longrightarrow> typed_as BoolColumn CBool c"
  "carried_by ColumnType_TINYINT c \<Longrightarrow> typed_as ByteColumn (CInt \<circ> sint) c"
  "carried_by ColumnType_SMALLINT c \<Longrightarrow> typed_as Int16Column (CInt \<circ> sint) c"
  "carried_by ColumnType_INT c \<Longrightarrow> typed_as Int32Column (CInt \<circ> sint) c"
  "carried_by ColumnType_BIGINT c \<Longrightarrow> typed_as Int64Column (CInt \<circ> sint) c"
  "t \<in> {ColumnType_FLOAT, ColumnType_DOUBLE} \<Longrightarrow> carried_by t c \<Longrightarrow> typed_as DoubleColumn CDouble c"
  "t \<notin> {ColumnType_BOOLEAN, ColumnType_TINYINT, ColumnType_SMALLINT, ColumnType_INT,
      ColumnType_BIGINT, ColumnType_FLOAT, ColumnType_DOUBLE} \<Longrightarrow>
     carried_by t c \<Longrightarrow> typed_as StringColumn CStr c"
  by (auto simp: carried_by_def split: TColumn.splits)

lemma integer_refines:
  assumes "convertible typed batches k"
    and "cells_of k batches = map (map_option (CInt \<circ> sint)) (column_cells typed batches k)"
    and "\<And>ws. array_abs (npy_type ws) = Ints width (map sint ws)"
  shows "convert_abs (map_option Inr (ConvertInteger npy_type typed batches k)) =
    Some (Inr (integer_spec width (cells_of k batches)))"
  using assms by (simp add: convert_abs_def ConvertInteger_eq integer_spec_eq Let_def del: map_map)

lemma string_refines:
  assumes "convertible StringColumn batches k"
    and "cells_of k batches = map (map_option CStr) (column_cells StringColumn batches k)"
  shows "convert_abs (ConvertString py2 batches k) =
    Some (map_sum id Objects (string_values py2 (map (map_option the_str) (cells_of k batches))))"
proof -
  have "map (map_option the_str) (cells_of k batches) = column_cells StringColumn batches k"
    using assms(2) by (simp add: option.map_comp comp_def option.map_ident)
  then show ?thesis
    using assms(1) by (simp add: convert_abs_def ConvertString_eq sum.map_comp comp_def
        intern_cells_values [where tab = "[]"])
qed

definition numeric_type :: "TypeId \<Rightarrow> bool" where
  "numeric_type t \<longleftrightarrow> t \<in> {ColumnType_BOOLEAN, ColumnType_TINYINT, ColumnType_SMALLINT, ColumnType_INT,
     ColumnType_BIGINT, ColumnType_FLOAT, ColumnType_DOUBLE}"

definition unsupported_type :: "TypeId \<Rightarrow> bool" where
  "unsupported_type t \<longleftrightarrow> t \<in> {ColumnType_NULL_TYPE, ColumnType_DATE, ColumnType_INVALID}"

lemma string_type:
  assumes "\<not> numeric_type (type_id ty)" "\<not> unsupported_type (type_id ty)"
  shows "ConvertColumnPandas py2 batches k ty = ConvertString py2 batches k"
    and "pandas_spec py2 (type_id ty) vs =
      map_sum id Objects (string_values py2 (map (map_option the_str) vs))"
  using assms by (auto simp: ConvertColumnPandas_def pandas_spec_def numeric_type_def unsupported_type_def
      split: TypeId.split)

lemma unsupported_refines:
  assumes "unsupported_type (type_id ty)"
  shows "convert_abs (ConvertColumnPandas py2 batches k ty) = Some (pandas_spec py2 (type_id ty) vs)"
  using assms by (auto simp: ConvertColumnPandas_def pandas_spec_def unsupported_type_def convert_abs_def
      ColumnType_ToString_def)

lemma numeric_refines:
  assumes "batches_ok (type_id ty) k batches" "numeric_type (type_id ty)"
  shows "convert_abs (ConvertColumnPandas py2 batches k ty) =
    Some (pandas_spec py2 (type_id ty) (cells_of k batches))"
proof -
  note typed = batches_ok_typed [OF assms(1)]
  note spec = ConvertColumnPandas_def pandas_spec_def
  consider "type_id ty = ColumnType_BOOLEAN" | "type_id ty = ColumnType_TINYINT"
    | "type_id ty = ColumnType_SMALLINT" | "type_id ty = ColumnType_INT"
    | "type_id ty = ColumnType_BIGINT" | "type_id ty = ColumnType_FLOAT" | "type_id ty = ColumnType_DOUBLE"
    using assms(2) by (auto simp: numeric_type_def)
  then show ?thesis
  proof cases
    case 1
    with typed [of BoolColumn CBool] show ?thesis
      by (simp add: carried_typed spec convert_abs_def ConvertBoolean_eq boolean_spec_eq Let_def)
  next
    case 2
    with typed [of ByteColumn "CInt \<circ> sint"] show ?thesis
      by (simp add: carried_typed spec integer_refines)
  next
    case 3
    with typed [of Int16Column "CInt \<circ> sint"] show ?thesis
      by (simp add: carried_typed spec integer_refines)
  next
    case 4
    with typed [of Int32Column "CInt \<circ> sint"] show ?thesis
      by (simp add: carried_typed spec integer_refines)
  next
    case 5
    with typed [of Int64Column "CInt \<circ> sint"] show ?thesis
      by (simp add: carried_typed spec integer_refines)
  next
    case 6
    with typed [of DoubleColumn CDouble] show ?thesis
      by (auto simp: carried_typed(6) [of ColumnType_FLOAT] spec convert_abs_def ConvertFloat_eq
          split: option.splits)
  next
    case 7
    with typed [of DoubleColumn CDouble] show ?thesis
      by (auto simp: carried_typed(6) [of ColumnType_DOUBLE] spec convert_abs_def ConvertFloat_eq
          split: option.splits)
  qed
qed

lemma ConvertColumnPandas_abs:
  assumes "batches_ok (type_id ty) k batches"
  shows "convert_abs (ConvertColumnPandas py2 batches k ty) =
    Some (pandas_spec py2 (type_id ty) (cells_of k batches))"
proof -
  consider "numeric_type (type_id ty)" | "unsupported_type (type_id ty)"
    | "\<not> numeric_type (type_id ty)" "\<not> unsupported_type (type_id ty)" by blast
  then show ?thesis
  proof cases
    case 1
    with assms show ?thesis by (rule numeric_refines)
  next
    case 2
    then show ?thesis by (rule unsupported_refines)
  next
    case 3
    then have "typed_as StringColumn CStr c" if "carried_by (type_id ty) c" for c
      using that carried_typed(7) by (auto simp: numeric_type_def)
    with 3 batches_ok_typed [OF assms, of StringColumn CStr] show ?thesis
      by (simp add: string_type string_refines)
  qed
qed



section \<open>Bounds\<close>

lemma convertible_bitmaps:
  assumes "list_all (\<lambda>b. k < length b \<and> carried_by t (b ! k)) batches"
    and "\<And>c. carried_by t c \<Longrightarrow> typed_as typed f c"
  shows "convertible typed batches k = list_all (\<lambda>b. tcolumn_bitmap_ok (b ! k)) batches"
proof -
  have "list_all (\<lambda>b. typed_as typed f (b ! k)) batches" using assms by (auto simp: list_all_iff)
  then show ?thesis
    using typed_as_columns(2) [of typed f k batches] assms(1) by (auto simp: convertible_def list_all_iff)
qed

lemma converters_defined:
  "(ConvertBoolean batches k = None) = (\<not> convertible BoolColumn batches k)"
  "(ConvertInteger npy_type ctype batches k = None) = (\<not> convertible ctype batches k)"
  "(ConvertFloat npy_ftype cast null_value batches k = None) = (\<not> convertible DoubleColumn batches k)"
  by (simp_all add: ConvertBoolean_eq ConvertInteger_eq ConvertFloat_eq Let_def)

text \<open>C29: Whether a conversion of a numeric column reads outside the null bitmap depends on the
  length of the bitmap only: the conversion is defined exactly when every batch has one byte of
  bitmap, counting the zero byte behind it, for each eight rows. The bitmaps that some versions
  of Hive cut short can miss this, and nothing on the way compares their size with the number of
  rows.\<close>

theorem null_bitmap_bounds:
  assumes "numeric_type (type_id ty)"
    and "list_all (\<lambda>b. k < length b \<and> carried_by (type_id ty) (b ! k)) batches"
  shows "ConvertColumnPandas py2 batches k ty = None \<longleftrightarrow>
    \<not> list_all (\<lambda>b. tcolumn_bitmap_ok (b ! k)) batches"
proof -
  note bits = convertible_bitmaps [OF assms(2)]
  note dispatch = ConvertColumnPandas_def converters_defined carried_typed
  consider "type_id ty = ColumnType_BOOLEAN" | "type_id ty = ColumnType_TINYINT"
    | "type_id ty = ColumnType_SMALLINT" | "type_id ty = ColumnType_INT"
    | "type_id ty = ColumnType_BIGINT" | "type_id ty \<in> {ColumnType_FLOAT, ColumnType_DOUBLE}"
    using assms(1) by (auto simp: numeric_type_def)
  then show ?thesis
  proof cases
    case 1
    then show ?thesis using bits [of BoolColumn CBool] by (simp add: dispatch)
  next
    case 2
    then show ?thesis using bits [of ByteColumn "CInt \<circ> sint"] by (simp add: dispatch)
  next
    case 3
    then show ?thesis using bits [of Int16Column "CInt \<circ> sint"] by (simp add: dispatch)
  next
    case 4
    then show ?thesis using bits [of Int32Column "CInt \<circ> sint"] by (simp add: dispatch)
  next
    case 5
    then show ?thesis using bits [of Int64Column "CInt \<circ> sint"] by (simp add: dispatch)
  next
    case 6
    then show ?thesis using bits [of DoubleColumn CDouble] carried_typed(6) [OF 6] by (auto simp: dispatch)
  qed
qed

theorem null_bitmap_bounds_witness:
  "ConvertColumnPandas False [[i32Val (replicate 17 5) [CHR 0x00]]] 0 (PrimitiveType ColumnType_INT) = None \<and>
   ConvertColumnPandas False [[i32Val (replicate 16 5) [CHR 0x00]]] 0 (PrimitiveType ColumnType_INT) \<noteq> None"
proof -
  have "numeric_type (type_id (PrimitiveType ColumnType_INT))" by (simp add: numeric_type_def)
  from null_bitmap_bounds [OF this, of 0] show ?thesis by (simp add: carried_by_def)
qed

text \<open>A column of type BINARY arrives in the member \<^verbatim>\<open>binaryVal\<close> of the union, which the
  typed view does not read: the array has no rows at all.\<close>

lemma binary_column_lost:
  "ConvertColumnPandas py2 [[binaryVal v n]] 0 (PrimitiveType ColumnType_BINARY) = Some (Inr (NPY_OBJECT []))"
proof -
  have "convertible StringColumn [[binaryVal v n]] 0" "column_cells StringColumn [[binaryVal v n]] 0 = []"
    by (simp_all add: convertible_def column_cells_def column_chunks_def StringColumn_def bitmap_ok_def
        col_length_def cells_def)
  then show ?thesis by (simp add: ConvertColumnPandas_def ConvertString_eq)
qed

section \<open>Integers as doubles\<close>

text \<open>The integer part of a double of magnitude at least 1 and less than \<open>2 ^ 53\<close>, or zero.\<close>

definition int_of_double :: "64 word \<Rightarrow> int" where
  "int_of_double w =
     (if w = 0 then 0
      else (if bit w 63 then - 1 else 1) *
           ((2 ^ 52 + uint (take_bit 52 w)) div 2 ^ nat (1075 - uint (take_bit 11 (drop_bit 52 w)))))"

lemma bit_length_bounds:
  "0 < n \<Longrightarrow> 0 < bit_length n \<and> 2 ^ (bit_length n - 1) \<le> n \<and> n < 2 ^ bit_length n"
proof (induction n rule: bit_length.induct)
  case (1 n)
  show ?case
  proof (cases "n = 1")
    case True
    then show ?thesis by (simp add: bit_length.simps [of 1] bit_length.simps [of 0])
  next
    case False
    with 1 have half: "0 < n div 2" by auto
    with 1 obtain b where b: "bit_length (n div 2) = Suc b"
      by (cases "bit_length (n div 2)") auto
    have "bit_length n = Suc (Suc b)" using 1 b by (simp add: bit_length.simps [of n])
    moreover have "2 ^ b \<le> n div 2 \<and> n div 2 < 2 ^ Suc b" using 1 b half by auto
    ultimately show ?thesis by auto
  qed
qed

lemma double_fields:
  fixes neg :: bool
  assumes "0 \<le> x" "x < 2 ^ 11" "0 \<le> f" "f < 2 ^ 52"
  defines "w \<equiv> (word_of_int ((if neg then 2 ^ 63 else 0) + x * 2 ^ 52 + f) :: 64 word)"
  shows "uint (take_bit 52 w) = f" and "uint (take_bit 11 (drop_bit 52 w)) = x" and "bit w 63 = neg"
proof -
  define v where "v = (if neg then 2 ^ 63 else 0) + x * 2 ^ 52 + f"
  have v: "0 \<le> v" "v < 2 ^ 64" using assms(1-4) by (auto simp: v_def)
  have "w = word_of_int v" unfolding w_def v_def ..
  with v have u: "uint w = v" by (simp only: uint_word_of_int) simp
  show "uint (take_bit 52 w) = f"
  proof -
    have "v = ((if neg then 2 ^ 11 else 0) + x) * 2 ^ 52 + f" by (simp add: v_def)
    then have "v mod 2 ^ 52 = f mod 2 ^ 52" by (simp only: mod_mult_self3)
    with assms(3,4) have "v mod 2 ^ 52 = f" by simp
    then show ?thesis by (simp only: unsigned_take_bit_eq u) (simp only: take_bit_eq_mod)
  qed
  have "v div 2 ^ 52 = (if neg then 2 ^ 11 else 0) + x" using assms(1-4) by (auto simp: v_def)
  then show "uint (take_bit 11 (drop_bit 52 w)) = x"
    using assms(1,2) v by (simp only: unsigned_take_bit_eq unsigned_drop_bit_eq u)
      (simp add: take_bit_eq_mod drop_bit_eq_div)
  have "bit w 63 = bit v 63" by (simp add: u [symmetric] bit_uint_iff)
  also have "\<dots> = odd (v div 2 ^ 63)" by (simp add: bit_iff_odd)
  also have "v div 2 ^ 63 = (if neg then 1 else 0)" using assms(1-4) by (auto simp: v_def)
  finally show "bit w 63 = neg" by simp
qed

text \<open>The same for a float.\<close>

lemma float_fields:
  fixes neg :: bool
  assumes "0 \<le> x" "x < 2 ^ 8" "0 \<le> f" "f < 2 ^ 23"
  defines "w \<equiv> (word_of_int ((if neg then 2 ^ 31 else 0) + x * 2 ^ 23 + f) :: 32 word)"
  shows "uint (take_bit 23 w) = f" and "uint (take_bit 8 (drop_bit 23 w)) = x" and "bit w 31 = neg"
proof -
  define v where "v = (if neg then 2 ^ 31 else 0) + x * 2 ^ 23 + f"
  have v: "0 \<le> v" "v < 2 ^ 32" using assms(1-4) by (auto simp: v_def)
  have "w = word_of_int v" unfolding w_def v_def ..
  with v have u: "uint w = v" by (simp only: uint_word_of_int) simp
  show "uint (take_bit 23 w) = f"
  proof -
    have "v = ((if neg then 2 ^ 8 else 0) + x) * 2 ^ 23 + f" by (simp add: v_def)
    then have "v mod 2 ^ 23 = f mod 2 ^ 23" by (simp only: mod_mult_self3)
    with assms(3,4) have "v mod 2 ^ 23 = f" by simp
    then show ?thesis by (simp only: unsigned_take_bit_eq u) (simp only: take_bit_eq_mod)
  qed
  have "v div 2 ^ 23 = (if neg then 2 ^ 8 else 0) + x" using assms(1-4) by (auto simp: v_def)
  then show "uint (take_bit 8 (drop_bit 23 w)) = x"
    using assms(1,2) v by (simp only: unsigned_take_bit_eq unsigned_drop_bit_eq u)
      (simp add: take_bit_eq_mod drop_bit_eq_div)
  have "bit w 31 = bit v 31" by (simp add: u [symmetric] bit_uint_iff)
  also have "\<dots> = odd (v div 2 ^ 31)" by (simp add: bit_iff_odd)
  also have "v div 2 ^ 31 = (if neg then 1 else 0)" using assms(1-4) by (auto simp: v_def)
  finally show "bit w 31 = neg" by simp
qed

lemma double_of_small_int:
  assumes "n \<noteq> 0" "\<bar>n\<bar> < 2 ^ 24"
  defines "e \<equiv> bit_length \<bar>n\<bar> - 1"
  shows "e \<le> 23" and "0 \<le> \<bar>n\<bar> * 2 ^ (23 - e) - 2 ^ 23" and "\<bar>n\<bar> * 2 ^ (23 - e) - 2 ^ 23 < 2 ^ 23"
    and "double_of_float (float_of_int n) =
      word_of_int ((if n < 0 then 2 ^ 63 else 0) + (int e + 1023) * 2 ^ 52 + (\<bar>n\<bar> * 2 ^ (23 - e) - 2 ^ 23) * 2 ^ 29)"
proof -
  let ?m = "\<bar>n\<bar>"
  have m: "0 < bit_length ?m" "2 ^ e \<le> ?m" "?m < 2 ^ Suc e"
    using bit_length_bounds [of ?m] assms(1) by (simp_all add: e_def)
  show e: "e \<le> 23"
  proof (rule ccontr)
    assume "\<not> e \<le> 23"
    then have "(2::int) ^ 24 \<le> 2 ^ e" by (intro power_increasing) auto
    with m(2) assms(2) show False by simp
  qed
  let ?q = "?m * 2 ^ (23 - e)"
  have "2 ^ e * 2 ^ (23 - e) \<le> ?q" "?q < 2 * 2 ^ e * 2 ^ (23 - e)"
    using m unfolding power_Suc by (simp_all only: mult_right_mono mult_strict_right_mono zero_less_power zero_le_power
        zero_less_numeral zero_le_numeral)
  moreover have "(2::int) ^ e * 2 ^ (23 - e) = 2 ^ 23" using e by (simp only: power_add [symmetric]) simp
  ultimately show q: "0 \<le> ?q - 2 ^ 23" "?q - 2 ^ 23 < 2 ^ 23" unfolding mult.assoc by linarith+
  have "float_of_int n = word_of_int ((if n < 0 then 2 ^ 31 else 0) + (int e + 127) * 2 ^ 23 + (?q - 2 ^ 23))"
    using e assms(1) unfolding float_of_int_def Let_def e_def [symmetric] by (simp only: if_True if_False)
  with float_fields [of "int e + 127" "?q - 2 ^ 23" "n < 0"] e q
  have fields: "uint (take_bit 23 (float_of_int n)) = ?q - 2 ^ 23"
    "uint (take_bit 8 (drop_bit 23 (float_of_int n))) = int e + 127" "bit (float_of_int n) 31 = (n < 0)"
    by simp_all
  have "(int e + 127 = 0xFF) = False" "(int e + 127 = 0) = False" "int e + 127 + 896 = int e + 1023"
    using e by simp_all
  then show "double_of_float (float_of_int n) =
      word_of_int ((if n < 0 then 2 ^ 63 else 0) + (int e + 1023) * 2 ^ 52 + (?q - 2 ^ 23) * 2 ^ 29)"
    unfolding double_of_float_def Let_def fields by (simp only: if_False)
qed

lemma small_int_exact:
  assumes "\<bar>n\<bar> \<le> 2 ^ 24"
  shows "int_of_double (double_of_float (float_of_int n)) = n"
proof (cases "n = 0 \<or> \<bar>n\<bar> = 2 ^ 24")
  case True
  then consider "n = 0" | "n = 16777216" | "n = - 16777216" by (auto simp: abs_if split: if_splits)
  moreover have "int_of_double (double_of_float (float_of_int 0)) = 0"
    "int_of_double (double_of_float (float_of_int 16777216)) = 16777216"
    "int_of_double (double_of_float (float_of_int (- 16777216))) = - 16777216" by code_simp+
  ultimately show ?thesis by metis
next
  case False
  with assms have n: "n \<noteq> 0" "\<bar>n\<bar> < 2 ^ 24" by auto
  define e where "e = bit_length \<bar>n\<bar> - 1"
  define w where "w = double_of_float (float_of_int n)"
  define f where "f = \<bar>n\<bar> * 2 ^ (23 - e) - 2 ^ 23"
  note small = double_of_small_int [OF n, folded e_def, folded w_def f_def]
  have fields: "uint (take_bit 52 w) = f * 2 ^ 29" "uint (take_bit 11 (drop_bit 52 w)) = int e + 1023"
    "bit w 63 = (n < 0)"
    using double_fields [of "int e + 1023" "f * 2 ^ 29" "n < 0", folded small(4)] small(1-3) by simp_all
  have "2 ^ 52 + f * 2 ^ 29 = \<bar>n\<bar> * (2 ^ (23 - e) * 2 ^ 29)" by (simp add: f_def algebra_simps)
  also have "(2::int) ^ (23 - e) * 2 ^ 29 = 2 ^ (52 - e)"
    using small(1) by (simp only: power_add [symmetric]) simp
  finally have "(2 ^ 52 + f * 2 ^ 29) div 2 ^ (52 - e) = \<bar>n\<bar>" by simp
  moreover have "nat (1075 - (int e + 1023)) = 52 - e" using small(1) by simp
  moreover have "w \<noteq> 0" using fields(2) by auto
  ultimately show ?thesis
    unfolding int_of_double_def w_def [symmetric] fields by (auto simp: abs_if)
qed

text \<open>C30: A column of integers with a null becomes an array of doubles, because the values go through a
  float: the nulls are NaN, and every value whose magnitude is at most \<open>2 ^ 24\<close> is in its place without loss.
  The values of TINYINT and SMALLINT never exceed the bound; those of INT and BIGINT may.\<close>

theorem integer_null_exact:
  assumes "convertible ctype batches k" and "None \<in> set (column_cells ctype batches k)"
  shows "\<exists>ds. ConvertInteger npy_type ctype batches k = Some (NPY_DOUBLE ds) \<and>
     length ds = length (column_cells ctype batches k) \<and>
     (\<forall>i < length ds.
        case column_cells ctype batches k ! i of
          None \<Rightarrow> ds ! i = NAN64
        | Some w \<Rightarrow> \<bar>sint w\<bar> \<le> 2 ^ 24 \<longrightarrow> int_of_double (ds ! i) = sint w)"
  using assms
  by (auto simp: ConvertInteger_eq Let_def double_of_float_NAN small_int_exact split: option.split)

theorem integer_null_exact_witness:
  "\<exists>ds. ConvertInteger NPY_INT32 Int32Column [[i32Val [0xFF000001, 0] [CHR 0x02]]] 0 = Some (NPY_DOUBLE ds) \<and>
     int_of_double (ds ! 0) = - 16777215"
proof -
  let ?b = "[[i32Val [0xFF000001, 0] [CHR 0x02]]]"
  have cells: "column_cells Int32Column ?b 0 = [Some 0xFF000001, None]" by code_simp
  have "convertible Int32Column ?b 0" by code_simp
  moreover have "None \<in> set (column_cells Int32Column ?b 0)" by (simp add: cells)
  ultimately obtain ds where "ConvertInteger NPY_INT32 Int32Column ?b 0 = Some (NPY_DOUBLE ds)"
    and "length ds = 2" and v: "\<forall>i < length ds. case [Some 0xFF000001, None] ! i of
      None \<Rightarrow> ds ! i = NAN64
    | Some (w :: 32 word) \<Rightarrow> \<bar>sint w\<bar> \<le> 2 ^ 24 \<longrightarrow> int_of_double (ds ! i) = sint w"
    using integer_null_exact [of Int32Column ?b 0 NPY_INT32] unfolding cells by auto
  moreover have "sint (0xFF000001 :: 32 word) = - 16777215" by code_simp
  ultimately show ?thesis using v [rule_format, of 0] by auto
qed

text \<open>Beyond the bound two values of a column with a null become one, already for INT.\<close>

lemma integer_null_precision:
  "ConvertColumnPandas False [[i32Val [16777217, 0] [CHR 0x02]]] 0 (PrimitiveType ColumnType_INT) =
   ConvertColumnPandas False [[i32Val [16777216, 0] [CHR 0x02]]] 0 (PrimitiveType ColumnType_INT)"
  by code_simp

end
