(* ===== verification/Hs2_Client.thy ===== *)
theory Hs2_Client
  imports Hs2_Columns
begin

text \<open>
  The C++ client: \<^verbatim>\<open>src/hs2client/operation.cc\<close>, \<^verbatim>\<open>session.cc\<close> and \<^verbatim>\<open>service.cc\<close>.

  The Thrift client and its transport are generated and third-party code: the record
  \<open>rpc_client\<close> has a function for each call the library makes, from the arguments of the
  request and the state \<open>'s\<close> of the other side (server, network, time) to the response and the
  next state. \<open>Inl what\<close> is a Thrift exception with its message. A handle is an opaque byte
  string. An operation of a C++ object takes the object and returns it updated; an output
  parameter that is not written is \<open>None\<close>.
\<close>

section \<open>Remote calls\<close>

type_synonym handle = string
type_synonym HS2ClientConfig = "(string \<times> string) list"

record TColumnDesc =
  columnName :: string
  typeDesc :: TTypeDesc
  tposition :: int
  comment_text :: string

record 's rpc_client =
  rpc_OpenSession :: "HS2ClientConfig \<Rightarrow> string \<Rightarrow> 's \<Rightarrow> (string + TStatus \<times> handle) \<times> 's"
  rpc_CloseSession :: "handle \<Rightarrow> 's \<Rightarrow> (string + TStatus) \<times> 's"
  rpc_ExecuteStatement ::
    "handle \<Rightarrow> string \<Rightarrow> HS2ClientConfig \<Rightarrow> 's \<Rightarrow> (string + TStatus \<times> handle) \<times> 's"
  rpc_GetOperationStatus :: "handle \<Rightarrow> 's \<Rightarrow> (string + TStatus \<times> int) \<times> 's"
  rpc_GetLog :: "handle \<Rightarrow> 's \<Rightarrow> (string + TStatus \<times> string) \<times> 's"
  rpc_GetRuntimeProfile :: "handle \<Rightarrow> handle \<Rightarrow> 's \<Rightarrow> (string + TStatus \<times> string) \<times> 's"
  rpc_GetResultSetMetadata :: "handle \<Rightarrow> 's \<Rightarrow> (string + TStatus \<times> TColumnDesc list) \<times> 's"
  rpc_FetchResults :: "handle \<Rightarrow> int \<Rightarrow> int \<Rightarrow> 's \<Rightarrow> (string + TStatus \<times> bool \<times> row_set) \<times> 's"
  rpc_CancelOperation :: "handle \<Rightarrow> 's \<Rightarrow> (string + TStatus) \<times> 's"
  rpc_CloseOperation :: "handle \<Rightarrow> 's \<Rightarrow> (string + TStatus) \<times> 's"
  transport_open :: "string \<Rightarrow> int \<Rightarrow> int \<Rightarrow> 's \<Rightarrow> (string + unit) \<times> 's"
  transport_close :: "'s \<Rightarrow> (string + unit) \<times> 's"
  transport_isOpen :: "'s \<Rightarrow> bool"

text \<open>The two macros: \<^verbatim>\<open>TRY_RPC_OR_RETURN\<close> makes a status of an exception, \<^verbatim>\<open>RETURN_NOT_OK\<close>
  leaves when the response is not a success. What the rest of a function does with a good
  response is the payload.\<close>

definition checked_rpc :: "(string + TStatus \<times> 'r) \<times> 's \<Rightarrow> Status \<times> 'r option \<times> 's" where
  "checked_rpc call =
     (case call of
        (Inl what, s) \<Rightarrow> (Status_Error what, None, s)
      | (Inr (ts, r), s) \<Rightarrow>
          if \<not> tstatus_ok ts then (TStatusToStatus ts, None, s) else (TStatusToStatus ts, Some r, s))"

lemma checked_rpc_out:
  "checked_rpc call = (st, out, s) \<Longrightarrow> Status_ok st \<longleftrightarrow> out \<noteq> None"
  by (auto simp: checked_rpc_def ok_TStatusToStatus split: prod.splits sum.splits if_splits)

section \<open>Operation\<close>

record Operation =
  op_handle :: handle
  op_session_handle :: handle
  op_open :: bool

definition new_Operation :: Operation where
  "new_Operation = \<lparr>op_handle = [], op_session_handle = [], op_open = False\<rparr>"

definition GetState :: "'s rpc_client \<Rightarrow> Operation \<Rightarrow> 's \<Rightarrow> Status \<times> OperationState option \<times> 's" where
  "GetState rpc op s =
     (case checked_rpc (rpc_GetOperationStatus rpc (op_handle op) s) of
        (st, r, s') \<Rightarrow> (st, map_option TOperationStateToOperationState r, s'))"

definition GetLog :: "'s rpc_client \<Rightarrow> Operation \<Rightarrow> 's \<Rightarrow> Status \<times> string option \<times> 's" where
  "GetLog rpc op s = checked_rpc (rpc_GetLog rpc (op_handle op) s)"

definition GetProfile :: "'s rpc_client \<Rightarrow> Operation \<Rightarrow> 's \<Rightarrow> Status \<times> string option \<times> 's" where
  "GetProfile rpc op s =
     checked_rpc (rpc_GetRuntimeProfile rpc (op_handle op) (op_session_handle op) s)"

definition TColumnDescToColumnDesc :: "TColumnDesc \<Rightarrow> ColumnDesc" where
  "TColumnDescToColumnDesc d =
     \<lparr>column_name = columnName d, column_type = TTypeDescToColumnType (typeDesc d),
      position = tposition d, column_comment = comment_text d\<rparr>"

definition GetResultSetMetadata :: "'s rpc_client \<Rightarrow> Operation \<Rightarrow> 's \<Rightarrow>
    Status \<times> ColumnDesc list option \<times> 's" where
  "GetResultSetMetadata rpc op s =
     (case checked_rpc (rpc_GetResultSetMetadata rpc (op_handle op) s) of
        (st, r, s') \<Rightarrow> (st, map_option (map TColumnDescToColumnDesc) r, s'))"

definition Fetch :: "'s rpc_client \<Rightarrow> Operation \<Rightarrow> int \<Rightarrow> FetchOrientation \<Rightarrow> 's \<Rightarrow>
    Status \<times> (bool \<times> row_set) option \<times> 's" where
  "Fetch rpc op max_rows orientation s =
     checked_rpc (rpc_FetchResults rpc (op_handle op)
       (FetchOrientationToTFetchOrientation orientation) max_rows s)"

definition Fetch_default :: "'s rpc_client \<Rightarrow> Operation \<Rightarrow> 's \<Rightarrow> Status \<times> (bool \<times> row_set) option \<times> 's" where
  "Fetch_default rpc op s = Fetch rpc op 1024 NEXT s"

definition Cancel :: "'s rpc_client \<Rightarrow> Operation \<Rightarrow> 's \<Rightarrow> Status \<times> 's" where
  "Cancel rpc op s =
     (case rpc_CancelOperation rpc (op_handle op) s of
        (Inl what, s') \<Rightarrow> (Status_Error what, s')
      | (Inr ts, s') \<Rightarrow> (TStatusToStatus ts, s'))"

text \<open>A response without payload.\<close>

definition status_only :: "(string + TStatus) \<times> 's \<Rightarrow> (string + TStatus \<times> unit) \<times> 's" where
  "status_only call = map_prod (map_sum id (\<lambda>ts. (ts, ()))) id call"

definition Operation_Close :: "'s rpc_client \<Rightarrow> Operation \<Rightarrow> 's \<Rightarrow> Status \<times> Operation \<times> 's" where
  "Operation_Close rpc op s =
     (if \<not> op_open op then (Status_OK [], op, s)
      else case checked_rpc (status_only (rpc_CloseOperation rpc (op_handle op) s)) of
             (st, None, s') \<Rightarrow> (st, op, s')
           | (st, Some _, s') \<Rightarrow> (st, op\<lparr>op_open := False\<rparr>, s'))"

definition HasResultSet :: "'s rpc_client \<Rightarrow> Operation \<Rightarrow> 's \<Rightarrow> bool \<times> 's" where
  "HasResultSet rpc op s =
     (case GetState rpc op s of
        (st, out, s') \<Rightarrow> (if \<not> Status_ok st then False else out = Some FINISHED, s'))"

section \<open>Session\<close>

record Session =
  sess_handle :: handle
  sess_open :: bool

definition new_Session :: Session where
  "new_Session = \<lparr>sess_handle = [], sess_open = False\<rparr>"

definition Session_Close :: "'s rpc_client \<Rightarrow> Session \<Rightarrow> 's \<Rightarrow> Status \<times> Session \<times> 's" where
  "Session_Close rpc sn s =
     (if \<not> sess_open sn then (Status_OK [], sn, s)
      else case checked_rpc (status_only (rpc_CloseSession rpc (sess_handle sn) s)) of
             (st, None, s') \<Rightarrow> (st, sn, s')
           | (st, Some _, s') \<Rightarrow> (st, sn\<lparr>sess_open := False\<rparr>, s'))"

definition Session_Open :: "'s rpc_client \<Rightarrow> Session \<Rightarrow> HS2ClientConfig \<Rightarrow> string \<Rightarrow> 's \<Rightarrow>
    Status \<times> Session \<times> 's" where
  "Session_Open rpc sn config user s =
     (case checked_rpc (rpc_OpenSession rpc config user s) of
        (st, None, s') \<Rightarrow> (st, sn, s')
      | (st, Some h, s') \<Rightarrow> (st, sn\<lparr>sess_handle := h, sess_open := True\<rparr>, s'))"

definition ExecuteStatementOperation_Open :: "'s rpc_client \<Rightarrow> Operation \<Rightarrow> handle \<Rightarrow> string \<Rightarrow>
    HS2ClientConfig \<Rightarrow> 's \<Rightarrow> Status \<times> Operation \<times> 's" where
  "ExecuteStatementOperation_Open rpc op session_handle statement config s =
     (case checked_rpc (rpc_ExecuteStatement rpc session_handle statement config s) of
        (st, None, s') \<Rightarrow> (st, op, s')
      | (st, Some h, s') \<Rightarrow>
          (st, op\<lparr>op_handle := h, op_session_handle := session_handle, op_open := True\<rparr>, s'))"

definition ExecuteStatement :: "'s rpc_client \<Rightarrow> Session \<Rightarrow> string \<Rightarrow> HS2ClientConfig \<Rightarrow> 's \<Rightarrow>
    Status \<times> Operation \<times> 's" where
  "ExecuteStatement rpc sn statement conf_overlay s =
     ExecuteStatementOperation_Open rpc new_Operation (sess_handle sn) statement conf_overlay s"

section \<open>Service\<close>

text \<open>\<open>has_transport\<close> says that \<^verbatim>\<open>Open\<close> has created the transport and the client.\<close>

record Service =
  service_host :: string
  service_port :: int
  conn_timeout :: int
  protocol_version :: int
  has_transport :: bool

definition new_Service :: "string \<Rightarrow> int \<Rightarrow> int \<Rightarrow> ProtocolVersion \<Rightarrow> Service" where
  "new_Service host port timeout protocol =
     \<lparr>service_host = host, service_port = port, conn_timeout = timeout,
      protocol_version = ProtocolVersionToTProtocolVersion protocol, has_transport = False\<rparr>"

definition IsConnected :: "'s rpc_client \<Rightarrow> Service \<Rightarrow> 's \<Rightarrow> bool" where
  "IsConnected rpc sv s = (has_transport sv \<and> transport_isOpen rpc s)"

definition Service_Open :: "'s rpc_client \<Rightarrow> Service \<Rightarrow> 's \<Rightarrow> Status \<times> Service \<times> 's" where
  "Service_Open rpc sv s =
     (if protocol_version sv < HIVE_CLI_SERVICE_PROTOCOL_V6
      then (Status_Error (''Unsupported protocol: '' @ str_of_int (protocol_version sv)), sv, s)
      else let sv' = sv\<lparr>has_transport := True\<rparr> in
           case transport_open rpc (service_host sv) (service_port sv) (conn_timeout sv) s of
             (Inl what, s') \<Rightarrow> (Status_Error what, sv', s')
           | (Inr _, s') \<Rightarrow> (Status_OK [], sv', s'))"

definition Connect :: "'s rpc_client \<Rightarrow> string \<Rightarrow> int \<Rightarrow> int \<Rightarrow> ProtocolVersion \<Rightarrow> 's \<Rightarrow>
    Status \<times> Service \<times> 's" where
  "Connect rpc host port timeout protocol s =
     Service_Open rpc (new_Service host port timeout protocol) s"

definition Service_Close :: "'s rpc_client \<Rightarrow> Service \<Rightarrow> 's \<Rightarrow> Status \<times> 's" where
  "Service_Close rpc sv s =
     (if \<not> IsConnected rpc sv s then (Status_OK [], s)
      else case transport_close rpc s of
             (Inl what, s') \<Rightarrow> (Status_Error what, s')
           | (Inr _, s') \<Rightarrow> (Status_OK [], s'))"

text \<open>A service whose \<^verbatim>\<open>Open\<close> was refused has no client: calling it is undefined.\<close>

definition OpenSession :: "'s rpc_client \<Rightarrow> Service \<Rightarrow> string \<Rightarrow> HS2ClientConfig \<Rightarrow> 's \<Rightarrow>
    (Status \<times> Session \<times> 's) option" where
  "OpenSession rpc sv user config s =
     (if has_transport sv then Some (Session_Open rpc new_Session config user s) else None)"

text \<open>The timeouts are passed to the socket, which is a parameter; before \<^verbatim>\<open>Open\<close> there is no socket.\<close>

definition SetRecvTimeout :: "(int \<Rightarrow> 's \<Rightarrow> 's) \<Rightarrow> Service \<Rightarrow> int \<Rightarrow> 's \<Rightarrow> 's option" where
  "SetRecvTimeout socket_setRecvTimeout sv timeout s =
     (if has_transport sv then Some (socket_setRecvTimeout timeout s) else None)"

definition SetSendTimeout :: "(int \<Rightarrow> 's \<Rightarrow> 's) \<Rightarrow> Service \<Rightarrow> int \<Rightarrow> 's \<Rightarrow> 's option" where
  "SetSendTimeout socket_setSendTimeout sv timeout s =
     (if has_transport sv then Some (socket_setSendTimeout timeout s) else None)"

section \<open>Objects that can be closed\<close>

text \<open>The contract of \<^verbatim>\<open>Close\<close> in the headers: it may be called on an object that is closed or
  was never opened, and fails only when the object is open and the remote call fails.\<close>

locale closable =
  fixes opened :: "'o \<Rightarrow> bool"
    and close :: "'o \<Rightarrow> 's \<Rightarrow> Status \<times> 'o \<times> 's"
  assumes close_closed: "\<not> opened ob \<Longrightarrow> close ob s = (Status_OK [], ob, s)"
    and close_ok: "close ob s = (st, ob', s') \<Longrightarrow> Status_ok st \<Longrightarrow> \<not> opened ob'"
    and close_failed: "close ob s = (st, ob', s') \<Longrightarrow> \<not> Status_ok st \<Longrightarrow> ob' = ob"
begin

lemma close_not_ok_opened: "close ob s = (st, ob', s') \<Longrightarrow> \<not> Status_ok st \<Longrightarrow> opened ob"
  using close_closed by fastforce

lemma close_result:
  "case close ob s of (st, ob', s') \<Rightarrow> if Status_ok st then \<not> opened ob' else opened ob \<and> ob' = ob"
  using close_ok close_failed close_not_ok_opened by (auto split: prod.splits)

lemma close_again:
  "close ob s = (st, ob', s') \<Longrightarrow> Status_ok st \<Longrightarrow> close ob' t = (Status_OK [], ob', t)"
  using close_closed close_ok by blast

text \<open>\<open>n\<close> further calls after a successful one change nothing.\<close>

fun close_times :: "nat \<Rightarrow> 'o \<Rightarrow> 's \<Rightarrow> 'o \<times> 's" where
  "close_times 0 ob s = (ob, s)"
| "close_times (Suc n) ob s = (case close ob s of (st, ob', s') \<Rightarrow> close_times n ob' s')"

lemma close_times_closed: "\<not> opened ob \<Longrightarrow> close_times n ob s = (ob, s)"
  by (induction n) (auto simp: close_closed)

lemma close_idempotent:
  "close ob s = (st, ob', s') \<Longrightarrow> Status_ok st \<Longrightarrow> close_times (Suc n) ob s = (ob', s')"
  using close_ok close_times_closed by auto

end

interpretation operation: closable op_open "Operation_Close rpc" for rpc :: "'s rpc_client"
proof
  fix ob ob' :: Operation and s s' :: 's and st
  show "\<not> op_open ob \<Longrightarrow> Operation_Close rpc ob s = (Status_OK [], ob, s)"
    by (simp add: Operation_Close_def)
  assume *: "Operation_Close rpc ob s = (st, ob', s')"
  then show "Status_ok st \<Longrightarrow> \<not> op_open ob'" "\<not> Status_ok st \<Longrightarrow> ob' = ob"
    by (auto simp: Operation_Close_def dest: checked_rpc_out split: if_splits prod.splits option.splits)
qed

interpretation session: closable sess_open "Session_Close rpc" for rpc :: "'s rpc_client"
proof
  fix ob ob' :: Session and s s' :: 's and st
  show "\<not> sess_open ob \<Longrightarrow> Session_Close rpc ob s = (Status_OK [], ob, s)"
    by (simp add: Session_Close_def)
  assume *: "Session_Close rpc ob s = (st, ob', s')"
  then show "Status_ok st \<Longrightarrow> \<not> sess_open ob'" "\<not> Status_ok st \<Longrightarrow> ob' = ob"
    by (auto simp: Session_Close_def dest: checked_rpc_out split: if_splits prod.splits option.splits)
qed

end
