(* ===== verification/Hs2_Ext.thy ===== *)
theory Hs2_Ext
  imports Hs2_Client Complex_Main
begin

text \<open>
  The Python extension \<^verbatim>\<open>python/hs2client/ext.pyx\<close> and \<^verbatim>\<open>python/hs2client/__init__.py\<close>.

  A call of a Python method ends in an \<open>outcome\<close>: a value, an exception, or \<open>Undefined\<close> when the
  C++ side has no defined behaviour (a null pointer is followed, a buffer is left). The state
  \<open>'s\<close> of the other side is threaded through. \<^verbatim>\<open>time.sleep\<close> lets time pass there: it is a
  parameter, like \<^verbatim>\<open>pandas.to_datetime\<close> and \<^verbatim>\<open>Decimal\<close> (which may be the third-party
  \<^verbatim>\<open>cdecimal\<close>). Seconds are rational numbers. A loop that may not end is a partial function whose
  value \<open>None\<close> means that it does not return.
\<close>

section \<open>Outcomes\<close>

datatype 'a outcome = Return 'a | Raise py_exc | Undefined

fun bind_outcome :: "'a outcome \<Rightarrow> ('a \<Rightarrow> 'b outcome) \<Rightarrow> 'b outcome" where
  "bind_outcome (Return x) f = f x"
| "bind_outcome (Raise e) f = Raise e"
| "bind_outcome Undefined f = Undefined"

fun of_sum :: "py_exc + 'a \<Rightarrow> 'a outcome" where
  "of_sum (Inl e) = Raise e"
| "of_sum (Inr x) = Return x"

text \<open>Concatenation of two strings of the same type, as \<^verbatim>\<open>format\<close> does it.\<close>

fun py_cat :: "py_obj \<Rightarrow> py_obj \<Rightarrow> py_obj" where
  "py_cat (PBytes a) (PBytes b) = PBytes (a @ b)"
| "py_cat (PText a) (PText b) = PText (a @ b)"
| "py_cat a b = a"

text \<open>What Cython does to pass a Python object as a C++ string or a C \<^verbatim>\<open>int\<close>.\<close>

definition cpp_string :: "py_obj \<Rightarrow> bytes outcome" where
  "cpp_string ob = (case ob of PBytes b \<Rightarrow> Return b | _ \<Rightarrow> Raise TypeError)"

definition c_int :: "py_obj \<Rightarrow> int outcome" where
  "c_int ob =
     (case ob of
        PInt i \<Rightarrow> if - (2 ^ 31) \<le> i \<and> i < 2 ^ 31 then Return i else Raise OverflowError
      | PBool b \<Rightarrow> Return (if b then 1 else 0)
      | _ \<Rightarrow> Raise TypeError)"

definition check_status :: "bool \<Rightarrow> Status \<Rightarrow> unit outcome" where
  "check_status py2 st =
     (if Status_ok st then Return ()
      else bind_outcome (of_sum (frombytes py2 (PBytes (status_msg st))))
             (\<lambda>c_message. Raise (NativeException (py_cat (py_str py2 ''C++ error: '') c_message))))"

section \<open>Service\<close>

record PyService =
  py_service :: "Service option"
  py_user :: bytes

definition py_upper :: "pytext \<Rightarrow> pytext" where
  "py_upper t = map (\<lambda>c. if 97 \<le> c \<and> c \<le> 122 then c - 32 else c) t"

definition parse_protocol :: "bool \<Rightarrow> bytes \<Rightarrow> ProtocolVersion outcome" where
  "parse_protocol py2 protocol =
     (let p = map char_of (py_upper (text_of protocol)) in
      if p = ''V7'' then Return Protocol_V7
      else if p = ''V6'' then Return Protocol_V6
      else Raise (NotImplementedError (py_str py2 p)))"

definition Service_cinit :: "bool \<Rightarrow> 's rpc_client \<Rightarrow> py_obj \<Rightarrow> py_obj \<Rightarrow> py_obj \<Rightarrow> bytes \<Rightarrow> py_obj \<Rightarrow> 's \<Rightarrow>
    PyService outcome \<times> 's" where
  "Service_cinit py2 rpc host port user protocol timeout_ms s =
     (case bind_outcome (parse_protocol py2 protocol) (\<lambda>proto_version.
           bind_outcome (bind_outcome (of_sum (tobytes py2 host)) cpp_string) (\<lambda>c_host.
           bind_outcome (c_int port) (\<lambda>c_port.
           bind_outcome (bind_outcome (of_sum (tobytes py2 user)) cpp_string) (\<lambda>c_user.
           bind_outcome (c_int timeout_ms) (\<lambda>c_timeout.
             Return (proto_version, c_host, c_port, c_user, c_timeout)))))) of
        Raise e \<Rightarrow> (Raise e, s)
      | Undefined \<Rightarrow> (Undefined, s)
      | Return (proto_version, c_host, c_port, c_user, c_timeout) \<Rightarrow>
          (case Connect rpc c_host c_port c_timeout proto_version s of
             (st, sv, s') \<Rightarrow>
               (bind_outcome (check_status py2 st)
                  (\<lambda>_. Return \<lparr>py_service = Some sv, py_user = c_user\<rparr>), s')))"

definition PyService_close :: "bool \<Rightarrow> 's rpc_client \<Rightarrow> PyService \<Rightarrow> 's \<Rightarrow> unit outcome \<times> 's" where
  "PyService_close py2 rpc self s =
     (case py_service self of
        None \<Rightarrow> (Return (), s)
      | Some sp \<Rightarrow> (case Service_Close rpc sp s of (st, s') \<Rightarrow> (check_status py2 st, s')))"

definition is_connected :: "'s rpc_client \<Rightarrow> PyService \<Rightarrow> 's \<Rightarrow> bool outcome" where
  "is_connected rpc self s =
     (case py_service self of None \<Rightarrow> Undefined | Some sp \<Rightarrow> Return (IsConnected rpc sp s))"

section \<open>Session\<close>

record PySession =
  py_session :: "Session option"

definition Session_cinit :: PySession where
  "Session_cinit = \<lparr>py_session = None\<rparr>"

definition open_session :: "bool \<Rightarrow> 's rpc_client \<Rightarrow> PyService \<Rightarrow> 's \<Rightarrow> PySession outcome \<times> 's" where
  "open_session py2 rpc self s =
     (case py_service self of
        None \<Rightarrow> (Undefined, s)
      | Some sp \<Rightarrow>
          (case OpenSession rpc sp (py_user self) [] s of
             None \<Rightarrow> (Undefined, s)
           | Some (st, sn, s') \<Rightarrow>
               (bind_outcome (check_status py2 st)
                  (\<lambda>_. Return (Session_cinit\<lparr>py_session := Some sn\<rparr>)), s')))"

definition close_session :: "bool \<Rightarrow> 's rpc_client \<Rightarrow> PySession \<Rightarrow> 's \<Rightarrow> unit outcome \<times> PySession \<times> 's" where
  "close_session py2 rpc self s =
     (case py_session self of
        None \<Rightarrow> (Return (), self, s)
      | Some sp \<Rightarrow>
          (case Session_Close rpc sp s of
             (st, sp', s') \<Rightarrow> (check_status py2 st, self\<lparr>py_session := Some sp'\<rparr>, s')))"

record PyOperation =
  py_op :: "Operation option"
  cached_metadata :: "ColumnDesc list option"

definition Operation_cinit :: PyOperation where
  "Operation_cinit = \<lparr>py_op = None, cached_metadata = None\<rparr>"

definition execute :: "bool \<Rightarrow> 's rpc_client \<Rightarrow> PySession \<Rightarrow> py_obj \<Rightarrow> 's \<Rightarrow> PyOperation outcome \<times> 's" where
  "execute py2 rpc self statement s =
     (case bind_outcome (of_sum (tobytes py2 statement)) cpp_string of
        Raise e \<Rightarrow> (Raise e, s)
      | Undefined \<Rightarrow> (Undefined, s)
      | Return c_statement \<Rightarrow>
          (case py_session self of
             None \<Rightarrow> (Undefined, s)
           | Some sp \<Rightarrow>
               (case ExecuteStatement rpc sp c_statement [] s of
                  (st, op, s') \<Rightarrow>
                    (bind_outcome (check_status py2 st)
                       (\<lambda>_. Return (Operation_cinit\<lparr>py_op := Some op\<rparr>)), s'))))"

section \<open>Operation\<close>

definition operation_state_to_string :: "OperationState \<Rightarrow> string" where
  "operation_state_to_string st =
     (if st = INITIALIZED then ''initialized''
      else if st = RUNNING then ''running''
      else if st = FINISHED then ''finished''
      else if st = CANCELED then ''canceled''
      else if st = CLOSED then ''closed''
      else if st = ERROR then ''error''
      else if st = PENDING then ''pending''
      else ''unknown'')"

definition DEFAULT_BATCHSIZE :: int where
  "DEFAULT_BATCHSIZE = 2 ^ 10"

definition PyOperation_cancel :: "bool \<Rightarrow> 's rpc_client \<Rightarrow> PyOperation \<Rightarrow> 's \<Rightarrow> unit outcome \<times> 's" where
  "PyOperation_cancel py2 rpc self s =
     (case py_op self of
        None \<Rightarrow> (Undefined, s)
      | Some op \<Rightarrow> (case Cancel rpc op s of (st, s') \<Rightarrow> (check_status py2 st, s')))"

definition close_operation :: "bool \<Rightarrow> 's rpc_client \<Rightarrow> PyOperation \<Rightarrow> 's \<Rightarrow>
    unit outcome \<times> PyOperation \<times> 's" where
  "close_operation py2 rpc self s =
     (case py_op self of
        None \<Rightarrow> (Return (), self, s)
      | Some op \<Rightarrow>
          (case Operation_Close rpc op s of
             (st, op', s') \<Rightarrow> (check_status py2 st, self\<lparr>py_op := Some op'\<rparr>, s')))"

text \<open>\<open>close\<close>, and what garbage collection calls.\<close>

definition PyOperation_close :: "bool \<Rightarrow> 's rpc_client \<Rightarrow> PyOperation \<Rightarrow> 's \<Rightarrow>
    unit outcome \<times> PyOperation \<times> 's" where
  "PyOperation_close = close_operation"

text \<open>A call of the C++ side whose output parameter is read after \<^verbatim>\<open>check_status\<close>.\<close>

definition checked_out :: "bool \<Rightarrow> (Status \<times> 'r option \<times> 's) \<Rightarrow> ('r \<Rightarrow> 'b outcome) \<Rightarrow> 'b outcome \<times> 's" where
  "checked_out py2 r f =
     (case r of (st, out, s') \<Rightarrow>
        (bind_outcome (check_status py2 st)
           (\<lambda>_. case out of None \<Rightarrow> Undefined | Some x \<Rightarrow> f x), s'))"

definition get_state :: "bool \<Rightarrow> 's rpc_client \<Rightarrow> PyOperation \<Rightarrow> 's \<Rightarrow> py_obj outcome \<times> 's" where
  "get_state py2 rpc self s =
     (case py_op self of
        None \<Rightarrow> (Undefined, s)
      | Some op \<Rightarrow>
          checked_out py2 (GetState rpc op s) (\<lambda>st. Return (py_str py2 (operation_state_to_string st))))"

definition get_log :: "bool \<Rightarrow> 's rpc_client \<Rightarrow> PyOperation \<Rightarrow> 's \<Rightarrow> py_obj outcome \<times> 's" where
  "get_log py2 rpc self s =
     (case py_op self of
        None \<Rightarrow> (Undefined, s)
      | Some op \<Rightarrow> checked_out py2 (GetLog rpc op s) (\<lambda>log. of_sum (frombytes py2 (PBytes log))))"

definition get_profile :: "bool \<Rightarrow> 's rpc_client \<Rightarrow> PyOperation \<Rightarrow> 's \<Rightarrow> py_obj outcome \<times> 's" where
  "get_profile py2 rpc self s =
     (case py_op self of
        None \<Rightarrow> (Undefined, s)
      | Some op \<Rightarrow>
          checked_out py2 (GetProfile rpc op s) (\<lambda>profile. of_sum (frombytes py2 (PBytes profile))))"

definition is_finished :: "'s rpc_client \<Rightarrow> PyOperation \<Rightarrow> 's \<Rightarrow> bool outcome \<times> 's" where
  "is_finished rpc self s =
     (case py_op self of
        None \<Rightarrow> (Undefined, s)
      | Some op \<Rightarrow> (case HasResultSet rpc op s of (b, s') \<Rightarrow> (Return b, s')))"

definition schema :: "bool \<Rightarrow> 's rpc_client \<Rightarrow> PyOperation \<Rightarrow> 's \<Rightarrow>
    ColumnDesc list outcome \<times> PyOperation \<times> 's" where
  "schema py2 rpc self s =
     (case cached_metadata self of
        Some metadata \<Rightarrow> (Return metadata, self, s)
      | None \<Rightarrow>
          (case py_op self of
             None \<Rightarrow> (Undefined, self, s)
           | Some op \<Rightarrow>
               (case checked_out py2 (GetResultSetMetadata rpc op s) Return of
                  (Return metadata, s') \<Rightarrow> (Return metadata, self\<lparr>cached_metadata := Some metadata\<rparr>, s')
                | (r, s') \<Rightarrow> (r, self, s'))))"

section \<open>Waiting\<close>

partial_function (option) wait_loop :: "bool \<Rightarrow> 's rpc_client \<Rightarrow> (rat \<Rightarrow> 's \<Rightarrow> 's) \<Rightarrow> PyOperation \<Rightarrow> rat \<Rightarrow>
    rat \<Rightarrow> rat \<Rightarrow> 's \<Rightarrow> (unit outcome \<times> 's) option" where
  "wait_loop py2 rpc sleep self timeout_seconds interval total_sleep s =
     (case is_finished rpc self s of
        (Undefined, s1) \<Rightarrow> Some (Undefined, s1)
      | (Raise e, s1) \<Rightarrow> Some (Raise e, s1)
      | (Return finished, s1) \<Rightarrow>
          if finished then Some (Return (), s1)
          else let interval' = interval * 2;
                   s2 = sleep interval' s1;
                   total_sleep' = total_sleep + interval'
               in if 0 < timeout_seconds \<and> timeout_seconds < total_sleep'
                  then Some (Raise (Exception (py_str py2 ''Operation timed out'')), s2)
                  else wait_loop py2 rpc sleep self timeout_seconds interval' total_sleep' s2)"

definition wait :: "bool \<Rightarrow> 's rpc_client \<Rightarrow> (rat \<Rightarrow> 's \<Rightarrow> 's) \<Rightarrow> PyOperation \<Rightarrow> rat \<Rightarrow> 's \<Rightarrow>
    (unit outcome \<times> 's) option" where
  "wait py2 rpc sleep self timeout_seconds s =
     (case is_finished rpc self s of
        (Undefined, s1) \<Rightarrow> Some (Undefined, s1)
      | (Raise e, s1) \<Rightarrow> Some (Raise e, s1)
      | (Return finished, s1) \<Rightarrow>
          if finished then Some (Return (), s1)
          else wait_loop py2 rpc sleep self timeout_seconds (1 / 20) (1 / 20) (sleep (1 / 20) s1))"

definition execute_sync :: "bool \<Rightarrow> 's rpc_client \<Rightarrow> (rat \<Rightarrow> 's \<Rightarrow> 's) \<Rightarrow> PySession \<Rightarrow> py_obj \<Rightarrow> 's \<Rightarrow>
    (PyOperation outcome \<times> 's) option" where
  "execute_sync py2 rpc sleep self statement s =
     (case execute py2 rpc self statement s of
        (Return op, s1) \<Rightarrow>
          (case wait py2 rpc sleep op 0 s1 of
             None \<Rightarrow> None
           | Some (r, s2) \<Rightarrow> Some (bind_outcome r (\<lambda>_. Return op), s2))
      | (r, s1) \<Rightarrow> Some (r, s1))"

section \<open>Fetching\<close>

partial_function (option) fetch_loop :: "bool \<Rightarrow> 's rpc_client \<Rightarrow> PyOperation \<Rightarrow> int \<Rightarrow> row_set list \<Rightarrow> 's \<Rightarrow>
    (row_set list outcome \<times> 's) option" where
  "fetch_loop py2 rpc self c_batchsize batches s =
     (case py_op self of
        None \<Rightarrow> Some (Undefined, s)
      | Some op \<Rightarrow>
          (case checked_out py2 (Fetch rpc op c_batchsize NEXT s) Return of
             (Undefined, s1) \<Rightarrow> Some (Undefined, s1)
           | (Raise e, s1) \<Rightarrow> Some (Raise e, s1)
           | (Return (has_more_rows, row_set), s1) \<Rightarrow>
               if has_more_rows then fetch_loop py2 rpc self c_batchsize (batches @ [row_set]) s1
               else Some (Return (batches @ [row_set]), s1)))"

definition fetchall_internal :: "bool \<Rightarrow> 's rpc_client \<Rightarrow> PyOperation \<Rightarrow> py_obj \<Rightarrow> 's \<Rightarrow>
    (row_set list outcome \<times> 's) option" where
  "fetchall_internal py2 rpc self batchsize s =
     (case (if batchsize \<noteq> PNone then c_int batchsize else Return DEFAULT_BATCHSIZE) of
        Return c_batchsize \<Rightarrow> fetch_loop py2 rpc self c_batchsize [] s
      | Raise e \<Rightarrow> Some (Raise e, s)
      | Undefined \<Rightarrow> Some (Undefined, s))"

section \<open>Schema and descriptors\<close>

definition schema_column :: "bool \<Rightarrow> ColumnDesc list \<Rightarrow> int \<Rightarrow> ColumnDesc outcome" where
  "schema_column py2 columns i =
     (if i < 0 \<or> int (length columns) \<le> i
      then Raise (IndexError (py_str py2 (''Column index '' @ str_of_int i @ '' is out of bounds'')))
      else Return (columns ! nat i))"

datatype PyColumnType =
    PyPrimitiveType ColumnType
  | PyCharacterType ColumnType "TypeId \<times> int"
  | PyDecimalType ColumnType "TypeId \<times> int \<times> int"

definition ColumnDesc_type :: "ColumnDesc \<Rightarrow> PyColumnType outcome" where
  "ColumnDesc_type desc =
     (let type_ptr = column_type desc in
      if type_id type_ptr = ColumnType_DECIMAL then
        (case GetDecimalType desc of
           None \<Rightarrow> Undefined
         | Some subtype \<Rightarrow> Return (PyDecimalType type_ptr subtype))
      else if type_id type_ptr = ColumnType_CHAR \<or> type_id type_ptr = ColumnType_VARCHAR then
        (case GetCharacterType desc of
           None \<Rightarrow> Undefined
         | Some subtype \<Rightarrow> Return (PyCharacterType type_ptr subtype))
      else Return (PyPrimitiveType type_ptr))"

fun base :: "PyColumnType \<Rightarrow> ColumnType" where
  "base (PyPrimitiveType b) = b"
| "base (PyCharacterType b sub) = b"
| "base (PyDecimalType b sub) = b"

definition type_name :: "PyColumnType \<Rightarrow> string" where
  "type_name t = ColumnType_ToString (base t)"

fun short_repr :: "PyColumnType \<Rightarrow> string" where
  "short_repr (PyPrimitiveType b) = type_name (PyPrimitiveType b)"
| "short_repr (PyCharacterType b (t, max_length)) =
     type_name (PyCharacterType b (t, max_length)) @ ''('' @ str_of_int max_length @ '')''"
| "short_repr (PyDecimalType b (t, precision, scale)) =
     type_name (PyDecimalType b (t, precision, scale)) @ ''('' @ str_of_int precision @ '', '' @
       str_of_int scale @ '')''"

definition desc_name :: "bool \<Rightarrow> ColumnDesc \<Rightarrow> py_obj outcome" where
  "desc_name py2 desc = of_sum (frombytes py2 (PBytes (column_name desc)))"

definition desc_position :: "ColumnDesc \<Rightarrow> int" where
  "desc_position desc = position desc"

definition desc_comment :: "bool \<Rightarrow> ColumnDesc \<Rightarrow> py_obj outcome" where
  "desc_comment py2 desc =
     (if column_comment desc = [] then Return PNone
      else of_sum (frombytes py2 (PBytes (column_comment desc))))"

definition ColumnDesc_repr :: "bool \<Rightarrow> ColumnDesc \<Rightarrow> py_obj outcome" where
  "ColumnDesc_repr py2 desc =
     bind_outcome (desc_name py2 desc) (\<lambda>name.
     bind_outcome (ColumnDesc_type desc) (\<lambda>t.
       Return (py_cat (py_str py2 ''HS2Column(name='')
         (py_cat name (py_str py2 ('', type='' @ [squote] @ short_repr t @ [squote] @ '')''))))))"

section \<open>Data frames\<close>

text \<open>A column of the frame: an array, or what \<^verbatim>\<open>pandas.to_datetime\<close> made of one.\<close>

datatype 'd series = Array ndarray | Datetimes 'd

record 'd pandas =
  to_datetime :: "ndarray \<Rightarrow> py_exc + 'd"
  Decimal :: "py_obj \<Rightarrow> py_exc + py_obj"

fun decimal_loop :: "(py_obj \<Rightarrow> py_exc + py_obj) \<Rightarrow> py_ref list \<Rightarrow> py_ref list outcome" where
  "decimal_loop decimal [] = Return []"
| "decimal_loop decimal (r # rs) =
     (if ref_value r = PNone then bind_outcome (decimal_loop decimal rs) (\<lambda>rs'. Return (r # rs'))
      else bind_outcome (of_sum (decimal (ref_value r))) (\<lambda>d.
           bind_outcome (decimal_loop decimal rs) (\<lambda>rs'. Return (Ref d # rs'))))"

definition convert_decimals :: "(py_obj \<Rightarrow> py_exc + py_obj) \<Rightarrow> ndarray \<Rightarrow> ndarray outcome" where
  "convert_decimals decimal arr =
     (case arr of
        NPY_OBJECT rs \<Rightarrow> bind_outcome (decimal_loop decimal rs) (\<lambda>rs'. Return (NPY_OBJECT rs'))
      | _ \<Rightarrow> Raise ValueError)"

definition convert_column :: "bool \<Rightarrow> 'd pandas \<Rightarrow> row_set list \<Rightarrow> nat \<Rightarrow> ColumnType \<Rightarrow> 'd series outcome" where
  "convert_column py2 pd batches i col_type =
     (case ConvertColumnPandas py2 batches i col_type of
        None \<Rightarrow> Undefined
      | Some r \<Rightarrow>
          bind_outcome (of_sum r) (\<lambda>result.
            if type_id col_type = ColumnType_TIMESTAMP then
              bind_outcome (of_sum (to_datetime pd result)) (\<lambda>d. Return (Datetimes d))
            else if type_id col_type = ColumnType_DECIMAL then
              bind_outcome (convert_decimals (Decimal pd) result) (\<lambda>a. Return (Array a))
            else Return (Array result)))"

text \<open>The loop over the columns; the result is the two arguments of \<^verbatim>\<open>pandas.DataFrame\<close>: the
  dictionary of the converted columns and the list of the names.\<close>

fun frame_loop :: "bool \<Rightarrow> 'd pandas \<Rightarrow> row_set list \<Rightarrow> ColumnDesc list \<Rightarrow> nat list \<Rightarrow>
    py_obj list \<Rightarrow> (py_obj \<rightharpoonup> 'd series) \<Rightarrow> (py_obj list \<times> (py_obj \<rightharpoonup> 'd series)) outcome" where
  "frame_loop py2 pd batches columns [] column_names converted_columns =
     Return (column_names, converted_columns)"
| "frame_loop py2 pd batches columns (i # is) column_names converted_columns =
     bind_outcome (bind_outcome (schema_column py2 columns (int i)) (desc_name py2)) (\<lambda>col_name.
     bind_outcome (convert_column py2 pd batches i (column_type (columns ! i))) (\<lambda>result.
       frame_loop py2 pd batches columns is (column_names @ [col_name])
         (converted_columns(col_name \<mapsto> result))))"

definition fetchall_pandas :: "bool \<Rightarrow> 's rpc_client \<Rightarrow> 'd pandas \<Rightarrow> PyOperation \<Rightarrow> py_obj \<Rightarrow> 's \<Rightarrow>
    ((py_obj list \<times> (py_obj \<rightharpoonup> 'd series)) outcome \<times> PyOperation \<times> 's) option" where
  "fetchall_pandas py2 rpc pd self batchsize s =
     (case fetchall_internal py2 rpc self batchsize s of
        None \<Rightarrow> None
      | Some (Raise e, s1) \<Rightarrow> Some (Raise e, self, s1)
      | Some (Undefined, s1) \<Rightarrow> Some (Undefined, self, s1)
      | Some (Return batches, s1) \<Rightarrow>
          (case schema py2 rpc self s1 of
             (Return columns, self', s2) \<Rightarrow>
               Some (frame_loop py2 pd batches columns [0..<length columns] [] Map.empty, self', s2)
           | (Raise e, self', s2) \<Rightarrow> Some (Raise e, self', s2)
           | (Undefined, self', s2) \<Rightarrow> Some (Undefined, self', s2)))"

section \<open>Connecting\<close>

definition connect :: "bool \<Rightarrow> 's rpc_client \<Rightarrow> py_obj \<Rightarrow> py_obj \<Rightarrow> py_obj \<Rightarrow> py_obj \<Rightarrow> bytes \<Rightarrow> 's \<Rightarrow>
    PyService outcome \<times> 's" where
  "connect py2 rpc environ_USER host port user protocol s =
     Service_cinit py2 rpc host port (if user = PNone then environ_USER else user) protocol (PInt 0) s"

section \<open>How long a wait lasts\<close>

text \<open>The state of the other side at the \<open>k\<close>-th check of \<^verbatim>\<open>is_finished\<close>: each check is a remote
  call, and between two checks the process sleeps twice as long as before.\<close>

fun poll :: "'s rpc_client \<Rightarrow> (rat \<Rightarrow> 's \<Rightarrow> 's) \<Rightarrow> Operation \<Rightarrow> 's \<Rightarrow> nat \<Rightarrow> 's" where
  "poll rpc sleep op s 0 = s"
| "poll rpc sleep op s (Suc k) = sleep (2 ^ k / 20) (snd (HasResultSet rpc op (poll rpc sleep op s k)))"

definition finished_at :: "'s rpc_client \<Rightarrow> (rat \<Rightarrow> 's \<Rightarrow> 's) \<Rightarrow> Operation \<Rightarrow> 's \<Rightarrow> nat \<Rightarrow> bool" where
  "finished_at rpc sleep op s k = fst (HasResultSet rpc op (poll rpc sleep op s k))"

text \<open>Seconds slept before check \<open>k\<close>, and whether the time limit still allows that check. The first
  two checks are made whatever the limit.\<close>

definition slept :: "nat \<Rightarrow> rat" where
  "slept k = (2 ^ k - 1) / 20"

definition in_time :: "rat \<Rightarrow> nat \<Rightarrow> bool" where
  "in_time timeout k = (k \<le> 1 \<or> timeout \<le> 0 \<or> slept k \<le> timeout)"

text \<open>The loop at its \<open>k\<close>-th check.\<close>

definition wait_at :: "bool \<Rightarrow> 's rpc_client \<Rightarrow> (rat \<Rightarrow> 's \<Rightarrow> 's) \<Rightarrow> PyOperation \<Rightarrow> Operation \<Rightarrow> rat \<Rightarrow> 's \<Rightarrow> nat \<Rightarrow>
    (unit outcome \<times> 's) option" where
  "wait_at py2 rpc sleep self op timeout s k =
     wait_loop py2 rpc sleep self timeout (2 ^ k / 20) (slept (Suc k)) (poll rpc sleep op s (Suc k))"

lemma is_finished_poll:
  "py_op self = Some op \<Longrightarrow> is_finished rpc self (poll rpc sleep op s k) =
     (Return (finished_at rpc sleep op s k), snd (HasResultSet rpc op (poll rpc sleep op s k)))"
  by (simp add: is_finished_def finished_at_def split: prod.split)

lemma slept_Suc: "slept (Suc k) = slept k + 2 ^ k / 20"
  by (simp add: slept_def field_simps)

lemma wait_at_step:
  assumes "py_op self = Some op"
  shows "wait_at py2 rpc sleep self op timeout s k =
    (if finished_at rpc sleep op s (Suc k)
     then Some (Return (), snd (HasResultSet rpc op (poll rpc sleep op s (Suc k))))
     else if \<not> in_time timeout (Suc (Suc k))
     then Some (Raise (Exception (py_str py2 ''Operation timed out'')), poll rpc sleep op s (Suc (Suc k)))
     else wait_at py2 rpc sleep self op timeout s (Suc k))"
  unfolding wait_at_def
  by (subst wait_loop.simps, subst is_finished_poll [OF assms])
    (auto simp: in_time_def slept_Suc [of "Suc k"] Let_def mult.commute not_le not_less)

lemma wait_start:
  assumes "py_op self = Some op"
  shows "wait py2 rpc sleep self timeout s =
    (if finished_at rpc sleep op s 0 then Some (Return (), snd (HasResultSet rpc op s))
     else wait_at py2 rpc sleep self op timeout s 0)"
  using is_finished_poll [OF assms, of rpc sleep s 0]
  by (simp add: wait_def wait_at_def slept_def)

lemma slept_mono: "j \<le> k \<Longrightarrow> slept j \<le> slept k"
  by (simp add: slept_def divide_right_mono)

lemma in_time_antimono: "in_time timeout k \<Longrightarrow> j \<le> k \<Longrightarrow> in_time timeout j"
  using slept_mono [of j k] by (auto simp: in_time_def)

lemma wait_at_finishes:
  assumes "py_op self = Some op" "finished_at rpc sleep op s (Suc (k + d))" "in_time timeout (Suc (k + d))"
  shows "\<exists>s'. wait_at py2 rpc sleep self op timeout s k = Some (Return (), s')"
  using assms(2,3)
proof (induction d arbitrary: k)
  case 0
  then show ?case by (simp add: wait_at_step [OF assms(1)])
next
  case (Suc d)
  then have "in_time timeout (Suc (Suc k))" by (auto intro: in_time_antimono)
  with Suc show ?case by (simp add: wait_at_step [OF assms(1), of py2 rpc sleep timeout s k])
qed

lemma wait_at_times_out:
  assumes "py_op self = Some op" "\<not> in_time timeout (Suc (Suc (k + d)))"
  shows "\<exists>r. wait_at py2 rpc sleep self op timeout s k = Some r"
  using assms(2)
proof (induction d arbitrary: k)
  case (Suc d)
  then show ?case by (simp add: wait_at_step [OF assms(1), of py2 rpc sleep timeout s k])
qed (simp add: wait_at_step [OF assms(1)])

lemma time_runs_out: "0 < timeout \<Longrightarrow> \<exists>k. \<not> in_time timeout (Suc (Suc k))"
proof -
  assume pos: "0 < timeout"
  obtain n where n: "20 * timeout + 1 < of_nat n" using reals_Archimedean2 by blast
  have "(of_nat n :: rat) < 2 ^ n" by (metis of_nat_less_two_power)
  also have "(2 :: rat) ^ n \<le> 2 ^ Suc (Suc n)" by simp
  finally have "timeout < slept (Suc (Suc n))" using n by (simp add: slept_def)
  with pos show ?thesis by (auto simp: in_time_def not_le intro: exI [of _ n])
qed

lemma wait_loop_result:
  assumes "wait_loop py2 rpc sleep self timeout interval tot s1 = Some r"
    and "py_op self = Some op" "interval = 2 ^ k / 20" "tot = slept (Suc k)"
    and "s1 = poll rpc sleep op s (Suc k)" "in_time timeout (Suc k)"
  shows "(\<exists>j. finished_at rpc sleep op s j \<and> in_time timeout j \<and> fst r = Return ()) \<or>
    0 < timeout \<and> (\<exists>e. fst r = Raise e)"
  using assms
proof (induction py2 rpc sleep self timeout interval tot s1 r arbitrary: k
    rule: wait_loop.raw_induct [rotated, consumes 1, case_names step])
  case (step wait_loop py2 rpc sleep self timeout interval tot s1 r)
  have fin: "is_finished rpc self s1 =
      (Return (finished_at rpc sleep op s (Suc k)), snd (HasResultSet rpc op s1))"
    using step.prems is_finished_poll [of self op rpc sleep s "Suc k"] by simp
  let ?s2 = "sleep (interval * 2) (snd (HasResultSet rpc op s1))"
  have double: "interval * 2 = 2 ^ Suc k / 20" using step.prems(2) by simp
  have next_poll: "?s2 = poll rpc sleep op s (Suc (Suc k))"
    unfolding double step.prems(4) by simp
  have next_total: "tot + interval * 2 = slept (Suc (Suc k))"
    unfolding double step.prems(3) by (simp add: slept_Suc [of "Suc k"])
  show ?case
  proof (cases "finished_at rpc sleep op s (Suc k)")
    case True
    with step.hyps fin have "fst r = Return ()" by auto
    with True step.prems show ?thesis by blast
  next
    case False
    show ?thesis
    proof (cases "in_time timeout (Suc (Suc k))")
      case True
      with False step.hyps fin next_total
      have "wait_loop py2 rpc sleep self timeout (interval * 2) (tot + interval * 2) ?s2 = Some r"
        by (auto simp: Let_def in_time_def)
      from step.IH [OF this] step.prems(1) double next_poll next_total True show ?thesis by blast
    next
      case t: False
      with False step.hyps fin next_total show ?thesis
        by (auto simp: Let_def in_time_def split: if_splits)
    qed
  qed
qed

text \<open>C4: When \<open>wait\<close> returns. It comes back, in one way or another, exactly when a time limit is
  given or some check finds the operation finished; and it comes back normally exactly when
  some check that the time limit allows, \<open>(2 ^ k - 1) / 20\<close> seconds after the start for check
  \<open>k\<close>, finds it finished. So every operation that finishes ends the wait, and with a time limit
  the wait always ends.\<close>

theorem wait_returns:
  "((\<exists>r. wait py2 rpc sleep \<lparr>py_op = Some op, cached_metadata = m\<rparr> timeout s = Some r) \<longleftrightarrow>
      0 < timeout \<or> (\<exists>k. finished_at rpc sleep op s k)) \<and>
   ((\<exists>s'. wait py2 rpc sleep \<lparr>py_op = Some op, cached_metadata = m\<rparr> timeout s = Some (Return (), s')) \<longleftrightarrow>
      (\<exists>k. finished_at rpc sleep op s k \<and> in_time timeout k))"
proof -
  let ?self = "\<lparr>py_op = Some op, cached_metadata = m\<rparr>"
  let ?wait = "wait py2 rpc sleep ?self timeout s"
  have op: "py_op ?self = Some op" by simp
  have result: "(\<exists>j. finished_at rpc sleep op s j \<and> in_time timeout j \<and> fst r = Return ()) \<or>
      0 < timeout \<and> (\<exists>e. fst r = Raise e)" if "?wait = Some r" for r
  proof (cases "finished_at rpc sleep op s 0")
    case True
    with that show ?thesis by (auto simp: wait_start [OF op] in_time_def)
  next
    case False
    with that have "wait_loop py2 rpc sleep ?self timeout (2 ^ 0 / 20) (slept (Suc 0))
        (poll rpc sleep op s (Suc 0)) = Some r"
      by (simp add: wait_start [OF op] wait_at_def)
    from wait_loop_result [OF this op refl refl refl] show ?thesis by (simp add: in_time_def)
  qed
  have normal: "\<exists>s'. ?wait = Some (Return (), s')"
    if "finished_at rpc sleep op s k" "in_time timeout k" for k
  proof (cases k)
    case 0
    with that show ?thesis by (simp add: wait_start [OF op])
  next
    case (Suc d)
    with that wait_at_finishes [OF op, of rpc sleep s 0 d timeout] show ?thesis
      by (simp add: wait_start [OF op])
  qed
  have limited: "\<exists>r. ?wait = Some r" if "0 < timeout"
  proof -
    obtain k where "\<not> in_time timeout (Suc (Suc (0 + k)))" using time_runs_out [OF \<open>0 < timeout\<close>] by auto
    from wait_at_times_out [OF op this, of py2 rpc sleep s] show ?thesis by (simp add: wait_start [OF op])
  qed
  have "(\<exists>r. ?wait = Some r) \<longleftrightarrow> 0 < timeout \<or> (\<exists>k. finished_at rpc sleep op s k)"
    using result normal limited by (metis in_time_def not_le)
  moreover have "(\<exists>s'. ?wait = Some (Return (), s')) \<longleftrightarrow>
      (\<exists>k. finished_at rpc sleep op s k \<and> in_time timeout k)"
    using result normal by fastforce
  ultimately show ?thesis by blast
qed

text \<open>Without a time limit, which is the default and what \<^verbatim>\<open>execute_sync\<close> passes, an operation
  that has failed is waited for forever: the loop only looks for the state FINISHED.\<close>

lemma failed_never_finished:
  assumes "\<And>s. \<exists>ts s'. rpc_GetOperationStatus rpc (op_handle op) s = (Inr (ts, 5), s')"
  shows "\<not> finished_at rpc sleep op s k"
proof -
  obtain ts s' where "rpc_GetOperationStatus rpc (op_handle op) (poll rpc sleep op s k) = (Inr (ts, 5), s')"
    using assms by blast
  then show ?thesis
    by (auto simp: finished_at_def HasResultSet_def GetState_def checked_rpc_def
        TOperationStateToOperationState_def split: if_splits)
qed

lemma wait_failed_operation:
  assumes "\<And>s. \<exists>ts s'. rpc_GetOperationStatus rpc (op_handle op) s = (Inr (ts, 5), s')" "timeout \<le> 0"
  shows "wait py2 rpc sleep \<lparr>py_op = Some op, cached_metadata = m\<rparr> timeout s = None"
proof -
  let ?self = "\<lparr>py_op = Some op, cached_metadata = m\<rparr>"
  have never: "\<not> finished_at rpc sleep op s k" for k
    using assms(1) by (rule failed_never_finished)
  have "wait_loop py2 rpc sleep ?self timeout (2 ^ 0 / 20) (slept (Suc 0)) (poll rpc sleep op s (Suc 0)) \<noteq> Some r"
    for r
    using wait_loop_result [of py2 rpc sleep ?self timeout "2 ^ 0 / 20" "slept (Suc 0)" _ r op 0 s]
      never assms(2) by (auto simp: in_time_def)
  then show ?thesis
    using never [of 0] by (simp add: wait_start [of ?self op] wait_at_def not_Some_eq [symmetric] del: not_Some_eq)
qed

section \<open>Fetching refines reading a table\<close>

text \<open>The abstract result set is a table: its columns, each a list of cells, all of one length.\<close>

type_synonym table = "cell option list list"

definition table_rows :: "table \<Rightarrow> nat" where
  "table_rows tab = (case tab of [] \<Rightarrow> 0 | c # cs \<Rightarrow> length c)"

definition rectangular :: "table \<Rightarrow> bool" where
  "rectangular tab = list_all (\<lambda>c. length c = table_rows tab) tab"

text \<open>What the interface promises of \<^verbatim>\<open>FetchResults\<close> with orientation \<^verbatim>\<open>FETCH_NEXT\<close>: the server
  keeps the part of the table that was not fetched yet, \<open>remaining\<close>; a response holds its first
  rows, at least one when more are left, each column in the member of its type with a bitmap
  long enough, and says whether rows are left.\<close>

definition fetch_contract :: "'s rpc_client \<Rightarrow> handle \<Rightarrow> TypeId list \<Rightarrow> ('s \<Rightarrow> table) \<Rightarrow> bool" where
  "fetch_contract rpc h types remaining \<longleftrightarrow>
     (\<forall>s n. 0 < n \<longrightarrow>
        (\<exists>ts more rs s'. rpc_FetchResults rpc h 0 n s = (Inr (ts, more, rs), s') \<and> tstatus_ok ts \<and>
           list_all2 (\<lambda>t c. carried_by t c \<and> tcolumn_bitmap_ok c) types rs \<and>
           length (remaining s') = length types \<and> rectangular (remaining s') \<and>
           remaining s = map2 (@) (map tcolumn_cells rs) (remaining s') \<and>
           more = (table_rows (remaining s') \<noteq> 0) \<and>
           (more \<longrightarrow> table_rows (remaining s') < table_rows (remaining s))))"

lemma fetch_contractD:
  assumes "fetch_contract rpc (op_handle op) types remaining" "0 < n"
  obtains more rs s' where
    "checked_out py2 (Fetch rpc op n NEXT s) Return = (Return (more, rs), s')"
    "list_all2 (\<lambda>t c. carried_by t c \<and> tcolumn_bitmap_ok c) types rs"
    "length (remaining s') = length types" "rectangular (remaining s')"
    "remaining s = map2 (@) (map tcolumn_cells rs) (remaining s')"
    "more = (table_rows (remaining s') \<noteq> 0)"
    "more \<Longrightarrow> table_rows (remaining s') < table_rows (remaining s)"
proof -
  obtain ts more rs s' where call: "rpc_FetchResults rpc (op_handle op) 0 n s = (Inr (ts, more, rs), s')"
    and "tstatus_ok ts"
    and rest: "list_all2 (\<lambda>t c. carried_by t c \<and> tcolumn_bitmap_ok c) types rs"
      "length (remaining s') = length types" "rectangular (remaining s')"
      "remaining s = map2 (@) (map tcolumn_cells rs) (remaining s')"
      "more = (table_rows (remaining s') \<noteq> 0)"
      "more \<longrightarrow> table_rows (remaining s') < table_rows (remaining s)"
    using assms unfolding fetch_contract_def by blast
  then have "checked_out py2 (Fetch rpc op n NEXT s) Return = (Return (more, rs), s')"
    by (simp add: checked_out_def Fetch_def checked_rpc_def FetchOrientationToTFetchOrientation_def
        check_status_def ok_TStatusToStatus)
  with rest show thesis using that by blast
qed

text \<open>The batches fetched so far hold these columns.\<close>

definition batches_hold :: "TypeId list \<Rightarrow> row_set list \<Rightarrow> table \<Rightarrow> bool" where
  "batches_hold types batches tab \<longleftrightarrow>
     length tab = length types \<and>
     (\<forall>k < length types. batches_ok (types ! k) k batches \<and> cells_of k batches = tab ! k)"

lemma batches_hold_Nil:
  assumes "rectangular tab" "table_rows tab = 0" "length tab = length types"
  shows "batches_hold types [] tab"
  using assms by (auto simp: batches_hold_def batches_ok_def cells_of_def rectangular_def list_all_length)

lemma batches_hold_Cons:
  assumes "list_all2 (\<lambda>t c. carried_by t c \<and> tcolumn_bitmap_ok c) types rs"
    and "batches_hold types batches tab"
  shows "batches_hold types (rs # batches) (map2 (@) (map tcolumn_cells rs) tab)"
  using assms by (auto simp: batches_hold_def batches_ok_def cells_of_def list_all2_conv_all_nth)

lemma fetch_loop_refines:
  assumes "fetch_contract rpc (op_handle op) types remaining" "0 < n" "py_op self = Some op"
  shows "\<exists>batches s'. fetch_loop py2 rpc self n acc s = Some (Return (acc @ batches), s') \<and>
    batches_hold types batches (remaining s)"
proof (induction "table_rows (remaining s)" arbitrary: s acc rule: less_induct)
  case less
  obtain more rs s' where fetch: "checked_out py2 (Fetch rpc op n NEXT s) Return = (Return (more, rs), s')"
    and rs: "list_all2 (\<lambda>t c. carried_by t c \<and> tcolumn_bitmap_ok c) types rs"
    and rest: "length (remaining s') = length types" "rectangular (remaining s')"
    and tab: "remaining s = map2 (@) (map tcolumn_cells rs) (remaining s')"
    and more: "more = (table_rows (remaining s') \<noteq> 0)"
      "more \<Longrightarrow> table_rows (remaining s') < table_rows (remaining s)"
    by (rule fetch_contractD [OF assms(1,2), of py2 s]) blast
  have step: "fetch_loop py2 rpc self n acc s =
      (if more then fetch_loop py2 rpc self n (acc @ [rs]) s' else Some (Return (acc @ [rs]), s'))"
    by (subst fetch_loop.simps) (simp add: assms(3) fetch)
  show ?case
  proof (cases more)
    case True
    from less [OF more(2) [OF True], of "acc @ [rs]"] obtain batches t where
      "fetch_loop py2 rpc self n (acc @ [rs]) s' = Some (Return (acc @ rs # batches), t)"
      "batches_hold types batches (remaining s')" by auto
    then show ?thesis using True step batches_hold_Cons [OF rs] by (auto simp: tab)
  next
    case False
    then have "batches_hold types [] (remaining s')"
      using rest more(1) by (simp add: batches_hold_Nil)
    then show ?thesis using False step batches_hold_Cons [OF rs] by (auto simp: tab)
  qed
qed

text \<open>The dictionary of converted columns: a later column replaces an earlier one of its name.\<close>

lemma frame_loop_eq:
  assumes "\<And>i. i \<in> set is \<Longrightarrow> i < length columns"
    and "\<And>i. i \<in> set is \<Longrightarrow> desc_name py2 (columns ! i) = Return (names ! i)"
    and "\<And>i. i \<in> set is \<Longrightarrow> convert_column py2 pd batches i (column_type (columns ! i)) = Return (xs ! i)"
  shows "frame_loop py2 pd batches columns is acc f =
    Return (acc @ map ((!) names) is, f ++ map_of (rev (map (\<lambda>i. (names ! i, xs ! i)) is)))"
  using assms
proof (induction "is" arbitrary: acc f)
  case (Cons i "is")
  have "i < length columns" using Cons.prems(1) by simp
  then have "schema_column py2 columns (int i) = Return (columns ! i)"
    by (simp add: schema_column_def)
  with Cons show ?case by (simp add: map_add_def fun_eq_iff split: option.split)
qed simp

lemma frame_loop_all:
  assumes "map (desc_name py2) columns = map Return names"
    and "map2 (\<lambda>i d. convert_column py2 pd batches i (column_type d)) [0..<length columns] columns = map Return xs"
  shows "frame_loop py2 pd batches columns [0..<length columns] [] Map.empty =
    Return (names, map_of (rev (zip names xs)))"
proof -
  have len: "length names = length columns" "length xs = length columns"
    using arg_cong [OF assms(1), of length] arg_cong [OF assms(2), of length] by simp_all
  have "desc_name py2 (columns ! i) = Return (names ! i)"
    "convert_column py2 pd batches i (column_type (columns ! i)) = Return (xs ! i)" if "i < length columns" for i
    using that len arg_cong [OF assms(1), of "\<lambda>zs. zs ! i"] arg_cong [OF assms(2), of "\<lambda>zs. zs ! i"] by simp_all
  then have "frame_loop py2 pd batches columns [0..<length columns] [] Map.empty =
      Return ([] @ map ((!) names) [0..<length columns],
        Map.empty ++ map_of (rev (map (\<lambda>i. (names ! i, xs ! i)) [0..<length columns])))"
    by (intro frame_loop_eq) simp_all
  moreover have "map ((!) names) [0..<length columns] = names"
    using len map_nth [of names] by simp
  moreover have "map (\<lambda>i. (names ! i, xs ! i)) [0..<length columns] = zip names xs"
    using len by (intro nth_equalityI) simp_all
  ultimately show ?thesis by simp
qed

fun series_abs :: "'d series \<Rightarrow> pcolumn option" where
  "series_abs (Array a) = Some (array_abs a)"
| "series_abs (Datetimes d) = None"

definition plain_type :: "TypeId \<Rightarrow> bool" where
  "plain_type t = (t \<noteq> ColumnType_TIMESTAMP \<and> t \<noteq> ColumnType_DECIMAL)"

definition valid_batchsize :: "py_obj \<Rightarrow> bool" where
  "valid_batchsize ob = (case ob of PNone \<Rightarrow> True | PInt n \<Rightarrow> 0 < n \<and> n < 2 ^ 31 | _ \<Rightarrow> False)"

definition metadata_contract :: "'s rpc_client \<Rightarrow> handle \<Rightarrow> TColumnDesc list \<Rightarrow> bool" where
  "metadata_contract rpc h descs \<longleftrightarrow>
     (\<forall>s. \<exists>ts. rpc_GetResultSetMetadata rpc h s = (Inr (ts, descs), s) \<and> tstatus_ok ts)"

lemma convert_column_plain:
  assumes "batches_ok (type_id ty) i batches" "plain_type (type_id ty)"
    and "pandas_spec py2 (type_id ty) (cells_of i batches) = Inr c"
  shows "\<exists>a. convert_column py2 pd batches i ty = Return (Array a) \<and> array_abs a = c"
proof -
  obtain r where "ConvertColumnPandas py2 batches i ty = Some r" "map_sum id array_abs r = Inr c"
    using ConvertColumnPandas_abs [OF assms(1), of py2] assms(3) by (auto simp: convert_abs_def)
  then show ?thesis using assms(2) by (cases r) (auto simp: convert_column_def plain_type_def)
qed

lemma fetchall_internal_refines:
  assumes "fetch_contract rpc (op_handle op) types remaining" "valid_batchsize batchsize" "py_op self = Some op"
  shows "\<exists>batches s'. fetchall_internal py2 rpc self batchsize s = Some (Return batches, s') \<and>
    batches_hold types batches (remaining s)"
proof -
  obtain n where "0 < n" "(if batchsize \<noteq> PNone then c_int batchsize else Return DEFAULT_BATCHSIZE) = Return n"
    using assms(2) by (cases batchsize) (auto simp: valid_batchsize_def c_int_def DEFAULT_BATCHSIZE_def)
  with fetch_loop_refines [OF assms(1) _ assms(3), of n py2 "[]" s] show ?thesis
    by (auto simp: fetchall_internal_def)
qed

lemma schema_fetched:
  assumes "metadata_contract rpc (op_handle op) descs"
  shows "schema py2 rpc \<lparr>py_op = Some op, cached_metadata = None\<rparr> s =
    (Return (map TColumnDescToColumnDesc descs),
     \<lparr>py_op = Some op, cached_metadata = Some (map TColumnDescToColumnDesc descs)\<rparr>, s)"
proof -
  obtain ts where "rpc_GetResultSetMetadata rpc (op_handle op) s = (Inr (ts, descs), s)" "tstatus_ok ts"
    using assms by (auto simp: metadata_contract_def)
  then show ?thesis
    by (simp add: schema_def checked_out_def GetResultSetMetadata_def checked_rpc_def check_status_def
        ok_TStatusToStatus)
qed

lemma convert_columns_plain:
  assumes hold: "batches_hold types batches tab" and plain: "list_all plain_type types"
    and types: "map (\<lambda>d. type_id (column_type d)) columns = types"
    and spec: "map2 (pandas_spec py2) types tab = map Inr cols"
  shows "\<exists>xs. map2 (\<lambda>i d. convert_column py2 pd batches i (column_type d)) [0..<length columns] columns =
      map Return xs \<and> map series_abs xs = map Some cols"
proof -
  have len: "length columns = length types" "length tab = length types" "length cols = length types"
    using hold arg_cong [OF spec, of length] arg_cong [OF types, of length] by (auto simp: batches_hold_def)
  have "\<exists>a. convert_column py2 pd batches i (column_type (columns ! i)) = Return (Array a) \<and> array_abs a = cols ! i"
    if "i < length types" for i
  proof (rule convert_column_plain)
    have ty: "type_id (column_type (columns ! i)) = types ! i"
      using that len(1) arg_cong [OF types, of "\<lambda>zs. zs ! i"] by (simp only: nth_map)
    show "batches_ok (type_id (column_type (columns ! i))) i batches"
      "plain_type (type_id (column_type (columns ! i)))"
      using that hold plain by (auto simp: ty batches_hold_def list_all_length)
    have "pandas_spec py2 (types ! i) (tab ! i) = Inr (cols ! i)"
      using that len arg_cong [OF spec, of "\<lambda>zs. zs ! i"] by simp
    then show "pandas_spec py2 (type_id (column_type (columns ! i))) (cells_of i batches) = Inr (cols ! i)"
      using that hold by (simp add: ty batches_hold_def)
  qed
  then have "\<forall>i. \<exists>a. i < length types \<longrightarrow>
      convert_column py2 pd batches i (column_type (columns ! i)) = Return (Array a) \<and> array_abs a = cols ! i"
    by blast
  then obtain a where "\<forall>i. i < length types \<longrightarrow>
      convert_column py2 pd batches i (column_type (columns ! i)) = Return (Array (a i)) \<and> array_abs (a i) = cols ! i"
    using choice [of "\<lambda>i a. i < length types \<longrightarrow>
      convert_column py2 pd batches i (column_type (columns ! i)) = Return (Array a) \<and> array_abs a = cols ! i"]
    by blast
  then have a: "convert_column py2 pd batches i (column_type (columns ! i)) = Return (Array (a i))"
    "array_abs (a i) = cols ! i" if "i < length types" for i using that by simp_all
  let ?xs = "map (\<lambda>i. Array (a i)) [0..<length types]"
  have "map2 (\<lambda>i d. convert_column py2 pd batches i (column_type d)) [0..<length columns] columns = map Return ?xs"
    using a(1) len by (intro nth_equalityI) simp_all
  moreover have "map series_abs ?xs = map Some cols"
    using a(2) len by (intro nth_equalityI) simp_all
  ultimately show ?thesis by blast
qed

lemma map_of_rev_zip_distinct:
  assumes "distinct names" "length names = length xs"
  shows "map (map_of (rev (zip names xs))) names = map Some xs"
proof -
  have "map_of (rev (zip names xs)) = map_of (zip names xs)"
    using assms by (subst map_of_inject_set) (simp_all add: rev_map [symmetric])
  then show ?thesis
    using assms by (intro nth_equalityI) (simp_all add: map_of_zip_nth)
qed


text \<open>A server with one column of integers that answers every fetch with one row.\<close>

definition ok_status :: TStatus where
  "ok_status = \<lparr>statusCode = 0, infoMessages = [], errorMessage = []\<rparr>"

definition one_row_descs :: "TColumnDesc list" where
  "one_row_descs =
     [\<lparr>columnName = ''id'', typeDesc = [primitiveEntry 3 Map.empty], tposition = 1, comment_text = []\<rparr>]"

definition one_row_server :: "32 word option list rpc_client" where
  "one_row_server =
     \<lparr>rpc_OpenSession = (\<lambda>config user s. (Inr (ok_status, ''s''), s)),
      rpc_CloseSession = (\<lambda>h s. (Inr ok_status, s)),
      rpc_ExecuteStatement = (\<lambda>h statement config s. (Inr (ok_status, ''o''), s)),
      rpc_GetOperationStatus = (\<lambda>h s. (Inr (ok_status, 2), s)),
      rpc_GetLog = (\<lambda>h s. (Inr (ok_status, []), s)),
      rpc_GetRuntimeProfile = (\<lambda>h h' s. (Inr (ok_status, []), s)),
      rpc_GetResultSetMetadata = (\<lambda>h s. (Inr (ok_status, one_row_descs), s)),
      rpc_FetchResults = (\<lambda>h orientation n s.
        case s of
          [] \<Rightarrow> (Inr (ok_status, False, [i32Val [] []]), [])
        | None # vs \<Rightarrow> (Inr (ok_status, vs \<noteq> [], [i32Val [0] [CHR 0x01]]), vs)
        | Some w # vs \<Rightarrow> (Inr (ok_status, vs \<noteq> [], [i32Val [w] [CHR 0x00]]), vs)),
      rpc_CancelOperation = (\<lambda>h s. (Inr ok_status, s)),
      rpc_CloseOperation = (\<lambda>h s. (Inr ok_status, s)),
      transport_open = (\<lambda>host port timeout s. (Inr (), s)),
      transport_close = (\<lambda>s. (Inr (), s)),
      transport_isOpen = (\<lambda>s. True)\<rparr>"

definition one_column :: "32 word option list \<Rightarrow> table" where
  "one_column vs = [map (map_option (CInt \<circ> sint)) vs]"

lemma one_row_fetch: "fetch_contract one_row_server h [ColumnType_INT] one_column"
proof -
  have empty: "tcolumn_cells (i32Val [] []) = []" by code_simp
  have null: "tcolumn_cells (i32Val [0] [CHR 0x01]) = [None]" by code_simp
  have val: "tcolumn_cells (i32Val [w] [CHR 0x00]) = [Some (CInt (sint w))]" for w
    by (simp add: cells_def col_length_def null_bit_def)
  have "tstatus_ok ok_status" by (simp add: tstatus_ok_def ok_status_def)
  then show ?thesis
    unfolding fetch_contract_def
    by (auto simp: one_row_server_def one_column_def empty null val carried_by_def rectangular_def table_rows_def
        cells_def col_length_def simp del: tcolumn_cells.simps split: list.splits option.splits)
qed


section \<open>Types of columns\<close>

text \<open>C10: The wrapper object of a column type always has the class its type asks for: for every
  column descriptor the server can send, with whatever type identifier and qualifiers, the
  property \<^verbatim>\<open>type\<close> returns (no downcast goes to an object of another class, no exception), the
  wrapper shows the type of the descriptor, and the length, precision and scale it shows are
  those stored in it.\<close>

theorem ColumnDesc_type_safe:
  "\<exists>t. ColumnDesc_type (TColumnDescToColumnDesc d) = Return t \<and>
     base t = TTypeDescToColumnType (typeDesc d) \<and>
     (case t of
        PyPrimitiveType b \<Rightarrow> b = PrimitiveType (type_id b)
      | PyCharacterType b (i, max_length) \<Rightarrow> b = CharacterType i max_length
      | PyDecimalType b (i, precision, scale) \<Rightarrow> b = DecimalType i precision scale)"
  using TTypeDescToColumnType_ok [of "typeDesc d"]
  by (cases "TTypeDescToColumnType (typeDesc d)")
    (auto simp: ColumnDesc_type_def TColumnDescToColumnDesc_def GetDecimalType_def GetCharacterType_def)

section \<open>Life of an operation\<close>

text \<open>The methods a program can call on an operation, in any order, and the passing of time.\<close>

inductive op_step :: "bool \<Rightarrow> 's rpc_client \<Rightarrow> 'd pandas \<Rightarrow> PyOperation \<times> 's \<Rightarrow> PyOperation \<times> 's \<Rightarrow> bool"
  for py2 :: bool and rpc :: "'s rpc_client" and pd :: "'d pandas" where
  cancel: "PyOperation_cancel py2 rpc self s = (r, s') \<Longrightarrow> op_step py2 rpc pd (self, s) (self, s')"
| close: "close_operation py2 rpc self s = (r, self', s') \<Longrightarrow> op_step py2 rpc pd (self, s) (self', s')"
| get_state: "get_state py2 rpc self s = (r, s') \<Longrightarrow> op_step py2 rpc pd (self, s) (self, s')"
| get_log: "get_log py2 rpc self s = (r, s') \<Longrightarrow> op_step py2 rpc pd (self, s) (self, s')"
| get_profile: "get_profile py2 rpc self s = (r, s') \<Longrightarrow> op_step py2 rpc pd (self, s) (self, s')"
| is_finished: "is_finished rpc self s = (r, s') \<Longrightarrow> op_step py2 rpc pd (self, s) (self, s')"
| wait: "wait py2 rpc sleep self timeout s = Some (r, s') \<Longrightarrow> op_step py2 rpc pd (self, s) (self, s')"
| schema: "schema py2 rpc self s = (r, self', s') \<Longrightarrow> op_step py2 rpc pd (self, s) (self', s')"
| fetchall: "fetchall_pandas py2 rpc pd self batchsize s = Some (r, self', s') \<Longrightarrow>
    op_step py2 rpc pd (self, s) (self', s')"
| elsewhere: "op_step py2 rpc pd (self, s) (self, s')"

inductive_cases op_stepE: "op_step py2 rpc pd (self, s) (self', s')"

definition op_opened :: "PyOperation \<Rightarrow> bool" where
  "op_opened self = (case py_op self of None \<Rightarrow> False | Some op \<Rightarrow> op_open op)"

text \<open>What a step may change: an open operation can be closed, an empty cache filled.\<close>

definition op_evolves :: "PyOperation \<Rightarrow> PyOperation \<Rightarrow> bool" where
  "op_evolves self self' \<longleftrightarrow>
     map_option op_handle (py_op self') = map_option op_handle (py_op self) \<and>
     (op_opened self' \<longrightarrow> op_opened self) \<and>
     (\<forall>m. cached_metadata self = Some m \<longrightarrow> cached_metadata self' = Some m)"

lemma op_evolves_refl [simp]: "op_evolves self self"
  by (simp add: op_evolves_def)

lemma op_evolves_trans: "op_evolves a b \<Longrightarrow> op_evolves b c \<Longrightarrow> op_evolves a c"
  by (auto simp: op_evolves_def)

lemma Operation_Close_handle:
  "Operation_Close rpc op s = (st, op', s') \<Longrightarrow> op_handle op' = op_handle op \<and> (op_open op' \<longrightarrow> op_open op)"
  by (auto simp: Operation_Close_def split: if_splits prod.splits option.splits)

lemma close_operation_evolves:
  "close_operation py2 rpc self s = (r, self', s') \<Longrightarrow> op_evolves self self'"
  by (auto simp: close_operation_def op_evolves_def op_opened_def dest: Operation_Close_handle
      split: option.splits prod.splits)

lemma schema_evolves: "schema py2 rpc self s = (r, self', s') \<Longrightarrow> op_evolves self self'"
  by (auto simp: schema_def op_evolves_def op_opened_def split: option.splits prod.splits outcome.splits)

lemma fetchall_evolves:
  "fetchall_pandas py2 rpc pd self batchsize s = Some (r, self', s') \<Longrightarrow> op_evolves self self'"
  by (auto simp: fetchall_pandas_def dest: schema_evolves split: option.splits prod.splits outcome.splits)

lemma op_step_evolves:
  "op_step py2 rpc pd x y \<Longrightarrow> op_evolves (fst x) (fst y)"
  by (cases x, cases y)
    (auto elim!: op_stepE intro: close_operation_evolves schema_evolves fetchall_evolves)

lemma op_steps_evolves: "(op_step py2 rpc pd)\<^sup>*\<^sup>* x y \<Longrightarrow> op_evolves (fst x) (fst y)"
  by (induction rule: rtranclp_induct) (auto dest: op_step_evolves op_evolves_trans)

lemma close_operation_closed:
  "\<not> op_opened self \<Longrightarrow> close_operation py2 rpc self s = (Return (), self, s)"
  by (auto simp: close_operation_def op_opened_def operation.close_closed check_status_def
      split: option.splits)

lemma close_operation_ok:
  assumes "close_operation py2 rpc self s = (Return (), self', s')"
  shows "\<not> op_opened self'"
  using assms operation.close_ok [of rpc]
  by (auto simp: close_operation_def op_opened_def check_status_def split: option.splits prod.splits if_splits
      elim!: bind_outcome.elims)

text \<open>C5: A successful \<open>close\<close> is final. Whatever methods are called on the operation afterwards, in
  whatever order and with whatever answers of the server, it stays closed, keeps its handle and
  the schema it had cached, and every further \<open>close\<close> returns without a remote call and changes
  nothing, so the server never gets a second request to close the handle.\<close>

theorem closed_operation_stays_closed:
  assumes "close_operation py2 rpc self s = (Return (), self1, s1)"
    and "(op_step py2 rpc pd)\<^sup>*\<^sup>* (self1, s1) (self2, s2)"
  shows "\<not> op_opened self2 \<and> close_operation py2 rpc self2 s2 = (Return (), self2, s2) \<and>
    map_option op_handle (py_op self2) = map_option op_handle (py_op self) \<and>
    (case cached_metadata self of None \<Rightarrow> True | Some m \<Rightarrow> cached_metadata self2 = Some m)"
proof -
  have "op_evolves self1 self2" using op_steps_evolves [OF assms(2)] by simp
  moreover have "\<not> op_opened self1" using assms(1) by (rule close_operation_ok)
  moreover have "op_evolves self self2"
    using close_operation_evolves [OF assms(1)] calculation(1) by (rule op_evolves_trans)
  ultimately show ?thesis
    by (auto simp: op_evolves_def close_operation_closed split: option.splits)
qed

theorem closed_operation_stays_closed_witness:
  "\<not> op_opened \<lparr>py_op = Some \<lparr>op_handle = ''o'', op_session_handle = ''s'', op_open = False\<rparr>, cached_metadata = None\<rparr>"
proof -
  let ?op = "\<lambda>b. \<lparr>py_op = Some \<lparr>op_handle = ''o'', op_session_handle = ''s'', op_open = b\<rparr>, cached_metadata = None\<rparr>"
  have closed: "close_operation False one_row_server (?op True) [] = (Return (), ?op False, [])" by code_simp
  have "get_state False one_row_server (?op False) [] = (Return (PText (text_of ''finished'')), [])" by code_simp
  then have "op_step False one_row_server (undefined :: unit pandas) (?op False, []) (?op False, [])"
    by (rule op_step.get_state)
  then have "(op_step False one_row_server (undefined :: unit pandas))\<^sup>*\<^sup>* (?op False, []) (?op False, [])" by blast
  from closed_operation_stays_closed [OF closed this] show ?thesis by simp
qed

text \<open>The same of sessions.\<close>

lemma close_session_again:
  assumes "close_session py2 rpc self s = (Return (), self', s')"
  shows "close_session py2 rpc self' t = (Return (), self', t)"
proof (cases "py_session self")
  case None
  with assms show ?thesis by (auto simp: close_session_def)
next
  case (Some sn)
  obtain st sn' s2 where close: "Session_Close rpc sn s = (st, sn', s2)" by (cases "Session_Close rpc sn s")
  with assms Some have "check_status py2 st = Return ()" "self' = self\<lparr>py_session := Some sn'\<rparr>"
    by (auto simp: close_session_def)
  moreover from this have "Status_ok st"
    by (auto simp: check_status_def split: if_splits elim!: bind_outcome.elims)
  ultimately show ?thesis
    using session.close_again [OF close] by (simp add: close_session_def check_status_def)
qed

section \<open>Columns with one name\<close>

text \<open>The columns are collected in a dictionary under their names, so of two columns with one name
  the frame shows the later one twice.\<close>

lemma duplicate_column_names:
  assumes "map (desc_name py2) [c, d] = map Return [n, n]"
    and "convert_column py2 pd batches 0 (column_type c) = Return x"
    and "convert_column py2 pd batches 1 (column_type d) = Return y"
  shows "frame_loop py2 pd batches [c, d] [0..<2] [] Map.empty = Return ([n, n], [n \<mapsto> y])"
proof -
  have "map2 (\<lambda>i d. convert_column py2 pd batches i (column_type d)) [0..<length [c, d]] [c, d] = map Return [x, y]"
    using assms(2,3) by simp
  from frame_loop_all [OF assms(1) this] show ?thesis by (simp add: numeral_2_eq_2)
qed

section \<open>Objects made by the public methods\<close>

lemma bind_outcome_Undefined:
  "bind_outcome x f = Undefined \<longleftrightarrow> x = Undefined \<or> (\<exists>a. x = Return a \<and> f a = Undefined)"
  by (cases x) auto

lemma of_sum_defined [simp]: "of_sum r \<noteq> Undefined"
  by (cases r) auto

lemma check_status_defined [simp]: "check_status py2 st \<noteq> Undefined"
  by (auto simp: check_status_def bind_outcome_Undefined)

lemma check_status_Return: "check_status py2 st = Return u \<Longrightarrow> Status_ok st"
  by (auto simp: check_status_def split: if_splits elim!: bind_outcome.elims)

lemma bind_outcome_Return: "bind_outcome x f = Return b \<longleftrightarrow> (\<exists>a. x = Return a \<and> f a = Return b)"
  by (cases x) auto

lemma checked_out_defined:
  assumes "Status_ok (fst r) \<longleftrightarrow> fst (snd r) \<noteq> None" "\<And>x. f x \<noteq> Undefined"
  shows "fst (checked_out py2 r f) \<noteq> Undefined"
  using assms by (cases r) (auto simp: checked_out_def bind_outcome_Undefined dest: check_status_Return
      split: option.splits)

lemma checked_rpc_ok: "Status_ok (fst (checked_rpc call)) \<longleftrightarrow> fst (snd (checked_rpc call)) \<noteq> None"
  by (cases "checked_rpc call") (auto dest: checked_rpc_out)

lemma GetState_ok: "Status_ok (fst (GetState rpc op s)) \<longleftrightarrow> fst (snd (GetState rpc op s)) \<noteq> None"
  using checked_rpc_ok [of "rpc_GetOperationStatus rpc (op_handle op) s"]
  by (auto simp: GetState_def split: prod.splits)

lemma GetResultSetMetadata_ok:
  "Status_ok (fst (GetResultSetMetadata rpc op s)) \<longleftrightarrow> fst (snd (GetResultSetMetadata rpc op s)) \<noteq> None"
  using checked_rpc_ok [of "rpc_GetResultSetMetadata rpc (op_handle op) s"]
  by (auto simp: GetResultSetMetadata_def split: prod.splits)

lemmas calls_ok = checked_rpc_ok GetState_ok GetResultSetMetadata_ok

lemma fetch_loop_defined:
  "fetch_loop py2 rpc self n acc s = Some r \<Longrightarrow> py_op self \<noteq> None \<Longrightarrow> fst r \<noteq> Undefined"
proof (induction py2 rpc self n acc s r rule: fetch_loop.raw_induct [rotated, consumes 1, case_names step])
  case (step fetch_loop py2 rpc self n acc s r)
  then obtain op where op: "py_op self = Some op" by blast
  have "fst (checked_out py2 (Fetch rpc op n NEXT s) Return) \<noteq> Undefined"
    by (rule checked_out_defined) (simp_all add: Fetch_def calls_ok)
  with step op show ?case
    by (auto split: prod.splits outcome.splits if_splits)
qed

lemma operation_methods_defined:
  assumes "py_op self = Some op"
  shows "fst (get_state py2 rpc self t) \<noteq> Undefined" "fst (get_log py2 rpc self t) \<noteq> Undefined"
    "fst (get_profile py2 rpc self t) \<noteq> Undefined" "fst (PyOperation_cancel py2 rpc self t) \<noteq> Undefined"
    "fst (is_finished rpc self t) \<noteq> Undefined"
  using assms
  by (simp_all add: get_state_def get_log_def get_profile_def PyOperation_cancel_def is_finished_def GetLog_def
      GetProfile_def calls_ok checked_out_defined split: prod.splits)

lemma schema_defined:
  assumes "py_op self = Some op"
  shows "fst (schema py2 rpc self t) \<noteq> Undefined"
  using assms checked_out_defined [of "GetResultSetMetadata rpc op t" Return py2]
  by (auto simp: schema_def calls_ok split: option.splits prod.splits outcome.splits)

text \<open>C9: The objects a program gets from \<open>connect\<close>, \<open>open_session\<close> and \<open>execute\<close> never follow a null
  pointer and never read an output that was not written: whatever the server answers, and also
  after a failed or closed connection, their methods return or raise an exception.\<close>

theorem public_objects_defined:
  assumes "connect py2 rpc environ_USER host port user protocol s = (Return service, s1)"
    and "open_session py2 rpc service s2 = (Return session, s3)"
    and "execute py2 rpc session statement s4 = (Return op, s5)"
  shows "is_connected rpc service t \<noteq> Undefined \<and> fst (open_session py2 rpc service t) \<noteq> Undefined \<and>
    fst (execute py2 rpc session statement' t) \<noteq> Undefined \<and> fst (get_state py2 rpc op t) \<noteq> Undefined \<and>
    fst (get_log py2 rpc op t) \<noteq> Undefined \<and> fst (get_profile py2 rpc op t) \<noteq> Undefined \<and>
    fst (PyOperation_cancel py2 rpc op t) \<noteq> Undefined \<and> fst (is_finished rpc op t) \<noteq> Undefined \<and>
    fst (schema py2 rpc op t) \<noteq> Undefined \<and>
    map_option fst (fetchall_internal py2 rpc op batchsize t) \<noteq> Some Undefined"
proof -
  obtain sv where sv: "py_service service = Some sv" "has_transport sv"
    using assms(1)
    by (auto simp: connect_def Service_cinit_def Connect_def Service_Open_def new_Service_def Let_def
        bind_outcome_Return parse_protocol_def ProtocolVersionToTProtocolVersion_def
        split: outcome.splits prod.splits sum.splits if_splits dest!: check_status_Return)
  obtain sn where sn: "py_session session = Some sn"
    using assms(2) by (auto simp: open_session_def bind_outcome_Return Session_cinit_def
        split: option.splits prod.splits)
  obtain op' where op: "py_op op = Some op'"
    using assms(3) by (auto simp: execute_def bind_outcome_Return Operation_cinit_def
        split: option.splits prod.splits outcome.splits)
  have "is_connected rpc service t \<noteq> Undefined" "fst (open_session py2 rpc service t) \<noteq> Undefined"
    using sv by (auto simp: is_connected_def open_session_def OpenSession_def bind_outcome_Undefined
        split: prod.splits)
  moreover have "fst (execute py2 rpc session statement' t) \<noteq> Undefined"
    using sn by (auto simp: execute_def cpp_string_def bind_outcome_Undefined
        split: prod.splits outcome.splits py_obj.splits)
  moreover have "map_option fst (fetchall_internal py2 rpc op batchsize t) \<noteq> Some Undefined"
    using op by (auto simp: fetchall_internal_def c_int_def dest: fetch_loop_defined
        split: outcome.splits if_splits py_obj.splits)
  ultimately show ?thesis
    by (simp add: operation_methods_defined [OF op] schema_defined [OF op])
qed

theorem public_objects_defined_witness:
  "fst (get_state False one_row_server
     \<lparr>py_op = Some \<lparr>op_handle = ''o'', op_session_handle = ''s'', op_open = True\<rparr>, cached_metadata = None\<rparr> []) \<noteq>
   Undefined"
proof -
  let ?service = "\<lparr>py_service = Some (new_Service ''h'' 21050 0 Protocol_V7\<lparr>has_transport := True\<rparr>), py_user = ''u''\<rparr>"
  have connect: "connect False one_row_server (PBytes ''u'') (PBytes ''h'') (PInt 21050) PNone ''v7'' [] =
      (Return ?service, [])" by code_simp
  have session: "open_session False one_row_server ?service [] =
      (Return \<lparr>py_session = Some \<lparr>sess_handle = ''s'', sess_open = True\<rparr>\<rparr>, [])" by code_simp
  have execute: "execute False one_row_server \<lparr>py_session = Some \<lparr>sess_handle = ''s'', sess_open = True\<rparr>\<rparr>
      (PBytes ''select 1'') [] =
      (Return \<lparr>py_op = Some \<lparr>op_handle = ''o'', op_session_handle = ''s'', op_open = True\<rparr>, cached_metadata = None\<rparr>, [])"
    by code_simp
  from public_objects_defined [OF connect session execute] show ?thesis by blast
qed

end
