(* ===== verification/Spec2Isabelle.thy ===== *)
theory Spec2Isabelle
  imports Db_Api Error_Codes Lint_Driver Build_Scripts Hs2_Ext
begin

text \<open>
  A verification library for hs2client, a C++ client of HiveServer2 and Impala with a Python
  interface, and for the scripts of its repository.

  \<^bold>\<open>The program.\<close> A Python user calls \<open>hs2client.connect\<close> and gets a service, opens sessions on
  it, executes statements, waits for the operations and fetches the results as pandas data
  frames. These classes are written in Cython (\<^verbatim>\<open>python/hs2client/ext.pyx\<close>) over the C++ library
  (\<^verbatim>\<open>src/hs2client\<close>), which calls the server through Thrift. A fetched batch is columnar: a vector
  of values and a bitmap of nulls for each column; \<^verbatim>\<open>python/hs2client/converters.h\<close> concatenates the
  batches into NumPy arrays. \<^verbatim>\<open>python/hs2client/dbapi.py\<close> prepares an interface after PEP 249, of which
  the binding of parameters is complete. \<^verbatim>\<open>thrift/generate_error_codes.py\<close> writes the Thrift file of
  the error codes. \<^verbatim>\<open>build-support/cpplint.py\<close>, by far the longest file, checks the style of the C++
  sources; \<^verbatim>\<open>python/setup.py\<close> and \<^verbatim>\<open>build-support/collect_coverage.py\<close> belong to the build.

  \<^bold>\<open>The theories.\<close>

  \<^item> \<open>Prelude\<close>: the methods of Python's strings, and the lemmas on them that all theories share.
  \<^item> \<open>Py_Text\<close> (\<^verbatim>\<open>compat.py\<close>): Python objects and exceptions, UTF-8, \<open>tobytes\<close> and \<open>frombytes\<close>, shown to
    be inverse to each other.
  \<^item> \<open>Py_Path\<close>, \<open>Py_Regex\<close>: \<open>os.path\<close> over a file system that is a parameter, and Python's regular
    expressions. \<open>re_compile\<close> reads the text of a pattern, so a definition shows the pattern the
    source has, written with a grave accent for the backslash (\<open>raw\<close>). Matching
    backtracks in Python's order and is total.
  \<^item> \<open>Db_Api\<close> (\<^verbatim>\<open>error.py\<close>, \<^verbatim>\<open>dbapi.py\<close>): the classes of exceptions, the abstract connection and cursor,
    escaping and the three styles of markers. An escaped text is read back by a scanner of SQL
    literals; the substitutions equal a reference that fills the parameters between the pieces of
    the statement, under the condition that makes them equal, and fail in the known way without it.
  \<^item> \<open>Error_Codes\<close> (\<^verbatim>\<open>generate_error_codes.py\<close>): the table, its check, the generated text and a reader of
    the whole text, which gives the names, numbers and messages of the table back.
  \<^item> \<open>Hs2_Types\<close> (\<^verbatim>\<open>status.cc\<close>, \<^verbatim>\<open>types.h\<close>, \<^verbatim>\<open>types.cc\<close>, \<^verbatim>\<open>thrift-internal.cc\<close>): statuses and the conversions of
    the Thrift enumerations, with the \<open>switch\<close> statements whose fall-through ends in a \<open>DCHECK\<close>.
  \<^item> \<open>Hs2_Columns\<close> (\<^verbatim>\<open>columnar-row-set.h\<close>, \<^verbatim>\<open>columnar-row-set.cc\<close>, \<^verbatim>\<open>converters.h\<close>): the typed columns and the
    converters. Buffers are read by index, and a read outside a buffer makes the
    result undefined (\<open>None\<close>); the conversions to floating point round to the nearest representable
    value, ties to even. Integers in a column with a null become doubles through a float of 24 bits, because \<open>NAN\<close> is
    a float and the conditional expression takes its type. The converters refine an abstract conversion of the list of cells.
  \<^item> \<open>Hs2_Client\<close> (\<^verbatim>\<open>operation.cc\<close>, \<^verbatim>\<open>session.cc\<close>, \<^verbatim>\<open>service.cc\<close>): every remote operation, over a record of
    the functions that the Thrift client offers. The locale \<open>closable\<close> is the contract of \<open>Close\<close> that
    sessions and operations share.
  \<^item> \<open>Hs2_Ext\<close> (\<^verbatim>\<open>ext.pyx\<close>, \<^verbatim>\<open>__init__.py\<close>): the classes of the extension. A call returns, raises an exception,
    or is \<open>Undefined\<close>: it follows a null pointer or reads an output that was not set. The
    relation \<open>op_step\<close> has one rule for each method of an operation; invariants are
    proved over the operations it reaches. The loops of \<open>wait\<close> and \<open>fetchall_internal\<close> may not end:
    they are partial functions with \<open>None\<close> for not returning, and the theorems say when they return.
  \<^item> \<open>Build_Scripts\<close> (\<^verbatim>\<open>setup.py\<close>, \<^verbatim>\<open>collect_coverage.py\<close>).
  \<^item> \<open>Lint_State\<close> to \<open>Lint_Nesting\<close> (\<^verbatim>\<open>cpplint.py\<close>): the state of the linter, filters, suppressions and
    \<open>Error\<close> (\<open>Lint_State\<close>); the copies of a file without raw strings, comments and the text of literals
    (\<open>Lint_Cleanse\<close>); includes and file names (\<open>Lint_Include\<close>); matching brackets (\<open>Lint_Expr\<close>); the sizes of
    functions and the simple checks (\<open>Lint_Checks\<close>); the stack of blocks (\<open>Lint_Nesting\<close>). The locales
    \<open>lint_check\<close> and \<open>lint_check_family\<close> are the contract of a check: it only reports. What that means
    is \<open>reports\<close>, and each check is an interpretation. A check that can end in an exception of Python
    returns an option and has the contract \<open>partial_check\<close>. The theorems compare the removal of comments and the
    collapsing of literals with references over lines and literals, the end of an expression with the grammar of
    nested brackets, the order of includes with the phases of the style guide, and the files of a module with
    the components of their paths.
  \<^item> \<open>Lint_Spacing\<close>, \<open>Lint_RValue\<close>, \<open>Lint_Blocks\<close>, \<open>Lint_Language\<close>, \<open>Lint_Usage\<close> (\<^verbatim>\<open>cpplint.py\<close>): the checks of
    a line, in the order of the script: constructs, function lengths, comments and spaces; rvalue references;
    braces, \<open>CHECK\<close> macros, alternative tokens and \<open>CheckStyle\<close>; references, casts and \<open>CheckLanguage\<close>; missing
    includes, lambdas, \<open>virtual\<close>, C++11 headers and the indentation in namespaces. \<open>IsRValueType\<close> may
    recur forever and is a partial function; it returns unless the first symbol above the line is an opening parenthesis. The other theorems concern
    the suggested assertion macro, the text between brackets and the shortcut in the search for templates.
  \<^item> \<open>Lint_Driver\<close> (\<^verbatim>\<open>cpplint.py\<close>): \<open>ProcessLine\<close> and \<open>ProcessFileData\<close> compose all checks over the states of a
    file, and only report because each check does (\<open>line_step\<close>); the configuration files, \<open>ProcessFile\<close>, the
    command line and \<open>main\<close>, over a record \<open>environment\<close> of what the operating system provides. The theorems
    give the filters of a file as a reference over the chain of directories and the settings of a run as those of its
    arguments, and say what a file and a run leave
    of the settings, the counts and the exit status.

  \<^bold>\<open>Conventions and limits.\<close> The scripts are modelled as Python 2 runs them: \<open>cpplint.py\<close> divides integers with
  truncation and works on characters with codes up to 255. The C++ code is the release build, where
  \<open>DCHECK\<close> has no effect, without log messages and without failing allocations. Seconds are rational
  numbers. Loops that always end are total functions, with a measure where the recursion is not structural.
  Only the parser of regular expressions bounds the depth of its calls, by three times the length of the pattern:
  every character takes at most three nested calls. Regular expressions have no flags and no references back to a group: the
  one search without case is \<open>search_ignorecase\<close>, the one reference back is \<open>self_initialization\<close>, and a pattern
  of a configuration file outside this syntax counts as an error; the \<open>%\<close> operator is modelled for the conversions
  that the binding of parameters uses. \<open>getopt\<close> is that of Python's library for long options. Parameters of the model are the file system with the texts of its files, the data
  of \<open>unicodedata\<close>, the Thrift
  client and its transport, \<open>time.sleep\<close>, \<open>pandas.to_datetime\<close> and \<open>Decimal\<close>; a theorem that relies on one
  says what it assumes, and its witness gives one that satisfies it.

  \<^bold>\<open>Not modelled.\<close> The tests; the Thrift interfaces and the code generated from them; the
  build files and shell scripts; \<^verbatim>\<open>logging.h\<close>, \<^verbatim>\<open>macros.h\<close> and the example program, which hold no
  logic of their own; \<^verbatim>\<open>util.cc\<close>, which prints rows for the example program.
\<close>

end
